theory Spec2Isabelle
  imports Complex_Main "HOL-Library.Word" "HOL-Library.Monad_Syntax"
begin

unbundle bit_operations_syntax

chapter \<open>The ordered task engine and the NMEA checksum, embedded in HOL\<close>

text \<open>
  The development follows \<^verbatim>\<open>src/Engine/Task/Ordered/OrderedTask.cpp\<close>,
  \<^verbatim>\<open>src/Engine/Task/Stats/StartStats.cpp\<close> and \<^verbatim>\<open>src/NMEA/Checksum.hpp\<close>.
  The first part holds the model: every function of these files that a property below
  needs, written in the order and with the checks of the C++ text. The second part holds
  the properties.

  Conventions of the model.
  \<^item> A computation that the C++ standard leaves undefined (a null or dangling pointer that
    is dereferenced, \<^verbatim>\<open>front()\<close> of an empty vector, an index past the end, a read past
    a buffer, a failed \<^verbatim>\<open>assert\<close>) has the value \<open>None\<close>.
  \<^item> \<^verbatim>\<open>unsigned\<close> is a 32-bit word and \<^verbatim>\<open>uint8_t\<close> an 8-bit word; arithmetic on them
    wraps. \<^verbatim>\<open>double\<close> is idealised as \<open>real\<close>. Sizes and indices of vectors are natural
    numbers (no vector here comes near \<open>2^32\<close> elements).
  \<^item> Functions that the sources only call, and whose text is in headers and files outside
    the three files above, are parameters: fields of the record \<open>env\<close>. A property
    holds for every choice of them unless it says otherwise.
\<close>

section \<open>Model: \<^verbatim>\<open>NMEA/Checksum.hpp\<close>\<close>

type_synonym u8 = "8 word"
type_synonym unsigned = "32 word"

text \<open>
  A \<^verbatim>\<open>const char *\<close> is the list of the bytes from the pointer to the end of the buffer
  it points into. \<^verbatim>\<open>strlen\<close> of the C library counts the bytes before the first NUL.
\<close>

fun strlen :: "u8 list \<Rightarrow> nat option" where
  "strlen [] = None"
| "strlen (c # p) = (if c = 0 then Some 0 else map_option Suc (strlen p))"

text \<open>
  The loop \<^verbatim>\<open>while (*p != 0) checksum ^= *p++\<close>; with \<open>apple\<close> the loop of the
  \<^verbatim>\<open>__APPLE__\<close> branch, which also stops at an asterisk (\<open>0x2A\<close>).
\<close>

fun checksum_while :: "bool \<Rightarrow> u8 list \<Rightarrow> u8 \<Rightarrow> u8 option" where
  "checksum_while apple [] checksum = None"
| "checksum_while apple (c # p) checksum =
     (if c \<noteq> 0 \<and> \<not> (apple \<and> c = 0x2A)
      then checksum_while apple p (checksum XOR c)
      else Some checksum)"

text \<open>\<^verbatim>\<open>NMEAChecksum(const char *p)\<close>: \<open>0x24\<close> is the dollar sign, \<open>0x21\<close> the exclamation mark.\<close>

definition NMEAChecksum :: "bool \<Rightarrow> u8 list \<Rightarrow> u8 option" where
  "NMEAChecksum apple p =
     (case p of
        [] \<Rightarrow> None
      | c # p' \<Rightarrow> checksum_while apple (if c = 0x24 \<or> c = 0x21 then p' else p) 0)"

text \<open>The loop \<^verbatim>\<open>for (; i < length; ++i) checksum ^= *p++\<close> on the unsigned counter.\<close>

fun checksum_for :: "u8 list \<Rightarrow> unsigned \<Rightarrow> unsigned \<Rightarrow> u8 \<Rightarrow> u8 option" where
  "checksum_for p i len checksum =
     (if i < len
      then (case p of
              [] \<Rightarrow> None
            | c # p' \<Rightarrow> checksum_for p' (i + 1) len (checksum XOR c))
      else Some checksum)"

declare checksum_for.simps [simp del]

text \<open>\<^verbatim>\<open>NMEAChecksum(const char *p, unsigned length)\<close>.\<close>

definition NMEAChecksum_len :: "u8 list \<Rightarrow> unsigned \<Rightarrow> u8 option" where
  "NMEAChecksum_len p len =
     (if 0 < len
      then (case p of
              [] \<Rightarrow> None
            | c # p' \<Rightarrow>
                if c = 0x24 \<or> c = 0x21 then checksum_for p' 1 len 0
                else checksum_for p 0 len 0)
      else checksum_for p 0 len 0)"

text \<open>
  The checksum as the documentation words it, for comparison with the two functions: drop
  one leading dollar sign or exclamation mark, and combine the remaining bytes with
  exclusive or.
\<close>

definition skip_lead :: "u8 list \<Rightarrow> u8 list" where
  "skip_lead s = (case s of [] \<Rightarrow> [] | c # r \<Rightarrow> if c = 0x24 \<or> c = 0x21 then r else s)"

definition xor_bytes :: "u8 list \<Rightarrow> u8" where
  "xor_bytes s = foldl (XOR) 0 s"

section \<open>Model: the data of the ordered task\<close>

subsection \<open>Values passed in from the collaborators\<close>

text \<open>
  Modelled from the spec: the headers of these types are not among the sources. A
  \<open>GeoPoint\<close> is a latitude and a longitude, or invalid. A \<open>TimeStamp\<close> is a number
  of seconds; \<^verbatim>\<open>UpdateAfterPEV\<close> tests \<^verbatim>\<open>count() < 0\<close> and \<^verbatim>\<open>CheckTransitions\<close>
  compares stamps with \<^verbatim>\<open>>\<close>, so the undefined stamp is a negative number.
\<close>

datatype GeoPoint = GeoPoint_Invalid | GeoPoint real real

fun IsValid :: "GeoPoint \<Rightarrow> bool" where
  "IsValid GeoPoint_Invalid = False"
| "IsValid (GeoPoint lat lon) = True"

type_synonym TimeStamp = real

definition Undefined :: TimeStamp where
  "Undefined = - 1"

definition IsDefined :: "TimeStamp \<Rightarrow> bool" where
  "IsDefined t = (0 \<le> t)"

record AircraftState =
  location :: GeoPoint
  altitude :: real
  ground_speed :: real
  time :: TimeStamp
  flying :: bool

definition HasTime :: "AircraftState \<Rightarrow> bool" where
  "HasTime s = IsDefined (time s)"

record BrokenTime =
  hour :: nat
  minute :: nat
  second :: nat

text \<open>
  A \<open>RoughTime\<close> is a minute of the day, or invalid; a \<open>RoughTimeDelta\<close> is a number
  of minutes. Their arithmetic is a parameter (see \<open>env\<close>).
\<close>

datatype RoughTime = RoughTime_Invalid | RoughTime nat

type_synonym RoughTimeDelta = int

record RoughTimeSpan =
  span_start :: RoughTime
  span_end :: RoughTime

text \<open>Durations of \<^verbatim>\<open>std::chrono::duration<unsigned>\<close> count whole seconds.\<close>

record StartConstraints =
  score_pev :: bool
  pev_start_wait_time :: nat
  pev_start_window :: nat
  open_time_span :: RoughTimeSpan

record OrderedTaskSettings =
  start_constraints :: StartConstraints

datatype GeoBounds = GeoBounds_Invalid | GeoBounds real real real real

datatype TaskProjection = TaskProjection GeoBounds

type_synonym FlatGeoPoint = "int \<times> int"

record SearchPoint =
  sp_location :: GeoPoint
  flat_location :: FlatGeoPoint

record FlatBoundingBox =
  bb_center :: FlatGeoPoint
  bb_radius :: nat

datatype TaskFactoryType = FAI_GENERAL | RACING | AAT_TASK | MAT | MIXED

subsection \<open>Task points\<close>

datatype TaskPointType = UNORDERED | START | AST | AAT | FINISH

text \<open>The observation zone, as the spec lists its variants; a cylinder carries its radius.\<close>

datatype ObservationZone = Cylinder real | Line real | FaiSector | Keyhole | Custom

text \<open>
  A task point object. The fields are what \<^verbatim>\<open>OrderedTask.cpp\<close> reads through a getter
  or writes through a setter: \<^verbatim>\<open>GetType\<close>, \<^verbatim>\<open>GetObservationZone\<close>, \<^verbatim>\<open>GetLocation\<close>
  (the location of the waypoint), the two neighbour links of \<^verbatim>\<open>SetNeighbours\<close>,
  \<^verbatim>\<open>HasEntered\<close>, \<^verbatim>\<open>HasExited\<close>, \<^verbatim>\<open>GetExitedState\<close>, \<^verbatim>\<open>SetFaiFinishHeight\<close>
  and \<^verbatim>\<open>GetScorePEV\<close>. Everything else a point holds (samples, boundaries, search
  points, leg vectors, the active state) is the field \<open>sampled\<close> of an arbitrary type.
\<close>

type_synonym addr = nat

record 'x OrderedTaskPoint =
  tp_type :: TaskPointType
  oz :: ObservationZone
  tp_location :: GeoPoint
  tp_previous :: "addr option"
  tp_next :: "addr option"
  has_entered :: bool
  has_exited :: bool
  state_exited :: AircraftState
  fai_finish_height :: real
  score_pev_tp :: bool
  sampled :: 'x

text \<open>
  The vectors hold \<^verbatim>\<open>std::unique_ptr<OrderedTaskPoint>\<close>: a vector is a list of
  addresses, and the objects live in a store. An address the store does not map is the
  address of a destroyed object.
\<close>

type_synonym 'x heap = "addr \<Rightarrow> 'x OrderedTaskPoint option"

subsection \<open>Statistics and events\<close>

text \<open>
  \<open>StartStats\<close> of \<^verbatim>\<open>StartStats.hpp\<close>; its fields \<^verbatim>\<open>time\<close>, \<^verbatim>\<open>altitude\<close> and
  \<^verbatim>\<open>ground_speed\<close> carry the suffix \<open>_ss\<close> here, the names being taken by
  \<open>AircraftState\<close>.
\<close>

record StartStats =
  advanced_by_pev :: bool
  time_ss :: TimeStamp
  altitude_ss :: real
  ground_speed_ss :: real

record TaskStats =
  bounds :: GeoBounds
  task_valid :: bool
  has_targets :: bool
  is_mat :: bool
  has_optional_starts :: bool
  task_finished :: bool
  start :: StartStats
  pev_based_advance_ready :: bool
  need_to_arm :: bool
  inside_oz :: bool

text \<open>The calls \<^verbatim>\<open>CheckTransitions\<close> makes on the \<^verbatim>\<open>TaskEvents\<close> sink.\<close>

datatype TaskEvent =
    EnterTransition addr
  | ExitTransition addr
  | ActiveAdvanced addr int
  | RequestArm addr
  | TaskStart
  | TaskFinish

subsection \<open>The task\<close>

text \<open>
  The members of \<open>OrderedTask\<close> that the modelled functions touch. \<open>task_events\<close> says
  whether a sink is registered (the pointer is not null) and \<open>events\<close> lists the calls
  made on it, oldest first. \<open>next_addr\<close> is the allocator: \<^verbatim>\<open>Clone\<close> returns the
  object at \<open>next_addr\<close>. \<open>dijkstra_min_runs\<close> counts the calls of
  \<^verbatim>\<open>TaskDijkstraMin::DistanceMin\<close>; the program has no such counter, the model keeps it
  so that properties can say whether the solver ran.
\<close>

record ('x, 'a) OrderedTask =
  heap :: "'x heap"
  next_addr :: addr
  task_points :: "addr list"
  optional_start_points :: "addr list"
  active_task_point :: nat
  taskpoint_start :: "addr option"
  taskpoint_finish :: "addr option"
  task_projection :: TaskProjection
  ordered_settings :: OrderedTaskSettings
  factory_mode :: TaskFactoryType
  task_advance :: 'a
  stats :: TaskStats
  last_min_location :: GeoPoint
  force_full_update :: bool
  pev_received :: bool
  pev_receive_time :: BrokenTime
  last_state_time :: TimeStamp
  task_events :: bool
  events :: "TaskEvent list"
  dijkstra_min_runs :: nat

section \<open>Model: the functions the sources call and do not define\<close>

text \<open>
  Methods of task points (prefix \<open>tp_\<close>) take the store and the address of the object
  they are called on; a method that is not \<^verbatim>\<open>const\<close> returns the new store, so it may
  change any object it can reach. Methods of \<^verbatim>\<open>TaskAdvance\<close> (prefix \<open>adv_\<close>) work on
  its state, of an arbitrary type. The solvers return \<open>None\<close> for \<^verbatim>\<open>false\<close> and the
  function \<^verbatim>\<open>GetSolution\<close> otherwise. \<open>UpdateStatsDistances\<close> is the method of
  \<^verbatim>\<open>AbstractTask\<close>, which calls the scans back: from the store, the two vectors, the
  active index, the statistics, \<open>last_min_location\<close>, the solver counter and its two
  arguments it gives the new store, statistics, \<open>last_min_location\<close> and counter. \<open>tp_Clone\<close> stands for
  \<^verbatim>\<open>Clone(task_behaviour, ordered_settings)\<close> and \<open>tp_Clone_waypoint\<close> for the
  overload with a waypoint, which is modelled by its location.
\<close>

record ('x, 'a) env =
  tp_Equals :: "'x heap \<Rightarrow> addr \<Rightarrow> 'x OrderedTaskPoint \<Rightarrow> bool"
  tp_Clone :: "OrderedTaskSettings \<Rightarrow> 'x OrderedTaskPoint \<Rightarrow> 'x OrderedTaskPoint"
  tp_Clone_waypoint ::
    "OrderedTaskSettings \<Rightarrow> 'x OrderedTaskPoint \<Rightarrow> GeoPoint \<Rightarrow> 'x OrderedTaskPoint"
  tp_IsPredecessorAllowed :: "'x OrderedTaskPoint \<Rightarrow> bool"
  tp_IsSuccessorAllowed :: "'x OrderedTaskPoint \<Rightarrow> bool"
  tp_HasTarget :: "'x OrderedTaskPoint \<Rightarrow> bool"
  tp_HasSampled :: "'x OrderedTaskPoint \<Rightarrow> bool"
  tp_IsInSector :: "'x OrderedTaskPoint \<Rightarrow> AircraftState \<Rightarrow> bool"
  tp_BoundingBoxOverlaps :: "'x OrderedTaskPoint \<Rightarrow> FlatBoundingBox \<Rightarrow> bool"
  tp_ScanBounds :: "'x OrderedTaskPoint \<Rightarrow> GeoBounds \<Rightarrow> GeoBounds"
  tp_GetSearchPoints :: "'x OrderedTaskPoint \<Rightarrow> SearchPoint list"
  tp_GetBoundaryPoints :: "'x OrderedTaskPoint \<Rightarrow> SearchPoint list"
  tp_GetNominalPoints :: "'x OrderedTaskPoint \<Rightarrow> SearchPoint list"
  tp_CalculateFinishHeightFromStart :: "'x OrderedTaskPoint \<Rightarrow> real \<Rightarrow> real"
  tp_ScanDistanceNominal :: "'x heap \<Rightarrow> addr \<Rightarrow> real"
  tp_ScanActive :: "'x heap \<Rightarrow> addr \<Rightarrow> addr \<Rightarrow> 'x heap"
  tp_TransitionEnter ::
    "'x heap \<Rightarrow> addr \<Rightarrow> AircraftState \<Rightarrow> AircraftState \<Rightarrow> bool \<times> 'x heap"
  tp_TransitionExit ::
    "'x heap \<Rightarrow> addr \<Rightarrow> AircraftState \<Rightarrow> AircraftState \<Rightarrow> bool \<Rightarrow> TaskProjection
      \<Rightarrow> bool \<times> 'x heap"
  tp_UpdateSampleNear ::
    "'x heap \<Rightarrow> addr \<Rightarrow> AircraftState \<Rightarrow> TaskProjection \<Rightarrow> bool \<times> 'x heap"
  tp_UpdateSampleFar ::
    "'x heap \<Rightarrow> addr \<Rightarrow> AircraftState \<Rightarrow> TaskProjection \<Rightarrow> bool \<times> 'x heap"
  tp_find_best_start ::
    "'x heap \<Rightarrow> addr \<Rightarrow> AircraftState \<Rightarrow> addr \<Rightarrow> TaskProjection \<Rightarrow> 'x heap"
  tp_Reset :: "'x heap \<Rightarrow> addr \<Rightarrow> 'x heap"
  tp_UpdateOZ :: "'x heap \<Rightarrow> addr \<Rightarrow> TaskProjection \<Rightarrow> 'x heap"
  tp_UpdateBoundingBox :: "'x heap \<Rightarrow> addr \<Rightarrow> TaskProjection \<Rightarrow> 'x heap"
  tp_SetSearchMin :: "'x heap \<Rightarrow> addr \<Rightarrow> SearchPoint \<Rightarrow> 'x heap"
  tp_SetSearchMax :: "'x heap \<Rightarrow> addr \<Rightarrow> SearchPoint \<Rightarrow> 'x heap"
  tp_ScanDistanceMin :: "'x heap \<Rightarrow> addr \<Rightarrow> real \<times> 'x heap"
  tp_ScanDistanceMax :: "'x heap \<Rightarrow> addr \<Rightarrow> real \<times> 'x heap"
  tp_ScanDistancePlanned :: "'x heap \<Rightarrow> addr \<Rightarrow> real \<times> 'x heap"
  tp_ScanDistanceScored :: "'x heap \<Rightarrow> addr \<Rightarrow> GeoPoint \<Rightarrow> real \<times> 'x heap"
  tp_ScanDistanceRemaining :: "'x heap \<Rightarrow> addr \<Rightarrow> GeoPoint \<Rightarrow> real \<times> 'x heap"
  tp_ScanDistanceTravelled :: "'x heap \<Rightarrow> addr \<Rightarrow> GeoPoint \<Rightarrow> real \<times> 'x heap"
  adv_NeedToArm :: "'a \<Rightarrow> bool"
  adv_SetArmed :: "'a \<Rightarrow> bool \<Rightarrow> 'a"
  adv_CheckReadyToAdvance ::
    "'a \<Rightarrow> 'x heap \<Rightarrow> addr \<Rightarrow> AircraftState \<Rightarrow> bool \<Rightarrow> bool \<Rightarrow> bool \<times> 'a"
  Distance :: "GeoPoint \<Rightarrow> GeoPoint \<Rightarrow> real"
  IntermediatePoint :: "GeoPoint \<Rightarrow> GeoPoint \<Rightarrow> real \<Rightarrow> GeoPoint"
  ProjectInteger :: "TaskProjection \<Rightarrow> GeoPoint \<Rightarrow> FlatGeoPoint"
  FlatSquareDistanceTo :: "SearchPoint \<Rightarrow> SearchPoint \<Rightarrow> unsigned"
  GeoBounds_of :: "GeoPoint \<Rightarrow> GeoBounds"
  DistanceMin :: "SearchPoint list list \<Rightarrow> SearchPoint \<Rightarrow> (nat \<Rightarrow> SearchPoint) option"
  DistanceMax :: "SearchPoint list list \<Rightarrow> (nat \<Rightarrow> SearchPoint) option"
  FromSinceMidnight :: "TimeStamp \<Rightarrow> RoughTime"
  RoughTime_of :: "TimeStamp \<Rightarrow> RoughTime"
  FromDuration :: "nat \<Rightarrow> RoughTimeDelta"
  RoughTime_plus :: "RoughTime \<Rightarrow> RoughTimeDelta \<Rightarrow> RoughTime"
  HasBegun :: "RoughTimeSpan \<Rightarrow> RoughTime \<Rightarrow> bool"
  CheckTask_IsError :: "'x heap \<Rightarrow> addr list \<Rightarrow> addr list \<Rightarrow> bool"
  UpdateStatsDistances ::
    "'x heap \<Rightarrow> addr list \<Rightarrow> addr list \<Rightarrow> nat \<Rightarrow> TaskStats \<Rightarrow> GeoPoint \<Rightarrow> nat \<Rightarrow>
      GeoPoint \<Rightarrow> bool \<Rightarrow> 'x heap \<times> TaskStats \<times> GeoPoint \<times> nat"

section \<open>Model: \<^verbatim>\<open>OrderedTask.cpp\<close>, the distance scans\<close>

subsection \<open>Vectors and the store\<close>

text \<open>\<^verbatim>\<open>v[i]\<close>, \<^verbatim>\<open>v.front()\<close> and \<^verbatim>\<open>v.back()\<close> of a vector.\<close>

definition vec_at :: "'b list \<Rightarrow> nat \<Rightarrow> 'b option" where
  "vec_at v i = (if i < length v then Some (v ! i) else None)"

definition vec_front :: "'b list \<Rightarrow> 'b option" where
  "vec_front v = (case v of [] \<Rightarrow> None | b # _ \<Rightarrow> Some b)"

definition vec_back :: "'b list \<Rightarrow> 'b option" where
  "vec_back v = (if v = [] then None else Some (last v))"

text \<open>\<^verbatim>\<open>for (const auto &tp : points) tp->f(...)\<close>, for a method \<open>f\<close> that changes the store.\<close>

fun for_each :: "('x heap \<Rightarrow> addr \<Rightarrow> 'x heap) \<Rightarrow> addr list \<Rightarrow> 'x heap \<Rightarrow> 'x heap option" where
  "for_each f [] h = Some h"
| "for_each f (a # as) h = (case h a of None \<Rightarrow> None | Some p \<Rightarrow> for_each f as (f h a))"

text \<open>\<^verbatim>\<open>SearchPoint(location, projection)\<close> and a default-constructed search point.\<close>

definition mk_SearchPoint :: "('x, 'a) env \<Rightarrow> GeoPoint \<Rightarrow> TaskProjection \<Rightarrow> SearchPoint" where
  "mk_SearchPoint E g proj = \<lparr>sp_location = g, flat_location = ProjectInteger E proj g\<rparr>"

definition default_SearchPoint :: SearchPoint where
  "default_SearchPoint = \<lparr>sp_location = GeoPoint_Invalid, flat_location = (0, 0)\<rparr>"

text \<open>
  The conversion \<^verbatim>\<open>(unsigned)d\<close> of a \<^verbatim>\<open>double\<close>: the value truncated towards zero;
  undefined when that is not a value of \<^verbatim>\<open>unsigned\<close>.
\<close>

definition to_unsigned :: "real \<Rightarrow> unsigned option" where
  "to_unsigned d = (if - 1 < d \<and> d < 2 ^ 32 then Some (of_nat (nat \<lfloor>d\<rfloor>)) else None)"

subsection \<open>\<^verbatim>\<open>GetCylinderRadiusOrMinusOne\<close>\<close>

fun GetCylinderRadiusOrMinusOne :: "ObservationZone \<Rightarrow> real" where
  "GetCylinderRadiusOrMinusOne (Cylinder r) = r"
| "GetCylinderRadiusOrMinusOne z = - 1"

subsection \<open>\<^verbatim>\<open>GetActiveTaskPoint\<close>, \<^verbatim>\<open>SetPointSearchMin\<close> and its siblings\<close>

definition GetActiveTaskPoint :: "('x, 'a) OrderedTask \<Rightarrow> addr option" where
  "GetActiveTaskPoint t =
     (if active_task_point t < length (task_points t)
      then Some (task_points t ! active_task_point t)
      else None)"

definition SetPointSearchMin ::
  "('x, 'a) env \<Rightarrow> addr list \<Rightarrow> nat \<Rightarrow> SearchPoint \<Rightarrow> 'x heap \<Rightarrow> 'x heap option" where
  "SetPointSearchMin E tps tp sol h =
     do { a \<leftarrow> vec_at tps tp; p \<leftarrow> h a; Some (tp_SetSearchMin E h a sol) }"

definition SetPointSearchMax ::
  "('x, 'a) env \<Rightarrow> addr list \<Rightarrow> nat \<Rightarrow> SearchPoint \<Rightarrow> 'x heap \<Rightarrow> 'x heap option" where
  "SetPointSearchMax E tps tp sol h =
     do { a \<leftarrow> vec_at tps tp; p \<leftarrow> h a; Some (tp_SetSearchMax E h a sol) }"

definition set_tp_search_achieved ::
  "('x, 'a) env \<Rightarrow> addr list \<Rightarrow> nat \<Rightarrow> SearchPoint \<Rightarrow> 'x heap \<Rightarrow> 'x heap option" where
  "set_tp_search_achieved E tps tp sol h =
     do { a \<leftarrow> vec_at tps tp; p \<leftarrow> h a;
          if tp_HasSampled E p then SetPointSearchMin E tps tp sol h else Some h }"

subsection \<open>\<^verbatim>\<open>RunDijsktraMin\<close> and \<^verbatim>\<open>ScanDistanceMin\<close>\<close>

text \<open>The loop \<^verbatim>\<open>for (i = active_index; i != task_size; ++i) SetPointSearchMin(i, ...)\<close>.\<close>

fun min_solution_loop ::
  "('x, 'a) env \<Rightarrow> addr list \<Rightarrow> nat \<Rightarrow> (nat \<Rightarrow> SearchPoint) \<Rightarrow> nat \<Rightarrow> nat \<Rightarrow> 'x heap
    \<Rightarrow> 'x heap option" where
  "min_solution_loop E tps active_index sol 0 i h = Some h"
| "min_solution_loop E tps active_index sol (Suc n) i h =
     do { h' \<leftarrow> SetPointSearchMin E tps i (sol (i - active_index)) h;
          min_solution_loop E tps active_index sol n (Suc i) h' }"

text \<open>
  The first loop reads the boundary of every point from the active one on; an active
  index past the size makes it run off the vector.
\<close>

definition RunDijsktraMin ::
  "('x, 'a) env \<Rightarrow> ('x, 'a) OrderedTask \<Rightarrow> GeoPoint \<Rightarrow> (bool \<times> ('x, 'a) OrderedTask) option" where
  "RunDijsktraMin E t loc =
     (let task_size = length (task_points t) in
      if task_size < 2 then Some (False, t)
      else
        let active_index = active_task_point t in
        if task_size < active_index then None
        else do {
          pts \<leftarrow> those (map (heap t) (drop active_index (task_points t)));
          let boundaries = map (tp_GetSearchPoints E) pts;
          let ac = mk_SearchPoint E loc (task_projection t);
          let t1 = t\<lparr>dijkstra_min_runs := Suc (dijkstra_min_runs t)\<rparr>;
          case DistanceMin E boundaries ac of
            None \<Rightarrow> Some (False, t1)
          | Some sol \<Rightarrow> do {
              h \<leftarrow> min_solution_loop E (task_points t1) active_index sol
                     (task_size - active_index) active_index (heap t1);
              Some (True, t1\<lparr>heap := h\<rparr>)
            }
        })"

text \<open>The static \<^verbatim>\<open>DistanceIsSignificant\<close> on search points, and the member on locations.\<close>

definition DistanceIsSignificant_sp ::
  "('x, 'a) env \<Rightarrow> SearchPoint \<Rightarrow> SearchPoint \<Rightarrow> unsigned \<Rightarrow> bool" where
  "DistanceIsSignificant_sp E a1 a2 dist_threshold =
     (dist_threshold * dist_threshold < FlatSquareDistanceTo E a1 a2)"

definition DistanceIsSignificant ::
  "('x, 'a) env \<Rightarrow> ('x, 'a) OrderedTask \<Rightarrow> GeoPoint \<Rightarrow> GeoPoint \<Rightarrow> bool" where
  "DistanceIsSignificant E t loc location_last =
     (let a1 = mk_SearchPoint E loc (task_projection t);
          a2 = mk_SearchPoint E location_last (task_projection t)
      in DistanceIsSignificant_sp E a1 a2 1)"

text \<open>
  The first statement of \<^verbatim>\<open>ScanDistanceMin\<close>: the value of \<open>full\<close> after it.
\<close>

definition scan_min_decide ::
  "('x, 'a) env \<Rightarrow> ('x, 'a) OrderedTask \<Rightarrow> GeoPoint \<Rightarrow> bool \<Rightarrow> bool option" where
  "scan_min_decide E t loc full =
     (if \<not> full \<and> IsValid loc \<and> IsValid (last_min_location t) \<and>
         DistanceIsSignificant E t loc (last_min_location t)
      then (case GetActiveTaskPoint t of
              None \<Rightarrow> Some full
            | Some active \<Rightarrow> do {
                p \<leftarrow> heap t active;
                let target = tp_location p;
                last_distance \<leftarrow> to_unsigned (Distance E (last_min_location t) target);
                cur_distance \<leftarrow> to_unsigned (Distance E loc target);
                Some (if last_distance < 2000 \<or> cur_distance < 2000 \<or>
                         last_distance * 20 \<ge> cur_distance * 21 \<or>
                         cur_distance * 20 \<ge> last_distance * 21
                      then True else full)
              })
      else Some full)"

text \<open>The last statement: \<^verbatim>\<open>return task_points.front()->ScanDistanceMin()\<close>.\<close>

definition scan_min_front ::
  "('x, 'a) env \<Rightarrow> ('x, 'a) OrderedTask \<Rightarrow> (real \<times> ('x, 'a) OrderedTask) option" where
  "scan_min_front E t =
     do { a \<leftarrow> vec_front (task_points t); p \<leftarrow> heap t a;
          let (d, h) = tp_ScanDistanceMin E (heap t) a;
          Some (d, t\<lparr>heap := h\<rparr>) }"

definition ScanDistanceMin ::
  "('x, 'a) env \<Rightarrow> ('x, 'a) OrderedTask \<Rightarrow> GeoPoint \<Rightarrow> bool \<Rightarrow> (real \<times> ('x, 'a) OrderedTask) option" where
  "ScanDistanceMin E t loc full =
     do { full' \<leftarrow> scan_min_decide E t loc full;
          t1 \<leftarrow> (if full'
                then do { (solved, t') \<leftarrow> RunDijsktraMin E t loc;
                          Some (t'\<lparr>last_min_location := loc\<rparr>) }
                else Some t);
          scan_min_front E t1 }"

subsection \<open>\<^verbatim>\<open>RunDijsktraMax\<close> and \<^verbatim>\<open>ScanDistanceMax\<close>\<close>

text \<open>
  The boundary handed to the solver for slot \<open>i\<close>, before the start and finish
  cylinders are replaced by their nominal points.
\<close>

definition max_boundary ::
  "('x, 'a) env \<Rightarrow> nat \<Rightarrow> bool \<Rightarrow> nat \<Rightarrow> 'x OrderedTaskPoint \<Rightarrow> SearchPoint list" where
  "max_boundary E active_index ignoreSampledPoints i p =
     (if i = active_index \<or> ignoreSampledPoints
      then tp_GetBoundaryPoints E p else tp_GetSearchPoints E p)"

text \<open>The entry \<open>i\<close> of \<open>results\<close> after the last loop of \<^verbatim>\<open>RunDijsktraMax\<close>.\<close>

definition max_result ::
  "('x, 'a) env \<Rightarrow> TaskProjection \<Rightarrow> nat \<Rightarrow> (nat \<Rightarrow> SearchPoint) \<Rightarrow> GeoPoint \<Rightarrow> real \<Rightarrow>
    GeoPoint \<Rightarrow> real \<Rightarrow> nat \<Rightarrow> SearchPoint" where
  "max_result E proj task_size sol start_loc start_radius finish_loc finish_radius i =
     (let r0 = sol i;
          r1 = (if i = 0 \<and> 0 < start_radius
                then mk_SearchPoint E
                       (IntermediatePoint E start_loc (sp_location (sol (i + 1))) start_radius)
                       proj
                else r0)
      in if i = task_size - 1 \<and> 0 < finish_radius
         then mk_SearchPoint E
                (IntermediatePoint E finish_loc (sp_location (sol (i - 1))) finish_radius)
                proj
         else r1)"

definition RunDijsktraMax ::
  "('x, 'a) env \<Rightarrow> ('x, 'a) OrderedTask \<Rightarrow> SearchPoint list \<Rightarrow> bool
    \<Rightarrow> (bool \<times> SearchPoint list) option" where
  "RunDijsktraMax E t results ignoreSampledPoints =
     (let task_size = length (task_points t) in
      if task_size < 2 then Some (False, results)
      else do {
        pts \<leftarrow> those (map (heap t) (task_points t));
        let active_index = active_task_point t;
        let bs = map (\<lambda>i. max_boundary E active_index ignoreSampledPoints i (pts ! i))
                   [0 ..< task_size];
        sa \<leftarrow> vec_front (task_points t);
        start \<leftarrow> heap t sa;
        let start_radius = GetCylinderRadiusOrMinusOne (oz start);
        let bs1 = (if 0 < start_radius then bs[0 := tp_GetNominalPoints E start] else bs);
        fa \<leftarrow> vec_back (task_points t);
        finish \<leftarrow> heap t fa;
        let finish_radius = GetCylinderRadiusOrMinusOne (oz finish);
        let bs2 = (if 0 < finish_radius
                   then bs1[task_size - 1 := tp_GetNominalPoints E finish] else bs1);
        case DistanceMax E bs2 of
          None \<Rightarrow> Some (False, results)
        | Some sol \<Rightarrow>
            Some (True,
              map (max_result E (task_projection t) task_size sol (tp_location start)
                     start_radius (tp_location finish) finish_radius)
                [0 ..< length results])
      })"

text \<open>
  The loop of \<^verbatim>\<open>ScanDistanceMax\<close> over \<open>maxDistancePoints\<close>, from index \<open>i\<close> on.
\<close>

fun max_solution_loop ::
  "('x, 'a) env \<Rightarrow> addr list \<Rightarrow> nat \<Rightarrow> SearchPoint list \<Rightarrow> nat \<Rightarrow> 'x heap \<Rightarrow> 'x heap option" where
  "max_solution_loop E tps active_index [] i h = Some h"
| "max_solution_loop E tps active_index (sp # sps) i h =
     do { h1 \<leftarrow> SetPointSearchMax E tps i sp h;
          h2 \<leftarrow> (if i \<le> active_index then set_tp_search_achieved E tps i sp h1 else Some h1);
          max_solution_loop E tps active_index sps (Suc i) h2 }"

definition ScanDistanceMax ::
  "('x, 'a) env \<Rightarrow> ('x, 'a) OrderedTask \<Rightarrow> (real \<times> ('x, 'a) OrderedTask) option" where
  "ScanDistanceMax E t =
     (if task_points t = [] then Some (0, t)
      else
        let task_size = length (task_points t) in
        if \<not> active_task_point t < task_size then None
        else do {
          (updated, maxDistancePoints) \<leftarrow>
            RunDijsktraMax E t (replicate task_size default_SearchPoint) False;
          h \<leftarrow> (if updated
                then max_solution_loop E (task_points t) (active_task_point t)
                       maxDistancePoints 0 (heap t)
                else Some (heap t));
          a \<leftarrow> vec_front (task_points t);
          p \<leftarrow> h a;
          let (d, h') = tp_ScanDistanceMax E h a;
          Some (d, t\<lparr>heap := h'\<rparr>)
        })"

subsection \<open>The other scans\<close>

definition ScanDistanceNominal :: "('x, 'a) env \<Rightarrow> ('x, 'a) OrderedTask \<Rightarrow> real option" where
  "ScanDistanceNominal E t =
     (if task_points t = [] then Some 0
      else do {
        sa \<leftarrow> vec_front (task_points t);
        start \<leftarrow> heap t sa;
        let d = tp_ScanDistanceNominal E (heap t) sa;
        let radius = GetCylinderRadiusOrMinusOne (oz start);
        let d1 = (if 0 < radius \<and> radius < d then d - radius else d);
        fa \<leftarrow> vec_back (task_points t);
        finish \<leftarrow> heap t fa;
        let radius' = GetCylinderRadiusOrMinusOne (oz finish);
        Some (if 0 < radius' \<and> radius' < d1 then d1 - radius' else d1)
      })"

definition ScanDistanceScored ::
  "('x, 'a) env \<Rightarrow> ('x, 'a) OrderedTask \<Rightarrow> GeoPoint \<Rightarrow> (real \<times> ('x, 'a) OrderedTask) option" where
  "ScanDistanceScored E t loc =
     (if task_points t = [] then Some (0, t)
      else do { a \<leftarrow> vec_front (task_points t); p \<leftarrow> heap t a;
                let (d, h) = tp_ScanDistanceScored E (heap t) a loc;
                Some (d, t\<lparr>heap := h\<rparr>) })"

definition ScanDistanceRemaining ::
  "('x, 'a) env \<Rightarrow> ('x, 'a) OrderedTask \<Rightarrow> GeoPoint \<Rightarrow> (real \<times> ('x, 'a) OrderedTask) option" where
  "ScanDistanceRemaining E t loc =
     (if task_points t = [] then Some (0, t)
      else do { a \<leftarrow> vec_front (task_points t); p \<leftarrow> heap t a;
                let (d, h) = tp_ScanDistanceRemaining E (heap t) a loc;
                Some (d, t\<lparr>heap := h\<rparr>) })"

definition ScanDistanceTravelled ::
  "('x, 'a) env \<Rightarrow> ('x, 'a) OrderedTask \<Rightarrow> GeoPoint \<Rightarrow> (real \<times> ('x, 'a) OrderedTask) option" where
  "ScanDistanceTravelled E t loc =
     (if task_points t = [] then Some (0, t)
      else do { a \<leftarrow> vec_front (task_points t); p \<leftarrow> heap t a;
                let (d, h) = tp_ScanDistanceTravelled E (heap t) a loc;
                Some (d, t\<lparr>heap := h\<rparr>) })"

definition ScanDistancePlanned ::
  "('x, 'a) env \<Rightarrow> ('x, 'a) OrderedTask \<Rightarrow> (real \<times> ('x, 'a) OrderedTask) option" where
  "ScanDistancePlanned E t =
     (if task_points t = [] then Some (0, t)
      else do { a \<leftarrow> vec_front (task_points t); p \<leftarrow> heap t a;
                let (d, h) = tp_ScanDistancePlanned E (heap t) a;
                Some (d, t\<lparr>heap := h\<rparr>) })"

section \<open>Model: \<^verbatim>\<open>OrderedTask.cpp\<close>, the mutation interface\<close>

subsection \<open>\<^verbatim>\<open>SetNeighbours\<close>\<close>

text \<open>
  Modelled from the spec: \<^verbatim>\<open>OrderedTaskPoint::SetNeighbours(prev, next)\<close> is declared
  outside the sources; it stores the two non-owning links in the object it is called on.
\<close>

definition tp_SetNeighbours ::
  "'x heap \<Rightarrow> addr \<Rightarrow> addr option \<Rightarrow> addr option \<Rightarrow> 'x heap option" where
  "tp_SetNeighbours h a prev nxt =
     (case h a of
        None \<Rightarrow> None
      | Some p \<Rightarrow> Some (h(a \<mapsto> p\<lparr>tp_previous := prev, tp_next := nxt\<rparr>)))"

text \<open>\<^verbatim>\<open>for (const auto &tp : optional_start_points) tp->SetNeighbours(prev, next)\<close>.\<close>

fun SetNeighbours_each ::
  "addr list \<Rightarrow> addr option \<Rightarrow> addr option \<Rightarrow> 'x heap \<Rightarrow> 'x heap option" where
  "SetNeighbours_each [] prev nxt h = Some h"
| "SetNeighbours_each (a # as) prev nxt h =
     do { h' \<leftarrow> tp_SetNeighbours h a prev nxt; SetNeighbours_each as prev nxt h' }"

definition SetNeighbours ::
  "('x, 'a) OrderedTask \<Rightarrow> nat \<Rightarrow> ('x, 'a) OrderedTask option" where
  "SetNeighbours t position =
     (if position \<ge> length (task_points t) then Some t
      else
        let prev = (if position > 0 then Some (task_points t ! (position - 1)) else None);
            nxt = (if position + 1 < length (task_points t)
                   then Some (task_points t ! (position + 1)) else None)
        in do {
          h1 \<leftarrow> tp_SetNeighbours (heap t) (task_points t ! position) prev nxt;
          h2 \<leftarrow> (if position = 0
                 then SetNeighbours_each (optional_start_points t) prev nxt h1
                 else Some h1);
          Some (t\<lparr>heap := h2\<rparr>)
        })"

subsection \<open>Erasing, removing\<close>

text \<open>
  \<^verbatim>\<open>vector::erase\<close> destroys the \<^verbatim>\<open>unique_ptr\<close> in the slot, and with it the object.
\<close>

definition erase :: "'b list \<Rightarrow> nat \<Rightarrow> 'b list" where
  "erase v i = take i v @ drop (Suc i) v"

definition ErasePoint :: "('x, 'a) OrderedTask \<Rightarrow> nat \<Rightarrow> ('x, 'a) OrderedTask option" where
  "ErasePoint t i =
     (if i < length (task_points t)
      then Some (t\<lparr>heap := (heap t)(task_points t ! i := None),
                   task_points := erase (task_points t) i\<rparr>)
      else None)"


definition Remove ::
  "('x, 'a) OrderedTask \<Rightarrow> nat \<Rightarrow> (bool \<times> ('x, 'a) OrderedTask) option" where
  "Remove t position =
     (if position \<ge> length (task_points t) then Some (False, t)
      else do {
        let t1 = (if active_task_point t > position \<or>
                     (active_task_point t > 0 \<and>
                      active_task_point t = length (task_points t) - 1)
                  then t\<lparr>active_task_point := active_task_point t - 1\<rparr> else t);
        t2 \<leftarrow> ErasePoint t1 position;
        t3 \<leftarrow> (if position < length (task_points t2) then SetNeighbours t2 position
               else Some t2);
        t4 \<leftarrow> (if position \<noteq> 0 then SetNeighbours t3 (position - 1) else Some t3);
        Some (True, t4)
      })"


subsection \<open>Appending, inserting, replacing\<close>

text \<open>A new object, as \<^verbatim>\<open>Clone\<close> makes one: its address and the task that holds it.\<close>

definition alloc ::
  "('x, 'a) OrderedTask \<Rightarrow> 'x OrderedTaskPoint \<Rightarrow> addr \<times> ('x, 'a) OrderedTask" where
  "alloc t p =
     (next_addr t, t\<lparr>heap := (heap t)(next_addr t \<mapsto> p), next_addr := Suc (next_addr t)\<rparr>)"

definition Append ::
  "('x, 'a) env \<Rightarrow> ('x, 'a) OrderedTask \<Rightarrow> 'x OrderedTaskPoint
    \<Rightarrow> (bool \<times> ('x, 'a) OrderedTask) option" where
  "Append E t new_tp =
     do {
       refused \<leftarrow>
         (if task_points t \<noteq> []
          then (if \<not> tp_IsPredecessorAllowed E new_tp then Some True
                else do { b \<leftarrow> vec_back (task_points t); last_tp \<leftarrow> heap t b;
                          Some (\<not> tp_IsSuccessorAllowed E last_tp) })
          else Some False);
       if refused then Some (False, t)
       else do {
         let i = length (task_points t);
         let (a, t1) = alloc t (tp_Clone E (ordered_settings t) new_tp);
         let t2 = t1\<lparr>task_points := task_points t1 @ [a]\<rparr>;
         t3 \<leftarrow> (if i > 0 then SetNeighbours t2 (i - 1)
                else Some (t2\<lparr>last_min_location := tp_location new_tp\<rparr>));
         t4 \<leftarrow> SetNeighbours t3 i;
         Some (True, t4)
       }
     }"

definition AppendOptionalStart ::
  "('x, 'a) env \<Rightarrow> ('x, 'a) OrderedTask \<Rightarrow> 'x OrderedTaskPoint
    \<Rightarrow> (bool \<times> ('x, 'a) OrderedTask) option" where
  "AppendOptionalStart E t new_tp =
     do {
       let (a, t1) = alloc t (tp_Clone E (ordered_settings t) new_tp);
       let t2 = t1\<lparr>optional_start_points := optional_start_points t1 @ [a]\<rparr>;
       t3 \<leftarrow> (if length (task_points t2) > 1 then SetNeighbours t2 0 else Some t2);
       Some (True, t3)
     }"

text \<open>
  The test of \<^verbatim>\<open>Insert\<close> that refuses the point, with the order and the short
  circuit of its four disjuncts.
\<close>

definition Insert_refused ::
  "('x, 'a) env \<Rightarrow> ('x, 'a) OrderedTask \<Rightarrow> 'x OrderedTaskPoint \<Rightarrow> nat \<Rightarrow> bool option" where
  "Insert_refused E t new_tp position =
     (if (position > 0 \<and> \<not> tp_IsPredecessorAllowed E new_tp) \<or>
         \<not> tp_IsSuccessorAllowed E new_tp
      then Some True
      else do {
        before_refuses \<leftarrow>
          (if position > 0
           then do { a \<leftarrow> vec_at (task_points t) (position - 1); p \<leftarrow> heap t a;
                     Some (\<not> tp_IsSuccessorAllowed E p) }
           else Some False);
        if before_refuses then Some True
        else do { a \<leftarrow> vec_at (task_points t) position; p \<leftarrow> heap t a;
                  Some (\<not> tp_IsPredecessorAllowed E p) }
      })"

definition Insert ::
  "('x, 'a) env \<Rightarrow> ('x, 'a) OrderedTask \<Rightarrow> 'x OrderedTaskPoint \<Rightarrow> nat
    \<Rightarrow> (bool \<times> ('x, 'a) OrderedTask) option" where
  "Insert E t new_tp position =
     (if position \<ge> length (task_points t) then Append E t new_tp
      else do {
        refused \<leftarrow> Insert_refused E t new_tp position;
        if refused then Some (False, t)
        else do {
          let t1 = (if active_task_point t \<ge> position
                    then t\<lparr>active_task_point := active_task_point t + 1\<rparr> else t);
          let (a, t2) = alloc t1 (tp_Clone E (ordered_settings t1) new_tp);
          let t3 = t2\<lparr>task_points :=
                        take position (task_points t2) @ a # drop position (task_points t2)\<rparr>;
          t4 \<leftarrow> (if position \<noteq> 0 then SetNeighbours t3 (position - 1) else Some t3);
          t5 \<leftarrow> SetNeighbours t4 position;
          t6 \<leftarrow> SetNeighbours t5 (position + 1);
          Some (True, t6)
        }
      })"





subsection \<open>\<^verbatim>\<open>SetActiveTaskPoint\<close>\<close>

definition SetActiveTaskPoint ::
  "('x, 'a) env \<Rightarrow> ('x, 'a) OrderedTask \<Rightarrow> nat \<Rightarrow> ('x, 'a) OrderedTask" where
  "SetActiveTaskPoint E t index =
     (if index \<ge> length (task_points t) \<or> index = active_task_point t then t
      else t\<lparr>task_advance := adv_SetArmed E (task_advance t) False,
             active_task_point := index,
             force_full_update := True\<rparr>)"

section \<open>Model: \<^verbatim>\<open>OrderedTask.cpp\<close>, geometry and optional starts\<close>

definition ScanStartFinish :: "('x, 'a) OrderedTask \<Rightarrow> ('x, 'a) OrderedTask option" where
  "ScanStartFinish t =
     (if task_points t = []
      then Some (t\<lparr>taskpoint_start := None, taskpoint_finish := None\<rparr>)
      else do {
        fa \<leftarrow> vec_front (task_points t);
        first \<leftarrow> heap t fa;
        let t1 = t\<lparr>taskpoint_start := (if tp_type first = START then Some fa else None)\<rparr>;
        fin \<leftarrow> (if length (task_points t1) > 1
                then do { la \<leftarrow> vec_back (task_points t1); last_tp \<leftarrow> heap t1 la;
                          Some (if tp_type last_tp = FINISH then Some la else None) }
                else Some None);
        Some (t1\<lparr>taskpoint_finish := fin\<rparr>)
      })"

text \<open>\<^verbatim>\<open>for (const auto &tp : points) tp->ScanBounds(stats.bounds)\<close>.\<close>

fun ScanBounds_each ::
  "('x, 'a) env \<Rightarrow> 'x heap \<Rightarrow> addr list \<Rightarrow> GeoBounds \<Rightarrow> GeoBounds option" where
  "ScanBounds_each E h [] b = Some b"
| "ScanBounds_each E h (a # as) b =
     (case h a of None \<Rightarrow> None | Some p \<Rightarrow> ScanBounds_each E h as (tp_ScanBounds E p b))"

fun HasTargets_from :: "('x, 'a) env \<Rightarrow> 'x heap \<Rightarrow> addr list \<Rightarrow> bool option" where
  "HasTargets_from E h [] = Some False"
| "HasTargets_from E h (a # as) =
     (case h a of
        None \<Rightarrow> None
      | Some p \<Rightarrow> if tp_HasTarget E p then Some True else HasTargets_from E h as)"

definition HasTargets :: "('x, 'a) env \<Rightarrow> ('x, 'a) OrderedTask \<Rightarrow> bool option" where
  "HasTargets E t = HasTargets_from E (heap t) (task_points t)"

definition UpdateStatsGeometry ::
  "('x, 'a) env \<Rightarrow> ('x, 'a) OrderedTask \<Rightarrow> ('x, 'a) OrderedTask option" where
  "UpdateStatsGeometry E t =
     do {
       t1 \<leftarrow> ScanStartFinish t;
       b \<leftarrow> (if task_points t1 = [] then Some GeoBounds_Invalid
             else do {
               fa \<leftarrow> vec_front (task_points t1);
               first \<leftarrow> heap t1 fa;
               b1 \<leftarrow> ScanBounds_each E (heap t1) (task_points t1)
                      (GeoBounds_of E (tp_location first));
               ScanBounds_each E (heap t1) (optional_start_points t1) b1
             });
       let valid = \<not> CheckTask_IsError E (heap t1) (task_points t1) (optional_start_points t1);
       targets \<leftarrow> (if valid then HasTargets E t1 else Some False);
       Some (t1\<lparr>stats := (stats t1)
                  \<lparr>bounds := b,
                   task_valid := valid,
                   has_targets := targets,
                   is_mat := (factory_mode t1 = MAT),
                   has_optional_starts := (valid \<and> optional_start_points t1 \<noteq> [])\<rparr>\<rparr>)
     }"

definition UpdateGeometry ::
  "('x, 'a) env \<Rightarrow> ('x, 'a) OrderedTask \<Rightarrow> ('x, 'a) OrderedTask option" where
  "UpdateGeometry E t =
     do {
       t1 \<leftarrow> UpdateStatsGeometry E t;
       if task_points t1 = [] then Some t1
       else do {
         fa \<leftarrow> vec_front (task_points t1);
         first \<leftarrow> heap t1 fa;
         act \<leftarrow> vec_at (task_points t1) (active_task_point t1);
         active \<leftarrow> heap t1 act;
         let h1 = tp_ScanActive E (heap t1) fa act;
         let proj = TaskProjection (bounds (stats t1));
         h2 \<leftarrow> for_each (\<lambda>h a. tp_UpdateOZ E h a proj) (task_points t1) h1;
         h3 \<leftarrow> for_each (\<lambda>h a. tp_UpdateOZ E h a proj) (optional_start_points t1) h2;
         h4 \<leftarrow> for_each (\<lambda>h a. tp_UpdateBoundingBox E h a proj) (task_points t1) h3;
         h5 \<leftarrow> for_each (\<lambda>h a. tp_UpdateBoundingBox E h a proj) (optional_start_points t1) h4;
         first' \<leftarrow> h5 fa;
         let t2 = t1\<lparr>heap := h5, task_projection := proj\<rparr>;
         let t3 = (if \<not> has_entered first'
                   then (let (h, st, lml, runs) =
                               UpdateStatsDistances E (heap t2) (task_points t2)
                                 (optional_start_points t2) (active_task_point t2) (stats t2)
                                 (last_min_location t2) (dijkstra_min_runs t2)
                                 GeoPoint_Invalid True
                         in t2\<lparr>heap := h, stats := st, last_min_location := lml,
                               dijkstra_min_runs := runs\<rparr>)
                   else t2);
         Some (t3\<lparr>force_full_update := True\<rparr>)
       }
     }"

text \<open>
  \<^verbatim>\<open>SelectOptionalStart\<close>: the start moves to the end of the optional list, the
  optional start at \<open>pos\<close> moves into the first slot, and its emptied slot is erased from
  the list. No object is made or destroyed.
\<close>

definition SelectOptionalStart ::
  "('x, 'a) env \<Rightarrow> ('x, 'a) OrderedTask \<Rightarrow> nat \<Rightarrow> ('x, 'a) OrderedTask option" where
  "SelectOptionalStart E t pos =
     (if \<not> pos < length (optional_start_points t) then None
      else do {
        old_start \<leftarrow> vec_front (task_points t);
        let pushed = optional_start_points t @ [old_start];
        let t1 = t\<lparr>task_points := (pushed ! pos) # tl (task_points t),
                    optional_start_points := erase pushed pos\<rparr>;
        t2 \<leftarrow> SetNeighbours t1 0;
        t3 \<leftarrow> (if length (task_points t2) > 1 then SetNeighbours t2 1 else Some t2);
        UpdateGeometry E t3
      })"

definition RotateOptionalStarts ::
  "('x, 'a) env \<Rightarrow> ('x, 'a) OrderedTask \<Rightarrow> ('x, 'a) OrderedTask option" where
  "RotateOptionalStarts E t =
     (if task_points t = [] \<or> optional_start_points t = [] then Some t
      else SelectOptionalStart E t 0)"

section \<open>Model: \<^verbatim>\<open>OrderedTask.cpp\<close> and \<^verbatim>\<open>StartStats.cpp\<close>, the transitions\<close>

text \<open>A call on the \<^verbatim>\<open>TaskEvents\<close> sink, made only when \<^verbatim>\<open>task_events != nullptr\<close>.\<close>

definition emit :: "('x, 'a) OrderedTask \<Rightarrow> TaskEvent \<Rightarrow> ('x, 'a) OrderedTask" where
  "emit t e = (if task_events t then t\<lparr>events := events t @ [e]\<rparr> else t)"

text \<open>\<^verbatim>\<open>StartStats::SetStarted\<close>, with two arguments and with one.\<close>

definition SetStarted_pev :: "StartStats \<Rightarrow> AircraftState \<Rightarrow> bool \<Rightarrow> StartStats" where
  "SetStarted_pev s aircraft pev =
     s\<lparr>advanced_by_pev := pev,
       time_ss := time aircraft,
       altitude_ss := altitude aircraft,
       ground_speed_ss := ground_speed aircraft\<rparr>"

definition SetStarted :: "StartStats \<Rightarrow> AircraftState \<Rightarrow> StartStats" where
  "SetStarted s aircraft = SetStarted_pev s aircraft False"

definition GetStartedTime :: "StartStats \<Rightarrow> TimeStamp" where
  "GetStartedTime s = time_ss s"

definition TaskStarted :: "('x, 'a) OrderedTask \<Rightarrow> bool \<Rightarrow> bool option" where
  "TaskStarted t soft =
     (case taskpoint_start t of
        None \<Rightarrow> Some False
      | Some sa \<Rightarrow> do {
          start_tp \<leftarrow> heap t sa;
          Some (has_exited start_tp \<or> (soft \<and> active_task_point t > 0))
        })"

definition UpdateStartTransition ::
  "('x, 'a) env \<Rightarrow> ('x, 'a) OrderedTask \<Rightarrow> AircraftState \<Rightarrow> addr
    \<Rightarrow> ('x, 'a) OrderedTask option" where
  "UpdateStartTransition E t state start_a =
     (if active_task_point t = 0
      then do {
        sa \<leftarrow> taskpoint_start t;
        start_tp \<leftarrow> heap t sa;
        na \<leftarrow> vec_at (task_points t) 1;
        next_tp \<leftarrow> heap t na;
        Some (t\<lparr>heap := tp_find_best_start E (heap t) sa state na (task_projection t)\<rparr>)
      }
      else do {
        p \<leftarrow> heap t start_a;
        if \<not> has_exited p \<and> \<not> tp_IsInSector E p state
        then Some (t\<lparr>heap := tp_Reset E (heap t) start_a\<rparr>)
        else Some t
      })"

text \<open>
  The three parts of \<^verbatim>\<open>CheckTransitionPoint\<close> that call the point: the statement
  \<^verbatim>\<open>if (nearby && point.TransitionEnter(...))\<close> with its event, the same for
  \<^verbatim>\<open>TransitionExit\<close>, and the final
  \<^verbatim>\<open>nearby ? point.UpdateSampleNear(...) : point.UpdateSampleFar(...)\<close>. Each gives the
  value of its call (\<open>False\<close> where the call is not made) and the task after it.
\<close>

definition enter_step ::
  "('x, 'a) env \<Rightarrow> ('x, 'a) OrderedTask \<Rightarrow> addr \<Rightarrow> AircraftState \<Rightarrow> AircraftState \<Rightarrow> bool
    \<Rightarrow> (bool \<times> ('x, 'a) OrderedTask) option" where
  "enter_step E t point state state_last nearby =
     do {
       p \<leftarrow> heap t point;
       if nearby
       then (let (b, h) = tp_TransitionEnter E (heap t) point state state_last;
                 t1 = t\<lparr>heap := h\<rparr>
             in Some (b, if b then emit t1 (EnterTransition point) else t1))
       else Some (False, t)
     }"

definition exit_step ::
  "('x, 'a) env \<Rightarrow> ('x, 'a) OrderedTask \<Rightarrow> addr \<Rightarrow> AircraftState \<Rightarrow> AircraftState \<Rightarrow> bool
    \<Rightarrow> bool \<Rightarrow> (bool \<times> ('x, 'a) OrderedTask) option" where
  "exit_step E t point state state_last pev_ready_to_advance nearby =
     do {
       p \<leftarrow> heap t point;
       if nearby
       then (let (b, h) = tp_TransitionExit E (heap t) point state state_last
                            pev_ready_to_advance (task_projection t);
                 t1 = t\<lparr>heap := h\<rparr>
             in Some (b, if b then emit t1 (ExitTransition point) else t1))
       else Some (False, t)
     }"

definition sample_step ::
  "('x, 'a) env \<Rightarrow> ('x, 'a) OrderedTask \<Rightarrow> addr \<Rightarrow> AircraftState \<Rightarrow> bool
    \<Rightarrow> (bool \<times> ('x, 'a) OrderedTask) option" where
  "sample_step E t point state nearby =
     do {
       p \<leftarrow> heap t point;
       let (r, h) = (if nearby
                     then tp_UpdateSampleNear E (heap t) point state (task_projection t)
                     else tp_UpdateSampleFar E (heap t) point state (task_projection t));
       Some (r, t\<lparr>heap := h\<rparr>)
     }"

text \<open>
  \<^verbatim>\<open>CheckTransitionPoint\<close>. The two flags are passed by reference: the model takes
  their values and returns the new ones after the return value.
\<close>

definition CheckTransitionPoint ::
  "('x, 'a) env \<Rightarrow> ('x, 'a) OrderedTask \<Rightarrow> addr \<Rightarrow> AircraftState \<Rightarrow> AircraftState \<Rightarrow>
    FlatBoundingBox \<Rightarrow> FlatBoundingBox \<Rightarrow> bool \<Rightarrow> bool \<Rightarrow> bool \<Rightarrow> bool
    \<Rightarrow> (bool \<times> bool \<times> bool \<times> ('x, 'a) OrderedTask) option" where
  "CheckTransitionPoint E t point state state_last bb_now bb_last
     transition_enter transition_exit pev_ready_to_advance is_start =
     do {
       p \<leftarrow> heap t point;
       let nearby = (tp_BoundingBoxOverlaps E p bb_now \<or> tp_BoundingBoxOverlaps E p bb_last);
       (entered, t1) \<leftarrow> enter_step E t point state state_last nearby;
       (exited, t2) \<leftarrow> exit_step E t1 point state state_last pev_ready_to_advance nearby;
       t3 \<leftarrow> (if is_start then UpdateStartTransition E t2 state point else Some t2);
       (r, t4) \<leftarrow> sample_step E t3 point state nearby;
       Some (r, transition_enter \<or> entered, transition_exit \<or> exited, t4)
     }"

text \<open>
  The loop of \<^verbatim>\<open>CheckTransitionOptionalStart\<close> over the optional starts that are left,
  \<open>k\<close> being \<^verbatim>\<open>std::distance(begin, i)\<close>.
\<close>

fun optional_start_loop ::
  "('x, 'a) env \<Rightarrow> AircraftState \<Rightarrow> AircraftState \<Rightarrow> FlatBoundingBox \<Rightarrow> FlatBoundingBox \<Rightarrow>
    bool \<Rightarrow> addr list \<Rightarrow> nat \<Rightarrow> bool \<Rightarrow> bool \<Rightarrow> bool \<Rightarrow> ('x, 'a) OrderedTask
    \<Rightarrow> (bool \<times> bool \<times> bool \<times> ('x, 'a) OrderedTask) option" where
  "optional_start_loop E state state_last bb_now bb_last pev [] k
     full_update transition_enter transition_exit t =
     Some (full_update, transition_enter, transition_exit, t)"
| "optional_start_loop E state state_last bb_now bb_last pev (a # rest) k
     full_update transition_enter transition_exit t =
     do {
       (r, enter', exit', t1) \<leftarrow>
         CheckTransitionPoint E t a state state_last bb_now bb_last
           transition_enter transition_exit pev True;
       if enter' \<or> exit'
       then do { t2 \<leftarrow> SelectOptionalStart E t1 k;
                 Some (full_update \<or> r, enter', exit', t2) }
       else optional_start_loop E state state_last bb_now bb_last pev rest (Suc k)
              (full_update \<or> r) enter' exit' t1
     }"

definition CheckTransitionOptionalStart ::
  "('x, 'a) env \<Rightarrow> ('x, 'a) OrderedTask \<Rightarrow> AircraftState \<Rightarrow> AircraftState \<Rightarrow>
    FlatBoundingBox \<Rightarrow> FlatBoundingBox \<Rightarrow> bool \<Rightarrow> bool \<Rightarrow> bool
    \<Rightarrow> (bool \<times> bool \<times> bool \<times> ('x, 'a) OrderedTask) option" where
  "CheckTransitionOptionalStart E t state state_last bb_now bb_last
     transition_enter transition_exit pev_based_advance_ready' =
     optional_start_loop E state state_last bb_now bb_last pev_based_advance_ready'
       (optional_start_points t) 0 False transition_enter transition_exit t"

text \<open>
  The \<^verbatim>\<open>if (i == (int)active_task_point)\<close> block of the loop of \<^verbatim>\<open>CheckTransitions\<close>.
  The result says whether the block has incremented \<open>i\<close>.
\<close>

definition advance_block ::
  "('x, 'a) env \<Rightarrow> AircraftState \<Rightarrow> int \<Rightarrow> int \<Rightarrow> bool \<Rightarrow> bool \<Rightarrow> bool \<Rightarrow> ('x, 'a) OrderedTask
    \<Rightarrow> (bool \<times> bool \<times> ('x, 'a) OrderedTask) option" where
  "advance_block E state n_task i transition_enter transition_exit full_update t =
     do {
       let last_request_armed = adv_NeedToArm E (task_advance t);
       a \<leftarrow> vec_at (task_points t) (nat i);
       p \<leftarrow> heap t a;
       let (ready, adv) = adv_CheckReadyToAdvance E (task_advance t) (heap t) a state
                            transition_enter transition_exit;
       let t1 = t\<lparr>task_advance := adv\<rparr>;
       if ready
       then do {
         let t2 = t1\<lparr>task_advance := adv_SetArmed E (task_advance t1) False\<rparr>;
         if i + 1 < n_task
         then do {
           let t3 = SetActiveTaskPoint E t2 (nat (i + 1));
           sa \<leftarrow> taskpoint_start t3;
           start_tp \<leftarrow> heap t3 sa;
           act \<leftarrow> vec_at (task_points t3) (active_task_point t3);
           active \<leftarrow> heap t3 act;
           let t4 = t3\<lparr>heap := tp_ScanActive E (heap t3) sa act\<rparr>;
           t5 \<leftarrow> (if task_events t4
                  then do { na \<leftarrow> vec_at (task_points t4) (nat (i + 1));
                            new_tp \<leftarrow> heap t4 na;
                            Some (emit t4 (ActiveAdvanced na (i + 1))) }
                  else Some t4);
           Some (True, True, t5)
         }
         else Some (False, full_update, t2)
       }
       else if \<not> last_request_armed \<and> adv_NeedToArm E (task_advance t1)
       then Some (False, full_update, emit t1 (RequestArm a))
       else Some (False, full_update, t1)
     }"

text \<open>
  One pass through the body of the loop, for the value \<open>i\<close> of the loop variable.
\<close>

definition transitions_body ::
  "('x, 'a) env \<Rightarrow> AircraftState \<Rightarrow> AircraftState \<Rightarrow> FlatBoundingBox \<Rightarrow> FlatBoundingBox \<Rightarrow>
    int \<Rightarrow> int \<Rightarrow> bool \<times> ('x, 'a) OrderedTask
    \<Rightarrow> (bool \<times> bool \<times> ('x, 'a) OrderedTask) option" where
  "transitions_body E state state_last bb_now bb_last n_task i acc =
     (case acc of (full_update, t) \<Rightarrow>
        do {
          (r0, enter0, exit0, t1) \<leftarrow>
            (if i = 0
             then CheckTransitionOptionalStart E t state state_last bb_now bb_last
                    False False (pev_based_advance_ready (stats t))
             else Some (False, False, False, t));
          a \<leftarrow> vec_at (task_points t1) (nat i);
          (r1, enter1, exit1, t2) \<leftarrow>
            CheckTransitionPoint E t1 a state state_last bb_now bb_last enter0 exit0
              (pev_based_advance_ready (stats t1)) (i = 0);
          let full_update1 = (full_update \<or> r0 \<or> r1);
          if i = int (active_task_point t2)
          then advance_block E state n_task i enter1 exit1 full_update1 t2
          else Some (False, full_update1, t2)
        })"

function transitions_loop ::
  "('x, 'a) env \<Rightarrow> AircraftState \<Rightarrow> AircraftState \<Rightarrow> FlatBoundingBox \<Rightarrow> FlatBoundingBox \<Rightarrow>
    int \<Rightarrow> int \<Rightarrow> int \<Rightarrow> bool \<times> ('x, 'a) OrderedTask
    \<Rightarrow> (bool \<times> ('x, 'a) OrderedTask) option" where
  "transitions_loop E state state_last bb_now bb_last n_task t_max i acc =
     (if i \<le> t_max
      then (case transitions_body E state state_last bb_now bb_last n_task i acc of
              None \<Rightarrow> None
            | Some (incremented, full_update, t) \<Rightarrow>
                transitions_loop E state state_last bb_now bb_last n_task t_max
                  ((if incremented then i + 1 else i) + 1) (full_update, t))
      else Some acc)"
  by pat_completeness auto
termination
  by (relation "measure (\<lambda>(E, state, state_last, bb_now, bb_last, n_task, t_max, i, acc).
                  nat (t_max + 1 - i))") auto

declare transitions_loop.simps [simp del]

text \<open>
  The statements of \<^verbatim>\<open>CheckTransitions\<close> after the loop, in three parts: up to the
  assignment of \<^verbatim>\<open>stats.task_finished\<close>; the block \<^verbatim>\<open>if (TaskStarted()) { ... }\<close>;
  and the block \<^verbatim>\<open>if (task_events != nullptr) { ... }\<close>.
\<close>

definition update_finished ::
  "('x, 'a) env \<Rightarrow> ('x, 'a) OrderedTask \<Rightarrow> ('x, 'a) OrderedTask option" where
  "update_finished E t =
     do {
       let t1 = t\<lparr>stats := (stats t)\<lparr>need_to_arm := adv_NeedToArm E (task_advance t)\<rparr>\<rparr>;
       sa \<leftarrow> taskpoint_start t1;
       start_tp \<leftarrow> heap t1 sa;
       act \<leftarrow> vec_at (task_points t1) (active_task_point t1);
       active \<leftarrow> heap t1 act;
       let t2 = t1\<lparr>heap := tp_ScanActive E (heap t1) sa act\<rparr>;
       finished \<leftarrow> (case taskpoint_finish t2 of
                      None \<Rightarrow> Some False
                    | Some fa \<Rightarrow> do { finish_tp \<leftarrow> heap t2 fa; Some (has_entered finish_tp) });
       Some (t2\<lparr>stats := (stats t2)\<lparr>task_finished := finished\<rparr>\<rparr>)
     }"

definition record_start ::
  "('x, 'a) env \<Rightarrow> ('x, 'a) OrderedTask \<Rightarrow> ('x, 'a) OrderedTask option" where
  "record_start E t =
     do {
       started \<leftarrow> TaskStarted t False;
       if started
       then do {
         sa \<leftarrow> taskpoint_start t;
         start_tp \<leftarrow> heap t sa;
         let start_state = state_exited start_tp;
         if \<not> HasTime start_state then None
         else do {
           let t1 = t\<lparr>stats := (stats t)
                         \<lparr>start := SetStarted (start (stats t)) start_state,
                          pev_based_advance_ready := False\<rparr>\<rparr>;
           case taskpoint_finish t1 of
             None \<Rightarrow> Some t1
           | Some fa \<Rightarrow> do {
               finish_tp \<leftarrow> heap t1 fa;
               Some (t1\<lparr>heap := (heap t1)(fa \<mapsto> finish_tp
                       \<lparr>fai_finish_height :=
                          tp_CalculateFinishHeightFromStart E finish_tp
                            (altitude_ss (start (stats t1)))\<rparr>)\<rparr>)
             }
         }
       }
       else Some t
     }"

definition fire_start_finish ::
  "TimeStamp \<Rightarrow> bool \<Rightarrow> ('x, 'a) OrderedTask \<Rightarrow> ('x, 'a) OrderedTask" where
  "fire_start_finish last_started_time last_finished t =
     (if task_events t
      then (let t1 = (if GetStartedTime (start (stats t)) > last_started_time
                      then emit t TaskStart else t)
            in if task_finished (stats t1) \<and> \<not> last_finished then emit t1 TaskFinish else t1)
      else t)"

definition transitions_finish ::
  "('x, 'a) env \<Rightarrow> TimeStamp \<Rightarrow> bool \<Rightarrow> ('x, 'a) OrderedTask \<Rightarrow> ('x, 'a) OrderedTask option" where
  "transitions_finish E last_started_time last_finished t =
     do {
       t1 \<leftarrow> update_finished E t;
       t2 \<leftarrow> record_start E t1;
       Some (fire_start_finish last_started_time last_finished t2)
     }"

definition CheckTransitions ::
  "('x, 'a) env \<Rightarrow> ('x, 'a) OrderedTask \<Rightarrow> AircraftState \<Rightarrow> AircraftState
    \<Rightarrow> (bool \<times> ('x, 'a) OrderedTask) option" where
  "CheckTransitions E t state state_last =
     (case taskpoint_start t of
        None \<Rightarrow> Some (False, t)
      | Some sa \<Rightarrow> do {
          start_tp \<leftarrow> heap t sa;
          act \<leftarrow> vec_at (task_points t) (active_task_point t);
          active \<leftarrow> heap t act;
          let t0 = t\<lparr>heap := tp_ScanActive E (heap t) sa act\<rparr>;
          if \<not> flying state then Some (False, t0)
          else
            let n_task = int (length (task_points t0)) in
            if n_task = 0 then Some (False, t0)
            else do {
              let bb_last = \<lparr>bb_center = ProjectInteger E (task_projection t0)
                                            (location state_last),
                             bb_radius = 1\<rparr>;
              let bb_now = \<lparr>bb_center = ProjectInteger E (task_projection t0) (location state),
                            bb_radius = 1\<rparr>;
              let last_started_time = GetStartedTime (start (stats t0));
              let last_finished = task_finished (stats t0);
              let t_min = max 0 (int (active_task_point t0) - 1);
              let t_max = min (n_task - 1) (int (active_task_point t0));
              (full_update, t1) \<leftarrow>
                transitions_loop E state state_last bb_now bb_last n_task t_max t_min
                  (False, t0);
              t2 \<leftarrow> transitions_finish E last_started_time last_finished t1;
              Some (full_update, t2)
            }
        })"

section \<open>Model: \<^verbatim>\<open>OrderedTask.cpp\<close>, the pilot event\<close>

text \<open>
  The start of the window in both branches of \<^verbatim>\<open>UpdateAfterPEV\<close>:
  \<^verbatim>\<open>duration_cast<minutes>\<close> truncates the wait time to whole minutes, one minute is added
  when \<^verbatim>\<open>bt.second > 0\<close>, and the sum is added to \<open>new_start\<close>. The durations handed to
  \<^verbatim>\<open>RoughTimeDelta::FromDuration\<close> are written in seconds.
\<close>

definition pev_new_start ::
  "('x, 'a) env \<Rightarrow> StartConstraints \<Rightarrow> BrokenTime \<Rightarrow> RoughTime \<Rightarrow> RoughTime" where
  "pev_new_start E sc bt new_start =
     (if pev_start_wait_time sc > 0
      then (let t = pev_start_wait_time sc div 60;
                t' = (if second bt > 0 then t + 1 else t)
            in RoughTime_plus E new_start (FromDuration E (t' * 60)))
      else new_start)"

definition UpdateAfterPEV ::
  "('x, 'a) env \<Rightarrow> ('x, 'a) OrderedTask \<Rightarrow> AircraftState \<Rightarrow> BrokenTime \<Rightarrow> ('x, 'a) OrderedTask" where
  "UpdateAfterPEV E t state bt =
     (let t0 = t\<lparr>pev_received := False\<rparr> in
      if time state < 0 then t0
      else
        let new_start = FromSinceMidnight E (time state);
            new_end = RoughTime_Invalid;
            sc = start_constraints (ordered_settings t0)
        in if score_pev sc
           then
             let t1 = t0\<lparr>stats := (stats t0)\<lparr>pev_based_advance_ready := True\<rparr>\<rparr>;
                 new_start' = pev_new_start E sc bt new_start;
                 ts = \<lparr>span_start = new_start', span_end = new_end\<rparr>
             in t1\<lparr>ordered_settings := (ordered_settings t1)
                      \<lparr>start_constraints := sc\<lparr>open_time_span := ts\<rparr>\<rparr>\<rparr>
           else
             let new_start' = pev_new_start E sc bt new_start;
                 new_end' = (if pev_start_window sc > 0
                             then RoughTime_plus E new_start' (FromDuration E (pev_start_window sc))
                             else new_end);
                 ts = \<lparr>span_start = new_start', span_end = new_end'\<rparr>
             in t0\<lparr>ordered_settings := (ordered_settings t0)
                      \<lparr>start_constraints := sc\<lparr>open_time_span := ts\<rparr>\<rparr>\<rparr>)"

definition SetPEV ::
  "('x, 'a) env \<Rightarrow> ('x, 'a) OrderedTask \<Rightarrow> BrokenTime \<Rightarrow> (bool \<times> ('x, 'a) OrderedTask) option" where
  "SetPEV E t bt =
     (if \<not> IsDefined (last_state_time t) then Some (False, t)
      else do {
        gate_closed \<leftarrow>
          (case taskpoint_start t of
             None \<Rightarrow> Some False
           | Some sa \<Rightarrow> do {
               start_tp \<leftarrow> heap t sa;
               Some (score_pev_tp start_tp \<and>
                     \<not> HasBegun E (open_time_span (start_constraints (ordered_settings t)))
                         (RoughTime_of E (last_state_time t)))
             });
        if gate_closed then Some (False, t)
        else Some (True, t\<lparr>pev_received := True, pev_receive_time := bt\<rparr>)
      })"

section \<open>Model: concrete collaborators and tasks for the examples\<close>

text \<open>
  An instance of the parameters in which no method of a point changes anything, no
  transition fires, the advance is never ready, every distance is \<open>0\<close> and a point may
  precede or follow another as its type says. The hidden state of a point and the state of
  \<^verbatim>\<open>TaskAdvance\<close> are of type \<open>unit\<close>. Modelled from the spec: the times of day are
  counted in minutes, \<^verbatim>\<open>FromSinceMidnight\<close> drops the seconds, and a sum wraps at 24
  hours.
\<close>

definition E0 :: "(unit, unit) env" where
  "E0 = \<lparr>
     tp_Equals = (\<lambda>h a p. False),
     tp_Clone = (\<lambda>s p. p\<lparr>tp_previous := None, tp_next := None\<rparr>),
     tp_Clone_waypoint = (\<lambda>s p g. p\<lparr>tp_location := g, tp_previous := None, tp_next := None\<rparr>),
     tp_IsPredecessorAllowed = (\<lambda>p. tp_type p \<noteq> START),
     tp_IsSuccessorAllowed = (\<lambda>p. tp_type p \<noteq> FINISH),
     tp_HasTarget = (\<lambda>p. False),
     tp_HasSampled = (\<lambda>p. False),
     tp_IsInSector = (\<lambda>p s. False),
     tp_BoundingBoxOverlaps = (\<lambda>p b. False),
     tp_ScanBounds = (\<lambda>p b. b),
     tp_GetSearchPoints = (\<lambda>p. []),
     tp_GetBoundaryPoints = (\<lambda>p. []),
     tp_GetNominalPoints = (\<lambda>p. []),
     tp_CalculateFinishHeightFromStart = (\<lambda>p alt. alt - 1000),
     tp_ScanDistanceNominal = (\<lambda>h a. 0),
     tp_ScanActive = (\<lambda>h s a. h),
     tp_TransitionEnter = (\<lambda>h a s sl. (False, h)),
     tp_TransitionExit = (\<lambda>h a s sl pev proj. (False, h)),
     tp_UpdateSampleNear = (\<lambda>h a s proj. (False, h)),
     tp_UpdateSampleFar = (\<lambda>h a s proj. (False, h)),
     tp_find_best_start = (\<lambda>h a s n proj. h),
     tp_Reset = (\<lambda>h a. h),
     tp_UpdateOZ = (\<lambda>h a proj. h),
     tp_UpdateBoundingBox = (\<lambda>h a proj. h),
     tp_SetSearchMin = (\<lambda>h a sp. h),
     tp_SetSearchMax = (\<lambda>h a sp. h),
     tp_ScanDistanceMin = (\<lambda>h a. (0, h)),
     tp_ScanDistanceMax = (\<lambda>h a. (0, h)),
     tp_ScanDistancePlanned = (\<lambda>h a. (0, h)),
     tp_ScanDistanceScored = (\<lambda>h a g. (0, h)),
     tp_ScanDistanceRemaining = (\<lambda>h a g. (0, h)),
     tp_ScanDistanceTravelled = (\<lambda>h a g. (0, h)),
     adv_NeedToArm = (\<lambda>a. False),
     adv_SetArmed = (\<lambda>a b. a),
     adv_CheckReadyToAdvance = (\<lambda>a h p s en ex. (False, a)),
     Distance = (\<lambda>a b. 0),
     IntermediatePoint = (\<lambda>a b d. a),
     ProjectInteger = (\<lambda>proj g. (0, 0)),
     FlatSquareDistanceTo = (\<lambda>a b. 0),
     GeoBounds_of = (\<lambda>g. GeoBounds_Invalid),
     DistanceMin = (\<lambda>bs ac. None),
     DistanceMax = (\<lambda>bs. None),
     FromSinceMidnight = (\<lambda>ts. RoughTime (nat \<lfloor>ts / 60\<rfloor> mod 1440)),
     RoughTime_of = (\<lambda>ts. RoughTime (nat \<lfloor>ts / 60\<rfloor> mod 1440)),
     FromDuration = (\<lambda>d. int (d div 60)),
     RoughTime_plus = (\<lambda>r d. case r of RoughTime_Invalid \<Rightarrow> RoughTime_Invalid
                                | RoughTime m \<Rightarrow> RoughTime (nat ((int m + d) mod 1440))),
     HasBegun = (\<lambda>span now. True),
     CheckTask_IsError = (\<lambda>h tps opts. False),
     UpdateStatsDistances = (\<lambda>h tps opts act st lml runs g full. (h, st, lml, runs))
   \<rparr>"

text \<open>An aircraft state without a time, a task point, and a task without points.\<close>

definition no_state :: AircraftState where
  "no_state = \<lparr>location = GeoPoint_Invalid, altitude = 0, ground_speed = 0,
                time = Undefined, flying = False\<rparr>"

definition point :: "TaskPointType \<Rightarrow> ObservationZone \<Rightarrow> GeoPoint \<Rightarrow> unit OrderedTaskPoint" where
  "point ty z g =
     \<lparr>tp_type = ty, oz = z, tp_location = g, tp_previous = None, tp_next = None,
      has_entered = False, has_exited = False, state_exited = no_state,
      fai_finish_height = 0, score_pev_tp = False, sampled = ()\<rparr>"

definition empty_task :: "(unit, unit) OrderedTask" where
  "empty_task =
     \<lparr>heap = Map.empty, next_addr = 0, task_points = [], optional_start_points = [],
      active_task_point = 0, taskpoint_start = None, taskpoint_finish = None,
      task_projection = TaskProjection GeoBounds_Invalid,
      ordered_settings = \<lparr>start_constraints =
        \<lparr>score_pev = False, pev_start_wait_time = 0, pev_start_window = 0,
         open_time_span = \<lparr>span_start = RoughTime_Invalid, span_end = RoughTime_Invalid\<rparr>\<rparr>\<rparr>,
      factory_mode = RACING, task_advance = (),
      stats = \<lparr>bounds = GeoBounds_Invalid, task_valid = False, has_targets = False,
               is_mat = False, has_optional_starts = False, task_finished = False,
               start = \<lparr>advanced_by_pev = False, time_ss = Undefined, altitude_ss = 0,
                        ground_speed_ss = 0\<rparr>,
               pev_based_advance_ready = False, need_to_arm = False, inside_oz = False\<rparr>,
      last_min_location = GeoPoint_Invalid, force_full_update = False,
      pev_received = False, pev_receive_time = \<lparr>hour = 0, minute = 0, second = 0\<rparr>,
      last_state_time = Undefined, task_events = True, events = [],
      dijkstra_min_runs = 0\<rparr>"

text \<open>
  A task of two cylinders, a start of radius \<open>R1\<close> at address 0 and a finish of radius
  \<open>R2\<close> at address 1, and collaborators whose points report the nominal distance \<open>D\<close>.
\<close>

definition cylinder_task :: "real \<Rightarrow> real \<Rightarrow> (unit, unit) OrderedTask" where
  "cylinder_task R1 R2 =
     empty_task\<lparr>heap := [0 \<mapsto> point START (Cylinder R1) (GeoPoint 0 0),
                         1 \<mapsto> point FINISH (Cylinder R2) (GeoPoint 1 0)],
                next_addr := 2, task_points := [0, 1],
                taskpoint_start := Some 0, taskpoint_finish := Some 1\<rparr>"

definition E_nominal :: "real \<Rightarrow> (unit, unit) env" where
  "E_nominal D = E0\<lparr>tp_ScanDistanceNominal := (\<lambda>h a. D)\<rparr>"

text \<open>Four points at the addresses 0 to 3, the third of them active.\<close>

definition four_point_task :: "(unit, unit) OrderedTask" where
  "four_point_task =
     empty_task\<lparr>heap := [0 \<mapsto> point START (Cylinder 1000) (GeoPoint 0 0),
                         1 \<mapsto> point AST (Cylinder 500) (GeoPoint 1 0),
                         2 \<mapsto> point AST (Cylinder 500) (GeoPoint 1 1),
                         3 \<mapsto> point FINISH (Cylinder 1000) (GeoPoint 0 1)],
                next_addr := 4, task_points := [0, 1, 2, 3], active_task_point := 2,
                taskpoint_start := Some 0, taskpoint_finish := Some 3\<rparr>"

text \<open>
  Scenario S4: the settings \<open>score_pev = false\<close>, a wait of 5 minutes and a window of
  10 minutes, in a task that has seen the time 12:03:20; the state and the broken time of
  that moment.
\<close>

definition pev_task :: "(unit, unit) OrderedTask" where
  "pev_task =
     empty_task\<lparr>ordered_settings := \<lparr>start_constraints =
                  \<lparr>score_pev = False, pev_start_wait_time = 300, pev_start_window = 600,
                   open_time_span = \<lparr>span_start = RoughTime_Invalid,
                                     span_end = RoughTime_Invalid\<rparr>\<rparr>\<rparr>,
                last_state_time := 43400\<rparr>"

definition pev_state :: AircraftState where
  "pev_state = \<lparr>location = GeoPoint 0 0, altitude = 1000, ground_speed = 30,
                 time = 43400, flying = True\<rparr>"

definition pev_bt :: BrokenTime where
  "pev_bt = \<lparr>hour = 12, minute = 3, second = 20\<rparr>"

text \<open>
  A flat world for scenario S5. A location is a pair of coordinates in metres, its
  projection their integer parts, the flat square distance the sum of the squares of the
  differences, and the distance the sum of the differences along the two axes (the
  distance proper for two points that share a coordinate). The solver finds no solution.
\<close>

fun flat_distance :: "GeoPoint \<Rightarrow> GeoPoint \<Rightarrow> real" where
  "flat_distance (GeoPoint x y) (GeoPoint x' y') = \<bar>x - x'\<bar> + \<bar>y - y'\<bar>"
| "flat_distance g g' = 0"

fun flat_project :: "GeoPoint \<Rightarrow> FlatGeoPoint" where
  "flat_project (GeoPoint x y) = (\<lfloor>x\<rfloor>, \<lfloor>y\<rfloor>)"
| "flat_project GeoPoint_Invalid = (0, 0)"

definition flat_square_distance :: "SearchPoint \<Rightarrow> SearchPoint \<Rightarrow> unsigned" where
  "flat_square_distance a b =
     (case (flat_location a, flat_location b) of
        ((x, y), (x', y')) \<Rightarrow> word_of_int ((x - x') * (x - x') + (y - y') * (y - y')))"

definition E_flat :: "(unit, unit) env" where
  "E_flat = E0\<lparr>Distance := flat_distance,
               ProjectInteger := (\<lambda>proj g. flat_project g),
               FlatSquareDistanceTo := flat_square_distance\<rparr>"

text \<open>
  Two points, the active one at the origin; the last full solve was made \<open>d\<close> metres
  east of it.
\<close>

definition rescan_task :: "real \<Rightarrow> (unit, unit) OrderedTask" where
  "rescan_task d =
     empty_task\<lparr>heap := [0 \<mapsto> point START (Cylinder 500) (GeoPoint 0 0),
                         1 \<mapsto> point FINISH (Cylinder 500) (GeoPoint 0 50000)],
                next_addr := 2, task_points := [0, 1],
                taskpoint_start := Some 0, taskpoint_finish := Some 1,
                last_min_location := GeoPoint d 0\<rparr>"


text \<open>
  Scenario S1: the state of the aircraft at \<open>t = 100 s\<close>, at 1000 m and 30 m/s, and
  collaborators for it. Modelled from the spec: every point is near the aircraft, the
  point at address \<open>a\<close> (and no other) reports an exit transition and keeps the state as
  its exited state, and the advance is ready when an exit transition has been seen.
\<close>

definition state_100 :: AircraftState where
  "state_100 = \<lparr>location = GeoPoint 0 0, altitude = 1000, ground_speed = 30,
                 time = 100, flying = True\<rparr>"

definition record_exit :: "unit heap \<Rightarrow> addr \<Rightarrow> AircraftState \<Rightarrow> unit heap" where
  "record_exit h a s =
     (case h a of
        None \<Rightarrow> h
      | Some p \<Rightarrow> h(a \<mapsto> p\<lparr>has_entered := True, has_exited := True, state_exited := s\<rparr>))"

definition E_exit :: "addr \<Rightarrow> (unit, unit) env" where
  "E_exit a = E0\<lparr>tp_BoundingBoxOverlaps := (\<lambda>p b. True),
                 tp_TransitionExit := (\<lambda>h a' s sl pev proj.
                    if a' = a then (True, record_exit h a s) else (False, h)),
                 adv_CheckReadyToAdvance := (\<lambda>adv h p s en ex. (ex, adv))\<rparr>"

text \<open>A task of one point, a start at address 0.\<close>

definition single_point_task :: "(unit, unit) OrderedTask" where
  "single_point_task =
     empty_task\<lparr>heap := [0 \<mapsto> point START (Cylinder 1000) (GeoPoint 0 0)],
                next_addr := 1, task_points := [0], taskpoint_start := Some 0\<rparr>"

text \<open>
  The task of two cylinders after the start of scenario S1: the start point has been
  left at \<open>t = 100 s\<close>, the statistics hold that start, the finish point is active and
  carries a height of 500 m. Since then a pilot event has set
  \<open>pev_based_advance_ready\<close>, as \<^verbatim>\<open>UpdateAfterPEV\<close> does with \<open>score_pev\<close>. The state
  of the aircraft 100 s later.
\<close>

definition started_task :: "(unit, unit) OrderedTask" where
  "started_task =
     empty_task\<lparr>heap := [0 \<mapsto> (point START (Cylinder 1000) (GeoPoint 0 0))
                                 \<lparr>has_entered := True, has_exited := True,
                                  state_exited := state_100\<rparr>,
                         1 \<mapsto> (point FINISH (Cylinder 1000) (GeoPoint 1 0))
                                 \<lparr>fai_finish_height := 500\<rparr>],
                next_addr := 2, task_points := [0, 1], active_task_point := 1,
                taskpoint_start := Some 0, taskpoint_finish := Some 1,
                stats := (stats empty_task)
                  \<lparr>start := \<lparr>advanced_by_pev = False, time_ss = 100, altitude_ss = 1000,
                              ground_speed_ss = 30\<rparr>,
                   pev_based_advance_ready := True\<rparr>\<rparr>"

definition state_200 :: AircraftState where
  "state_200 = \<lparr>location = GeoPoint 0 0, altitude = 900, ground_speed = 35,
                 time = 200, flying = True\<rparr>"

text \<open>
  Scenario S3: a start at address 0 and a finish at address 1, and two optional starts at
  the addresses 2 and 3.
\<close>

definition optional_start_task :: "(unit, unit) OrderedTask" where
  "optional_start_task =
     empty_task\<lparr>heap := [0 \<mapsto> point START (Cylinder 1000) (GeoPoint 0 0),
                         1 \<mapsto> point FINISH (Cylinder 1000) (GeoPoint 1 0),
                         2 \<mapsto> point START (Cylinder 1000) (GeoPoint 0 1),
                         3 \<mapsto> point START (Cylinder 1000) (GeoPoint 0 2)],
                next_addr := 4, task_points := [0, 1], optional_start_points := [2, 3],
                taskpoint_start := Some 0, taskpoint_finish := Some 1\<rparr>"
section \<open>Model: predicates the properties are stated with\<close>

text \<open>
  The ownership that \<^verbatim>\<open>std::unique_ptr\<close> gives: no address stands twice in the two
  vectors, and every address in them is the address of a live object.
\<close>

definition owned :: "('x, 'a) OrderedTask \<Rightarrow> bool" where
  "owned t =
     (distinct (task_points t @ optional_start_points t) \<and>
      (\<forall>a \<in> set (task_points t @ optional_start_points t). heap t a \<noteq> None))"

text \<open>
  The point in slot \<open>i\<close> is linked to the points in the slots before and after it, and
  to nothing where there is no such slot.
\<close>

definition neighbours_wired :: "('x, 'a) OrderedTask \<Rightarrow> nat \<Rightarrow> bool" where
  "neighbours_wired t i =
     (case heap t (task_points t ! i) of
        None \<Rightarrow> False
      | Some p \<Rightarrow>
          tp_previous p = (if i > 0 then Some (task_points t ! (i - 1)) else None) \<and>
          tp_next p = (if i + 1 < length (task_points t)
                       then Some (task_points t ! (i + 1)) else None))"

text \<open>
  From \<open>t\<close> to \<open>t'\<close> the event sink stays the same, and the calls made on it in between
  are neither \<^verbatim>\<open>TaskStart\<close> nor \<^verbatim>\<open>TaskFinish\<close>.
\<close>

definition quiet_step :: "('x, 'a) OrderedTask \<Rightarrow> ('x, 'a) OrderedTask \<Rightarrow> bool" where
  "quiet_step t t' =
     (task_events t' = task_events t \<and>
      (\<exists>es. events t' = events t @ es \<and> TaskStart \<notin> set es \<and> TaskFinish \<notin> set es))"

text \<open>The two vectors hold the same addresses in \<open>t'\<close> as in \<open>t\<close>.\<close>

definition same_points :: "('x, 'a) OrderedTask \<Rightarrow> ('x, 'a) OrderedTask \<Rightarrow> bool" where
  "same_points t t' =
     (task_points t' = task_points t \<and>
      optional_start_points t' = optional_start_points t)"

text \<open>
  From \<open>t\<close> to \<open>t'\<close> the optional start in slot \<open>k\<close> has become the first task point, the
  former first task point stands at the end of the optional starts, and the other slots of
  both vectors hold what they held.
\<close>

definition start_selected :: "('x, 'a) OrderedTask \<Rightarrow> ('x, 'a) OrderedTask \<Rightarrow> nat \<Rightarrow> bool" where
  "start_selected t t' k =
     (k < length (optional_start_points t) \<and> task_points t \<noteq> [] \<and>
      task_points t' = optional_start_points t ! k # tl (task_points t) \<and>
      optional_start_points t' =
        take k (optional_start_points t) @ drop (Suc k) (optional_start_points t)
          @ [hd (task_points t)])"

text \<open>
  The optional starts of a list are examined in turn, as the loop of
  \<^verbatim>\<open>CheckTransitionOptionalStart\<close> examines them, and none of them fires: the value is the
  accumulated return value and the task after the last of them, and \<open>None\<close> if one fires.
\<close>

fun examined_without_transition ::
  "('x, 'a) env \<Rightarrow> AircraftState \<Rightarrow> AircraftState \<Rightarrow> FlatBoundingBox \<Rightarrow> FlatBoundingBox \<Rightarrow>
    bool \<Rightarrow> addr list \<Rightarrow> bool \<Rightarrow> ('x, 'a) OrderedTask \<Rightarrow> (bool \<times> ('x, 'a) OrderedTask) option" where
  "examined_without_transition E state state_last bb_now bb_last pev [] full_update t =
     Some (full_update, t)"
| "examined_without_transition E state state_last bb_now bb_last pev (a # rest) full_update t =
     (case CheckTransitionPoint E t a state state_last bb_now bb_last False False pev True of
        None \<Rightarrow> None
      | Some (r, enter', exit', t1) \<Rightarrow>
          if enter' \<or> exit' then None
          else examined_without_transition E state state_last bb_now bb_last pev rest
                 (full_update \<or> r) t1)"

text \<open>
  From \<open>t\<close> to \<open>t'\<close> the step is quiet, and neither the vectors nor the active index
  change.
\<close>

definition undisturbed :: "('x, 'a) OrderedTask \<Rightarrow> ('x, 'a) OrderedTask \<Rightarrow> bool" where
  "undisturbed t t' =
     (quiet_step t t' \<and> same_points t t' \<and> active_task_point t' = active_task_point t)"

text \<open>
  What the block \<^verbatim>\<open>if (TaskStarted()) { ... }\<close> of \<^verbatim>\<open>CheckTransitions\<close> leaves behind:
  the statistics hold the time, altitude and ground speed of the exited state of the start
  point (which has a time), \<open>pev_based_advance_ready\<close> is cleared, and the finish point,
  if there is one, carries the height that \<^verbatim>\<open>CalculateFinishHeightFromStart\<close> gives for
  the start altitude (computed on the finish point as it was before the height was set).
\<close>

definition start_recorded :: "('x, 'a) env \<Rightarrow> ('x, 'a) OrderedTask \<Rightarrow> bool" where
  "start_recorded E t =
     (case taskpoint_start t of
        None \<Rightarrow> False
      | Some sa \<Rightarrow>
          (case heap t sa of
             None \<Rightarrow> False
           | Some start_tp \<Rightarrow>
               HasTime (state_exited start_tp) \<and>
               start (stats t) =
                 \<lparr>advanced_by_pev = False, time_ss = time (state_exited start_tp),
                  altitude_ss = altitude (state_exited start_tp),
                  ground_speed_ss = ground_speed (state_exited start_tp)\<rparr> \<and>
               \<not> pev_based_advance_ready (stats t) \<and>
               (case taskpoint_finish t of
                  None \<Rightarrow> True
                | Some fa \<Rightarrow>
                    (case heap t fa of
                       None \<Rightarrow> False
                     | Some finish_tp \<Rightarrow>
                         (\<exists>old. fai_finish_height finish_tp =
                                  tp_CalculateFinishHeightFromStart E
                                    (finish_tp\<lparr>fai_finish_height := old\<rparr>)
                                    (altitude_ss (start (stats t))))))))"

chapter \<open>Properties\<close>

section \<open>The two checksum functions\<close>

lemma strlen_Cons_Some:
  "strlen (c # p) = Some n \<Longrightarrow>
   (c = 0 \<and> n = 0) \<or> (c \<noteq> 0 \<and> (\<exists>m. n = Suc m \<and> strlen p = Some m))"
  by (auto split: if_splits)

lemma strlen_less_length: "strlen p = Some n \<Longrightarrow> n < length p"
  by (induction p arbitrary: n) (auto split: if_splits)

lemma checksum_while_strlen:
  "strlen p = Some n \<Longrightarrow> 0x2A \<notin> set (take n p) \<Longrightarrow>
   checksum_while apple p c = Some (foldl (XOR) c (take n p))"
proof (induction p arbitrary: n c)
  case Nil
  then show ?case by simp
next
  case (Cons a p)
  from strlen_Cons_Some [OF Cons.prems(1)] show ?case
  proof
    assume "a = 0 \<and> n = 0"
    then show ?thesis by simp
  next
    assume "a \<noteq> 0 \<and> (\<exists>m. n = Suc m \<and> strlen p = Some m)"
    then obtain m where m: "a \<noteq> 0" "n = Suc m" "strlen p = Some m" by blast
    with Cons.prems(2) have "a \<noteq> 0x2A" "0x2A \<notin> set (take m p)" by auto
    with m Cons.IH [OF m(3), of "c XOR a"] show ?thesis by simp
  qed
qed

lemma checksum_for_take:
  "i \<le> len \<Longrightarrow> unat len - unat i \<le> length p \<Longrightarrow>
   checksum_for p i len c = Some (foldl (XOR) c (take (unat len - unat i) p))"
proof (induction p arbitrary: i c)
  case Nil
  then have "\<not> i < len" by (simp add: word_less_nat_alt)
  then show ?case by (simp add: checksum_for.simps)
next
  case (Cons a p)
  show ?case
  proof (cases "i < len")
    case False
    with Cons.prems have "unat len - unat i = 0" by (simp add: word_less_nat_alt)
    with False show ?thesis by (simp add: checksum_for.simps)
  next
    case True
    from True unsigned_less [of len, where ?'a = nat]
    have "unat i + unat (1 :: unsigned) < 2 ^ LENGTH(32)"
      by (simp add: word_less_nat_alt)
    then have s: "unat (i + 1) = Suc (unat i)"
      by (simp add: unat_add_lem [THEN iffD1])
    from True have le: "i + 1 \<le> len" by (simp add: inc_le)
    from True s have d: "unat len - unat i = Suc (unat len - unat (i + 1))"
      by (simp add: word_less_nat_alt)
    with Cons.prems(2) have "unat len - unat (i + 1) \<le> length p" by simp
    from Cons.IH [OF le this, of "c XOR a"] True d show ?thesis
      by (simp add: checksum_for.simps)
  qed
qed

text \<open>
  Claim C10. Let \<open>p\<close> point to a NUL-terminated string of \<open>n\<close> characters
  (\<open>strlen p = Some n\<close>) none of which is an asterisk, and let the unsigned argument
  \<open>len\<close> be that length. Then \<^verbatim>\<open>NMEAChecksum(p, len)\<close> and \<^verbatim>\<open>NMEAChecksum(p)\<close>
  return the same byte, on either branch of the \<^verbatim>\<open>__APPLE__\<close> conditional, and that
  byte is the exclusive or of the characters that are left once one leading dollar sign or
  exclamation mark has been skipped. Neither call reads past the terminator.
\<close>

theorem NMEAChecksum_overloads_agree:
  assumes "strlen p = Some n" and "0x2A \<notin> set (take n p)" and "unat len = n"
  shows "NMEAChecksum_len p len = NMEAChecksum apple p \<and>
         NMEAChecksum apple p = Some (xor_bytes (skip_lead (take n p)))"
proof (cases p)
  case Nil
  with assms show ?thesis by simp
next
  case (Cons a p')
  from assms(1) have nl: "n < length p" by (rule strlen_less_length)
  from strlen_Cons_Some [OF assms(1) [unfolded Cons]] show ?thesis
  proof
    assume z: "a = 0 \<and> n = 0"
    with assms(3) have "len = 0" by (simp add: unat_eq_0)
    with z Cons show ?thesis
      by (simp add: NMEAChecksum_def NMEAChecksum_len_def checksum_for.simps
          skip_lead_def xor_bytes_def)
  next
    assume "a \<noteq> 0 \<and> (\<exists>m. n = Suc m \<and> strlen p' = Some m)"
    then obtain m where m: "a \<noteq> 0" "n = Suc m" "strlen p' = Some m" by blast
    from m assms(3) have pos: "0 < len" by (metis Zero_not_Suc unat_0 word_neq_0_conv)
    from assms(2) m Cons have star: "a \<noteq> 0x2A" "0x2A \<notin> set (take m p')" by auto
    show ?thesis
    proof (cases "a = 0x24 \<or> a = 0x21")
      case True
      from m assms(3) have "unat (1 :: unsigned) \<le> unat len" by simp
      then have one: "1 \<le> len" by (simp only: word_le_nat_alt)
      from m assms(3) have k: "unat len - unat (1 :: unsigned) = m" by simp
      from strlen_less_length [OF m(3)] k
      have "unat len - unat (1 :: unsigned) \<le> length p'" by simp
      from checksum_for_take [OF one this, of 0] k
      have f: "checksum_for p' 1 len 0 = Some (foldl (XOR) 0 (take m p'))" by simp
      from checksum_while_strlen [OF m(3) star(2), of apple 0]
      have w: "checksum_while apple p' 0 = Some (foldl (XOR) 0 (take m p'))" .
      from True f w pos Cons m show ?thesis
        by (auto simp add: NMEAChecksum_def NMEAChecksum_len_def skip_lead_def xor_bytes_def)
    next
      case False
      from nl assms(3) have "unat len - unat (0 :: unsigned) \<le> length p" by simp
      from checksum_for_take [OF _ this, of 0] assms(3)
      have f: "checksum_for p 0 len 0 = Some (foldl (XOR) 0 (take n p))" by simp
      from checksum_while_strlen [OF assms(1) assms(2), of apple 0]
      have w: "checksum_while apple p 0 = Some (foldl (XOR) 0 (take n p))" .
      from False f w pos Cons m show ?thesis
        by (auto simp add: NMEAChecksum_def NMEAChecksum_len_def skip_lead_def xor_bytes_def)
    qed
  qed
qed

text \<open>
  The theorem at the sentence \<^verbatim>\<open>$GPGGA\<close> (bytes 24 47 50 47 47 41, then NUL, then two
  bytes of whatever follows in the buffer): both functions return \<open>0x56\<close>.
\<close>

theorem NMEAChecksum_overloads_agree_witness:
  "strlen [0x24, 0x47, 0x50, 0x47, 0x47, 0x41, 0, 0x0D, 0x0A] = Some 6 \<and>
   0x2A \<notin> set (take 6 [0x24, 0x47, 0x50, 0x47, 0x47, 0x41, 0, 0x0D, 0x0A :: u8]) \<and>
   unat (6 :: unsigned) = 6 \<and>
   NMEAChecksum_len [0x24, 0x47, 0x50, 0x47, 0x47, 0x41, 0, 0x0D, 0x0A] 6 =
     NMEAChecksum True [0x24, 0x47, 0x50, 0x47, 0x47, 0x41, 0, 0x0D, 0x0A] \<and>
   NMEAChecksum True [0x24, 0x47, 0x50, 0x47, 0x47, 0x41, 0, 0x0D, 0x0A] = Some 0x56"
proof -
  have s: "strlen [0x24, 0x47, 0x50, 0x47, 0x47, 0x41, 0, 0x0D, 0x0A] = Some 6"
    by simp
  have a: "0x2A \<notin> set (take 6 [0x24, 0x47, 0x50, 0x47, 0x47, 0x41, 0, 0x0D, 0x0A :: u8])"
    by simp
  have u: "unat (6 :: unsigned) = 6" by simp
  from NMEAChecksum_overloads_agree [OF s a u, of True] s a u show ?thesis
    by (simp add: xor_bytes_def skip_lead_def)
qed

section \<open>The distance scans\<close>

text \<open>
  Claim C3, as amended. In a task of exactly two points, a cylinder start of radius \<open>R1\<close>
  and a cylinder finish of radius \<open>R2\<close>, whose start point reports the nominal distance
  \<open>D\<close>, \<^verbatim>\<open>ScanDistanceNominal\<close> returns \<open>D - R1 - R2\<close> whenever \<open>0 \<le> R1 < D\<close> and
  \<open>0 \<le> R2 < D - R1\<close>: the finish radius is compared with the distance that is left once
  the start radius has been taken off, not with \<open>D\<close>.
\<close>

theorem ScanDistanceNominal_two_cylinders:
  assumes "task_points t = [sa, fa]"
    and "heap t sa = Some start_tp" and "heap t fa = Some finish_tp"
    and "tp_type start_tp = START" and "oz start_tp = Cylinder R1"
    and "tp_type finish_tp = FINISH" and "oz finish_tp = Cylinder R2"
    and "tp_ScanDistanceNominal E (heap t) sa = D"
    and "0 \<le> R1" and "R1 < D" and "0 \<le> R2" and "R2 < D - R1"
  shows "ScanDistanceNominal E t = Some (D - R1 - R2)"
  using assms by (auto simp add: ScanDistanceNominal_def vec_front_def vec_back_def Let_def)

text \<open>
  The theorem at the task of scenario S1: two cylinders of 1000 m whose centres are
  111195 m apart give 109195 m.
\<close>

theorem ScanDistanceNominal_two_cylinders_witness:
  "ScanDistanceNominal (E_nominal 111195) (cylinder_task 1000 1000) = Some 109195"
proof -
  have "ScanDistanceNominal (E_nominal 111195) (cylinder_task 1000 1000)
        = Some (111195 - 1000 - 1000)"
    by (rule ScanDistanceNominal_two_cylinders
          [where sa = 0 and fa = 1
             and start_tp = "point START (Cylinder 1000) (GeoPoint 0 0)"
             and finish_tp = "point FINISH (Cylinder 1000) (GeoPoint 1 0)"])
       (simp_all add: cylinder_task_def empty_task_def point_def E_nominal_def E0_def)
  then show ?thesis by simp
qed

text \<open>
  The claim as the spec words it asks only for \<open>R1 < D\<close> and \<open>R2 < D\<close>. With
  \<open>D = 10000\<close> and both radii \<open>6000\<close> both hold, and the function returns
  \<open>4000\<close>, which is not \<open>D - R1 - R2 = - 2000\<close>: the finish radius is not smaller
  than the \<open>4000\<close> that are left, so it is not subtracted.
\<close>

theorem ScanDistanceNominal_counterexample:
  "ScanDistanceNominal (E_nominal 10000) (cylinder_task 6000 6000) = Some 4000 \<and>
   (6000 :: real) < 10000 \<and>
   ScanDistanceNominal (E_nominal 10000) (cylinder_task 6000 6000)
     \<noteq> Some (10000 - 6000 - 6000)"
  by (simp add: ScanDistanceNominal_def vec_front_def vec_back_def Let_def
        cylinder_task_def empty_task_def point_def E_nominal_def E0_def)

text \<open>
  Claim C8. On a task without points the scans \<^verbatim>\<open>ScanDistanceNominal\<close>,
  \<^verbatim>\<open>ScanDistanceScored\<close>, \<^verbatim>\<open>ScanDistanceRemaining\<close>, \<^verbatim>\<open>ScanDistanceTravelled\<close>,
  \<^verbatim>\<open>ScanDistancePlanned\<close> and \<^verbatim>\<open>ScanDistanceMax\<close> return \<open>0\<close> and leave the task
  as it is. \<^verbatim>\<open>ScanDistanceMin\<close> has no test for the empty vector: whatever its
  arguments, it reaches \<^verbatim>\<open>task_points.front()\<close> on the empty vector, which is undefined.
\<close>

theorem scans_of_empty_task:
  "ScanDistanceNominal E (t\<lparr>task_points := []\<rparr>) = Some 0 \<and>
   ScanDistanceScored E (t\<lparr>task_points := []\<rparr>) loc = Some (0, t\<lparr>task_points := []\<rparr>) \<and>
   ScanDistanceRemaining E (t\<lparr>task_points := []\<rparr>) loc = Some (0, t\<lparr>task_points := []\<rparr>) \<and>
   ScanDistanceTravelled E (t\<lparr>task_points := []\<rparr>) loc = Some (0, t\<lparr>task_points := []\<rparr>) \<and>
   ScanDistancePlanned E (t\<lparr>task_points := []\<rparr>) = Some (0, t\<lparr>task_points := []\<rparr>) \<and>
   ScanDistanceMax E (t\<lparr>task_points := []\<rparr>) = Some (0, t\<lparr>task_points := []\<rparr>) \<and>
   ScanDistanceMin E (t\<lparr>task_points := []\<rparr>) loc full = None"
proof -
  let ?t = "t\<lparr>task_points := []\<rparr>"
  have decide: "scan_min_decide E ?t loc full = Some full"
    by (simp add: scan_min_decide_def GetActiveTaskPoint_def)
  have run: "RunDijsktraMin E ?t loc = Some (False, ?t)"
    by (simp add: RunDijsktraMin_def)
  have fr: "scan_min_front E (?t\<lparr>last_min_location := loc\<rparr>) = None"
    "scan_min_front E ?t = None"
    by (simp_all add: scan_min_front_def vec_front_def)
  have "ScanDistanceMin E ?t loc full = None"
    by (simp add: ScanDistanceMin_def decide run fr)
  then show ?thesis
    by (simp add: ScanDistanceNominal_def ScanDistanceScored_def ScanDistanceRemaining_def
          ScanDistanceTravelled_def ScanDistancePlanned_def ScanDistanceMax_def)
qed

section \<open>The mutation interface\<close>

lemma SetNeighbours_each_Some:
  "\<forall>a \<in> set as. h a \<noteq> None \<Longrightarrow>
   \<exists>h'. SetNeighbours_each as prev nxt h = Some h' \<and>
        (\<forall>a. a \<notin> set as \<longrightarrow> h' a = h a) \<and>
        (\<forall>a. (h' a = None) = (h a = None))"
proof (induction as arbitrary: h)
  case Nil
  then show ?case by simp
next
  case (Cons a as)
  from Cons.prems obtain p where p: "h a = Some p" by auto
  let ?h1 = "h(a \<mapsto> p\<lparr>tp_previous := prev, tp_next := nxt\<rparr>)"
  from Cons.prems have "\<forall>b \<in> set as. ?h1 b \<noteq> None" by auto
  from Cons.IH [OF this] obtain h' where h':
    "SetNeighbours_each as prev nxt ?h1 = Some h'"
    "\<forall>b. b \<notin> set as \<longrightarrow> h' b = ?h1 b"
    "\<forall>b. (h' b = None) = (?h1 b = None)" by blast
  from p h' show ?case by (auto simp add: tp_SetNeighbours_def)
qed

lemma SetNeighbours_owned:
  assumes "owned t" and "i < length (task_points t)"
  shows "\<exists>h'. SetNeighbours t i = Some (t\<lparr>heap := h'\<rparr>) \<and>
           (\<forall>a. a \<notin> set (optional_start_points t) \<longrightarrow> a \<noteq> task_points t ! i \<longrightarrow> h' a = heap t a) \<and>
           (0 < i \<longrightarrow> (\<forall>a. a \<noteq> task_points t ! i \<longrightarrow> h' a = heap t a)) \<and>
           (\<forall>a. (h' a = None) = (heap t a = None)) \<and>
           neighbours_wired (t\<lparr>heap := h'\<rparr>) i"
proof -
  define a where "a = task_points t ! i"
  define prev where "prev = (if i > 0 then Some (task_points t ! (i - 1)) else None)"
  define nxt where
    "nxt = (if i + 1 < length (task_points t) then Some (task_points t ! (i + 1)) else None)"
  from assms have mem: "a \<in> set (task_points t)" by (simp add: a_def)
  with assms(1) obtain p where p: "heap t a = Some p" by (auto simp add: owned_def)
  define h1 where "h1 = (heap t)(a \<mapsto> p\<lparr>tp_previous := prev, tp_next := nxt\<rparr>)"
  have t1: "tp_SetNeighbours (heap t) a prev nxt = Some h1"
    using p by (simp add: tp_SetNeighbours_def h1_def)
  from assms(1) mem have notopt: "a \<notin> set (optional_start_points t)"
    by (auto simp add: owned_def)
  have sn: "SetNeighbours t i =
      (if i = 0 then SetNeighbours_each (optional_start_points t) prev nxt h1 else Some h1)
      \<bind> (\<lambda>h2. Some (t\<lparr>heap := h2\<rparr>))"
    using assms(2) t1 by (simp add: SetNeighbours_def Let_def a_def prev_def nxt_def)
  have wired: "neighbours_wired (t\<lparr>heap := h\<rparr>) i"
    if "h a = Some (p\<lparr>tp_previous := prev, tp_next := nxt\<rparr>)" for h
    using that by (simp add: neighbours_wired_def a_def [symmetric] prev_def nxt_def)
  show ?thesis
  proof (cases "i = 0")
    case False
    have "h1 a = Some (p\<lparr>tp_previous := prev, tp_next := nxt\<rparr>)" by (simp add: h1_def)
    from wired [of h1, OF this] False sn p show ?thesis
      by (intro exI [of _ h1]) (simp add: h1_def a_def [symmetric])
  next
    case True
    from assms(1) have "\<forall>b \<in> set (optional_start_points t). h1 b \<noteq> None"
      by (auto simp add: owned_def h1_def)
    from SetNeighbours_each_Some [OF this, of prev nxt] obtain h' where h':
      "SetNeighbours_each (optional_start_points t) prev nxt h1 = Some h'"
      "\<forall>b. b \<notin> set (optional_start_points t) \<longrightarrow> h' b = h1 b"
      "\<forall>b. (h' b = None) = (h1 b = None)" by blast
    from h'(2) notopt have "h' a = Some (p\<lparr>tp_previous := prev, tp_next := nxt\<rparr>)"
      by (simp add: h1_def)
    moreover from True have "task_points t ! 0 = a" by (simp add: a_def)
    ultimately show ?thesis using wired [of h'] True sn h' p
      by (intro exI [of _ h']) (simp add: h1_def)
  qed
qed


lemma erase_simps [simp]:
  "erase [] i = []" "erase (x # xs) 0 = xs" "erase (x # xs) (Suc i) = x # erase xs i"
  by (simp_all add: erase_def)

lemma set_erase_subset: "set (erase v i) \<subseteq> set v"
  by (induction v arbitrary: i) (auto simp add: erase_def dest: in_set_takeD in_set_dropD)

lemma distinct_erase: "distinct v \<Longrightarrow> distinct (erase v i)"
proof (induction v arbitrary: i)
  case Nil
  then show ?case by simp
next
  case (Cons x xs)
  then show ?case using set_erase_subset [of xs] by (cases i) auto
qed

lemma erase_nth_notin: "distinct v \<Longrightarrow> i < length v \<Longrightarrow> v ! i \<notin> set (erase v i)"
proof (induction v arbitrary: i)
  case Nil
  then show ?case by simp
next
  case (Cons x xs)
  then show ?case using set_erase_subset [of xs] by (cases i) auto
qed

lemma length_erase: "i < length v \<Longrightarrow> length (erase v i) = length v - 1"
  by (simp add: erase_def)

lemma nth_erase:
  "j < length v - 1 \<Longrightarrow> erase v i ! j = (if j < i then v ! j else v ! Suc j)"
  by (auto simp add: erase_def nth_append min_def)

lemma owned_ErasePoint:
  assumes "owned t" and "i < length (task_points t)"
  shows "owned (t\<lparr>heap := (heap t)(task_points t ! i := None),
                  task_points := erase (task_points t) i\<rparr>)"
proof -
  from assms(1) have d: "distinct (task_points t)" "distinct (optional_start_points t)"
    "set (task_points t) \<inter> set (optional_start_points t) = {}"
    and live: "\<forall>a \<in> set (task_points t) \<union> set (optional_start_points t). heap t a \<noteq> None"
    by (auto simp add: owned_def)
  from d(1) assms(2) have n1: "task_points t ! i \<notin> set (erase (task_points t) i)"
    by (rule erase_nth_notin)
  from d(3) assms(2) have n2: "task_points t ! i \<notin> set (optional_start_points t)"
    by (meson disjoint_iff nth_mem)
  from d set_erase_subset [of "task_points t" i] distinct_erase [OF d(1), of i]
  have "distinct (erase (task_points t) i @ optional_start_points t)" by auto
  moreover from live n1 n2 set_erase_subset [of "task_points t" i]
  have "\<forall>a \<in> set (erase (task_points t) i @ optional_start_points t).
          ((heap t)(task_points t ! i := None)) a \<noteq> None" by auto
  ultimately show ?thesis by (simp add: owned_def)
qed

lemma owned_heap_dom:
  "owned t \<Longrightarrow> \<forall>a. (h a = None) = (heap t a = None) \<Longrightarrow> owned (t\<lparr>heap := h\<rparr>)"
  by (simp add: owned_def)

lemma owned_active: "owned (t\<lparr>active_task_point := n\<rparr>) = owned t"
  by (simp add: owned_def)

lemma neighbours_wired_frame:
  "neighbours_wired (t\<lparr>heap := h\<rparr>) i \<Longrightarrow> h' (task_points t ! i) = h (task_points t ! i) \<Longrightarrow>
   neighbours_wired (t\<lparr>heap := h'\<rparr>) i"
  by (auto simp add: neighbours_wired_def split: option.splits if_splits)

text \<open>
  Claim C5. In a task whose vectors own their points, \<^verbatim>\<open>Remove(position)\<close> with
  \<open>position\<close> below the size returns \<^verbatim>\<open>true\<close>; it erases the slot and destroys its
  object; it leaves the optional starts alone; it decrements the active index exactly when
  that index is above \<open>position\<close>, or is positive and equal to the size before the
  removal minus one; and afterwards the points in the slots \<open>position - 1\<close> and
  \<open>position\<close> (where they exist) are linked to their actual neighbours. In particular,
  removing slot 1 of four points with active index 2 leaves three points and active
  index 1.
\<close>

theorem Remove_in_range:
  assumes "owned t" and "position < length (task_points t)"
  shows "\<exists>t'. Remove t position = Some (True, t') \<and>
           task_points t' = erase (task_points t) position \<and>
           optional_start_points t' = optional_start_points t \<and>
           heap t' (task_points t ! position) = None \<and>
           active_task_point t' =
             (if active_task_point t > position \<or>
                 (active_task_point t > 0 \<and>
                  active_task_point t = length (task_points t) - 1)
              then active_task_point t - 1 else active_task_point t) \<and>
           (position < length (task_points t') \<longrightarrow> neighbours_wired t' position) \<and>
           (0 < position \<longrightarrow> neighbours_wired t' (position - 1)) \<and>
           (length (task_points t) = 4 \<and> active_task_point t = 2 \<and> position = 1 \<longrightarrow>
              length (task_points t') = 3 \<and> active_task_point t' = 1)"
proof -
  define act where "act =
    (if active_task_point t > position \<or>
        (active_task_point t > 0 \<and> active_task_point t = length (task_points t) - 1)
     then active_task_point t - 1 else active_task_point t)"
  define t1 where "t1 = t\<lparr>active_task_point := act\<rparr>"
  define t2 where "t2 = t1\<lparr>heap := (heap t1)(task_points t1 ! position := None),
                           task_points := erase (task_points t1) position\<rparr>"
  have t1_eq: "(if active_task_point t > position \<or>
        (active_task_point t > 0 \<and> active_task_point t = length (task_points t) - 1)
     then t\<lparr>active_task_point := active_task_point t - 1\<rparr> else t) = t1"
    by (simp add: t1_def act_def)
  from assms have o1: "owned t1" and l1: "position < length (task_points t1)"
    by (simp_all add: t1_def owned_def)
  from owned_ErasePoint [OF o1 l1] have o2: "owned t2" by (simp add: t2_def)
  have e: "ErasePoint t1 position = Some t2" using l1 by (simp add: ErasePoint_def t2_def)
  have len2: "length (task_points t2) = length (task_points t) - 1"
    using assms(2) by (simp add: t2_def t1_def length_erase)
  have gone2: "heap t2 (task_points t ! position) = None" by (simp add: t2_def t1_def)
  obtain t3 where t3: "(if position < length (task_points t2) then SetNeighbours t2 position
                        else Some t2) = Some t3"
    and o3: "owned t3" and f3: "t3 = t2\<lparr>heap := heap t3\<rparr>"
    and d3: "\<forall>a. (heap t3 a = None) = (heap t2 a = None)"
    and w3: "position < length (task_points t2) \<longrightarrow> neighbours_wired t3 position"
  proof (cases "position < length (task_points t2)")
    case True
    from SetNeighbours_owned [OF o2 True] obtain h' where
      "SetNeighbours t2 position = Some (t2\<lparr>heap := h'\<rparr>)"
      "\<forall>a. (h' a = None) = (heap t2 a = None)" "neighbours_wired (t2\<lparr>heap := h'\<rparr>) position"
      by blast
    with True o2 show ?thesis
      by (intro that [of "t2\<lparr>heap := h'\<rparr>"]) (simp_all add: owned_heap_dom)
  next
    case False
    then show ?thesis by (intro that [of t2]) (simp_all add: o2)
  qed
  obtain t4 where t4: "(if position \<noteq> 0 then SetNeighbours t3 (position - 1) else Some t3) = Some t4"
    and f4: "t4 = t2\<lparr>heap := heap t4\<rparr>"
    and d4: "\<forall>a. (heap t4 a = None) = (heap t2 a = None)"
    and w4: "position < length (task_points t2) \<longrightarrow> neighbours_wired t4 position"
    and w4': "0 < position \<longrightarrow> neighbours_wired t4 (position - 1)"
  proof (cases "position = 0")
    case True
    with f3 d3 w3 show ?thesis by (intro that [of t3]) simp_all
  next
    case False
    from f3 have tp3: "task_points t3 = task_points t2"
      "optional_start_points t3 = optional_start_points t2"
      by (metis OrderedTask.select_convs(3) OrderedTask.surjective OrderedTask.update_convs(1),
          metis OrderedTask.select_convs(4) OrderedTask.surjective OrderedTask.update_convs(1))
    from False assms(2) len2 have lt: "position - 1 < length (task_points t3)"
      by (simp add: tp3)
    from SetNeighbours_owned [OF o3 lt] False obtain h' where h':
      "SetNeighbours t3 (position - 1) = Some (t3\<lparr>heap := h'\<rparr>)"
      "\<forall>a. a \<notin> set (optional_start_points t3) \<longrightarrow> a \<noteq> task_points t3 ! (position - 1)
           \<longrightarrow> h' a = heap t3 a"
      "\<forall>a. (h' a = None) = (heap t3 a = None)"
      "neighbours_wired (t3\<lparr>heap := h'\<rparr>) (position - 1)"
      by blast
    have keep: "neighbours_wired (t3\<lparr>heap := h'\<rparr>) position"
      if p: "position < length (task_points t2)"
    proof -
      from o3 have d: "distinct (task_points t3)"
        "set (task_points t3) \<inter> set (optional_start_points t3) = {}"
        by (auto simp add: owned_def)
      from d(1) p lt False have "task_points t3 ! position \<noteq> task_points t3 ! (position - 1)"
        by (simp add: nth_eq_iff_index_eq tp3)
      moreover from d(2) p have "task_points t3 ! position \<notin> set (optional_start_points t3)"
        by (metis disjoint_iff nth_mem tp3(1))
      ultimately have "h' (task_points t3 ! position) = heap t3 (task_points t3 ! position)"
        using h'(2) by blast
      moreover from w3 p have "neighbours_wired (t3\<lparr>heap := heap t3\<rparr>) position" by simp
      ultimately show ?thesis by (rule neighbours_wired_frame [rotated])
    qed
    from f3 have "t3\<lparr>heap := h'\<rparr> = t2\<lparr>heap := h'\<rparr>"
      by (metis OrderedTask.update_convs(1) OrderedTask.surjective)
    with False h' keep d3 show ?thesis
      by (intro that [of "t3\<lparr>heap := h'\<rparr>"]) simp_all
  qed
  have r: "Remove t position = Some (True, t4)"
    unfolding Remove_def Let_def t1_eq using assms(2) e t3 t4 by simp
  from f4 have fields: "task_points t4 = task_points t2"
    "optional_start_points t4 = optional_start_points t2"
    "active_task_point t4 = active_task_point t2"
    by (metis OrderedTask.select_convs(3) OrderedTask.surjective OrderedTask.update_convs(1),
        metis OrderedTask.select_convs(4) OrderedTask.surjective OrderedTask.update_convs(1),
        metis OrderedTask.select_convs(5) OrderedTask.surjective OrderedTask.update_convs(1))
  have "task_points t4 = erase (task_points t) position"
    "optional_start_points t4 = optional_start_points t"
    "active_task_point t4 = act"
    by (simp_all add: fields t2_def t1_def)
  moreover from d4 gone2 have "heap t4 (task_points t ! position) = None" by simp
  moreover have "length (task_points t) = 4 \<and> active_task_point t = 2 \<and> position = 1 \<longrightarrow>
      length (task_points t4) = 3 \<and> act = 1"
    using len2 by (simp add: fields act_def)
  ultimately show ?thesis using r w4 w4' fields
    by (intro exI [of _ t4]) (simp add: act_def)
qed

text \<open>
  The theorem at the task of scenario S6: four points, the third active, slot 1 removed.
\<close>

theorem Remove_in_range_witness:
  "\<exists>t'. Remove four_point_task 1 = Some (True, t') \<and>
        task_points t' = [0, 2, 3] \<and> length (task_points t') = 3 \<and>
        active_task_point t' = 1 \<and>
        heap t' 1 = None \<and>
        neighbours_wired t' 0 \<and> neighbours_wired t' 1"
proof -
  have o: "owned four_point_task"
    by (simp add: owned_def four_point_task_def empty_task_def)
  have tps: "task_points four_point_task = [0, 1, 2, 3]"
    and act: "active_task_point four_point_task = 2"
    by (simp_all add: four_point_task_def)
  have l: "1 < length (task_points four_point_task)"
    by (simp add: tps)
  from Remove_in_range [OF o l] show ?thesis
    by (clarsimp simp add: tps act erase_def)
qed




section \<open>The pilot event\<close>

lemma SetPEV_settings:
  "SetPEV E t bt = Some (r, t1) \<Longrightarrow> ordered_settings t1 = ordered_settings t"
  by (auto simp add: SetPEV_def bind_eq_Some_conv split: if_splits option.splits)

text \<open>
  Claim C6. Let \<^verbatim>\<open>SetPEV(bt)\<close> have returned \<^verbatim>\<open>true\<close>, let the settings have
  \<open>score_pev = false\<close>, a wait time \<open>w > 0\<close> and a window \<open>p > 0\<close>, and let
  \<open>state.time\<close> be defined (with an undefined time \<^verbatim>\<open>UpdateAfterPEV\<close> returns at
  once). After \<^verbatim>\<open>UpdateAfterPEV(state, bt)\<close> the open time span starts at
  \<^verbatim>\<open>FromSinceMidnight(state.time)\<close> plus the whole minutes of \<open>w\<close>, plus one minute
  when \<open>bt.second > 0\<close>, and ends \<open>p\<close> after its start. The durations are in seconds,
  and the arithmetic of \<^verbatim>\<open>RoughTime\<close> is whatever the collaborator provides.
\<close>

theorem UpdateAfterPEV_start_window:
  assumes "SetPEV E t bt = Some (True, t1)"
    and "\<not> score_pev (start_constraints (ordered_settings t))"
    and "pev_start_wait_time (start_constraints (ordered_settings t)) = w" and "0 < w"
    and "pev_start_window (start_constraints (ordered_settings t)) = p" and "0 < p"
    and "0 \<le> time state"
  shows "open_time_span (start_constraints (ordered_settings (UpdateAfterPEV E t1 state bt))) =
           \<lparr>span_start =
              RoughTime_plus E (FromSinceMidnight E (time state))
                (FromDuration E ((w div 60 + (if second bt > 0 then 1 else 0)) * 60)),
            span_end =
              RoughTime_plus E
                (RoughTime_plus E (FromSinceMidnight E (time state))
                   (FromDuration E ((w div 60 + (if second bt > 0 then 1 else 0)) * 60)))
                (FromDuration E p)\<rparr>"
proof -
  from SetPEV_settings [OF assms(1)] have s: "ordered_settings t1 = ordered_settings t" .
  from assms(2-7) show ?thesis
    by (cases "0 < second bt") (simp_all add: UpdateAfterPEV_def pev_new_start_def Let_def s)
qed

text \<open>
  The theorem at scenario S4, with times of day counted in minutes: the pilot event at
  12:03:20, a wait of 5 minutes and a window of 10 minutes give the span from 12:09 to
  12:19.
\<close>

theorem UpdateAfterPEV_start_window_witness:
  "SetPEV E0 pev_task pev_bt
     = Some (True, pev_task\<lparr>pev_received := True, pev_receive_time := pev_bt\<rparr>) \<and>
   open_time_span (start_constraints (ordered_settings
       (UpdateAfterPEV E0 (pev_task\<lparr>pev_received := True, pev_receive_time := pev_bt\<rparr>)
          pev_state pev_bt)))
     = \<lparr>span_start = RoughTime (12 * 60 + 9), span_end = RoughTime (12 * 60 + 19)\<rparr>"
proof -
  have s: "SetPEV E0 pev_task pev_bt
     = Some (True, pev_task\<lparr>pev_received := True, pev_receive_time := pev_bt\<rparr>)"
    by (simp add: SetPEV_def pev_task_def empty_task_def IsDefined_def)
  have "open_time_span (start_constraints (ordered_settings
       (UpdateAfterPEV E0 (pev_task\<lparr>pev_received := True, pev_receive_time := pev_bt\<rparr>)
          pev_state pev_bt))) =
           \<lparr>span_start =
              RoughTime_plus E0 (FromSinceMidnight E0 (time pev_state))
                (FromDuration E0 ((300 div 60 + (if second pev_bt > 0 then 1 else 0)) * 60)),
            span_end =
              RoughTime_plus E0
                (RoughTime_plus E0 (FromSinceMidnight E0 (time pev_state))
                   (FromDuration E0 ((300 div 60 + (if second pev_bt > 0 then 1 else 0)) * 60)))
                (FromDuration E0 600)\<rparr>"
    by (rule UpdateAfterPEV_start_window [OF s])
       (simp_all add: pev_task_def empty_task_def pev_state_def)
  then show ?thesis using s by (simp add: E0_def pev_state_def pev_bt_def)
qed

section \<open>The incremental rescan\<close>

lemma unat_mult_20_21:
  fixes x :: unsigned
  assumes "unat x \<le> 200000000"
  shows "unat (x * 20) = unat x * 20" and "unat (x * 21) = unat x * 21"
proof -
  from assms have "unat x * unat (20 :: unsigned) < 2 ^ LENGTH(32)"
    and "unat x * unat (21 :: unsigned) < 2 ^ LENGTH(32)" by simp_all
  then show "unat (x * 20) = unat x * 20" and "unat (x * 21) = unat x * 21"
    by (simp_all add: unat_mult_lem [THEN iffD1])
qed

lemma rescan_condition:
  fixes last_distance cur_distance :: unsigned
  assumes "unat last_distance \<le> 200000000" and "unat cur_distance \<le> 200000000"
  shows "(last_distance < 2000 \<or> cur_distance < 2000 \<or>
          last_distance * 20 \<ge> cur_distance * 21 \<or>
          cur_distance * 20 \<ge> last_distance * 21) =
         (\<not> (2000 \<le> unat last_distance \<and> 2000 \<le> unat cur_distance \<and>
             20 * unat last_distance < 21 * unat cur_distance \<and>
             20 * unat cur_distance < 21 * unat last_distance))"
proof -
  have m: "unat (last_distance * 20) = unat last_distance * 20"
    "unat (last_distance * 21) = unat last_distance * 21"
    "unat (cur_distance * 20) = unat cur_distance * 20"
    "unat (cur_distance * 21) = unat cur_distance * 21"
    by (simp_all add: unat_mult_20_21 [OF assms(1)] unat_mult_20_21 [OF assms(2)])
  show ?thesis
    by (simp add: word_less_nat_alt word_le_nat_alt m) linarith
qed

lemma RunDijsktraMin_effect:
  "RunDijsktraMin E t loc = Some (b, t') \<Longrightarrow>
   dijkstra_min_runs t' =
     (if 2 \<le> length (task_points t) then Suc (dijkstra_min_runs t) else dijkstra_min_runs t) \<and>
   task_points t' = task_points t"
  by (auto simp add: RunDijsktraMin_def Let_def bind_eq_Some_conv
      split: if_splits option.splits)

lemma scan_min_front_effect:
  "scan_min_front E t = Some (d, t') \<Longrightarrow>
   dijkstra_min_runs t' = dijkstra_min_runs t \<and>
   last_min_location t' = last_min_location t \<and>
   (\<exists>a. vec_front (task_points t) = Some a \<and> (d, heap t') = tp_ScanDistanceMin E (heap t) a)"
  by (auto simp add: scan_min_front_def bind_eq_Some_conv case_prod_beta)

lemma ScanDistanceMin_full_effect:
  assumes "ScanDistanceMin E t loc True = Some (d, t')"
  shows "last_min_location t' = loc \<and>
         dijkstra_min_runs t' =
           (if 2 \<le> length (task_points t) then Suc (dijkstra_min_runs t)
            else dijkstra_min_runs t)"
proof -
  have "scan_min_decide E t loc True = Some True" by (simp add: scan_min_decide_def)
  with assms obtain b t1 where r: "RunDijsktraMin E t loc = Some (b, t1)"
    and f: "scan_min_front E (t1\<lparr>last_min_location := loc\<rparr>) = Some (d, t')"
    by (auto simp add: ScanDistanceMin_def bind_eq_Some_conv)
  from scan_min_front_effect [OF f] RunDijsktraMin_effect [OF r] show ?thesis by simp
qed

text \<open>
  Claim C1, as amended. Take a call \<^verbatim>\<open>ScanDistanceMin(location, false)\<close> with both
  locations valid, a flat square distance above 1 between them, and a live active point;
  let \<open>last_distance\<close> and \<open>cur_distance\<close> be the distances of \<open>last_min_location\<close>
  and of \<open>location\<close> to it, truncated to whole metres (below 200000 km, so that the
  unsigned products do not wrap). The call only reads the cached distance
  (\<open>scan_min_front\<close>: no solver call, \<open>last_min_location\<close> kept) exactly when both
  truncated distances are at least 2000 and each is less than 21/20 of the other;
  otherwise it does what \<^verbatim>\<open>ScanDistanceMin(location, true)\<close> does, which sets
  \<open>last_min_location\<close> to the location and calls the solver once if the task has two
  points or more (and not at all if it has one). From 10000 m, 9900 m is read from the
  cache and 8500 m is solved.
\<close>

theorem ScanDistanceMin_incremental:
  assumes "IsValid loc" and "IsValid (last_min_location t)"
    and "DistanceIsSignificant E t loc (last_min_location t)"
    and "GetActiveTaskPoint t = Some a" and "heap t a = Some p"
    and "to_unsigned (Distance E (last_min_location t) (tp_location p)) = Some last_distance"
    and "to_unsigned (Distance E loc (tp_location p)) = Some cur_distance"
    and "unat last_distance \<le> 200000000" and "unat cur_distance \<le> 200000000"
  shows "ScanDistanceMin E t loc False =
           (if 2000 \<le> unat last_distance \<and> 2000 \<le> unat cur_distance \<and>
               20 * unat last_distance < 21 * unat cur_distance \<and>
               20 * unat cur_distance < 21 * unat last_distance
            then scan_min_front E t
            else ScanDistanceMin E t loc True) \<and>
         (\<forall>d t'. scan_min_front E t = Some (d, t') \<longrightarrow>
            dijkstra_min_runs t' = dijkstra_min_runs t \<and>
            last_min_location t' = last_min_location t \<and>
            (\<exists>fa. vec_front (task_points t) = Some fa \<and>
                  (d, heap t') = tp_ScanDistanceMin E (heap t) fa)) \<and>
         (\<forall>d t'. ScanDistanceMin E t loc True = Some (d, t') \<longrightarrow>
            last_min_location t' = loc \<and>
            dijkstra_min_runs t' =
              (if 2 \<le> length (task_points t) then Suc (dijkstra_min_runs t)
               else dijkstra_min_runs t)) \<and>
         (unat last_distance = 10000 \<and> unat cur_distance = 9900 \<longrightarrow>
            ScanDistanceMin E t loc False = scan_min_front E t) \<and>
         (unat last_distance = 10000 \<and> unat cur_distance = 8500 \<longrightarrow>
            ScanDistanceMin E t loc False = ScanDistanceMin E t loc True)"
proof -
  define skip where "skip =
    (2000 \<le> unat last_distance \<and> 2000 \<le> unat cur_distance \<and>
     20 * unat last_distance < 21 * unat cur_distance \<and>
     20 * unat cur_distance < 21 * unat last_distance)"
  have dec: "scan_min_decide E t loc False = Some (\<not> skip)"
    using assms(1-7) rescan_condition [OF assms(8,9)]
    by (simp add: scan_min_decide_def skip_def)
  have full: "scan_min_decide E t loc True = Some True" by (simp add: scan_min_decide_def)
  have eq: "ScanDistanceMin E t loc False =
            (if skip then scan_min_front E t else ScanDistanceMin E t loc True)"
    by (simp add: ScanDistanceMin_def dec full)
  have s1: "unat last_distance = 10000 \<and> unat cur_distance = 9900 \<longrightarrow> skip"
    by (simp add: skip_def)
  have s2: "unat last_distance = 10000 \<and> unat cur_distance = 8500 \<longrightarrow> \<not> skip"
    by (simp add: skip_def)
  have c1: "\<forall>d t'. scan_min_front E t = Some (d, t') \<longrightarrow>
            dijkstra_min_runs t' = dijkstra_min_runs t \<and>
            last_min_location t' = last_min_location t \<and>
            (\<exists>fa. vec_front (task_points t) = Some fa \<and>
                  (d, heap t') = tp_ScanDistanceMin E (heap t) fa)"
    using scan_min_front_effect [of E t] by blast
  have c2: "\<forall>d t'. ScanDistanceMin E t loc True = Some (d, t') \<longrightarrow>
            last_min_location t' = loc \<and>
            dijkstra_min_runs t' =
              (if 2 \<le> length (task_points t) then Suc (dijkstra_min_runs t)
               else dijkstra_min_runs t)"
    using ScanDistanceMin_full_effect [of E t loc] by blast
  from eq s1 have c3: "unat last_distance = 10000 \<and> unat cur_distance = 9900 \<longrightarrow>
            ScanDistanceMin E t loc False = scan_min_front E t" by simp
  from eq s2 have c4: "unat last_distance = 10000 \<and> unat cur_distance = 8500 \<longrightarrow>
            ScanDistanceMin E t loc False = ScanDistanceMin E t loc True" by simp
  from eq c1 c2 c3 c4 show ?thesis unfolding skip_def by (intro conjI)
qed

lemma rescan_task_facts:
  "IsValid (last_min_location (rescan_task d))"
  "last_min_location (rescan_task d) = GeoPoint d 0"
  "GetActiveTaskPoint (rescan_task d) = Some 0"
  "heap (rescan_task d) 0 = Some (point START (Cylinder 500) (GeoPoint 0 0))"
  "tp_location (point START (Cylinder 500) (GeoPoint 0 0)) = GeoPoint 0 0"
  "length (task_points (rescan_task d)) = 2"
  "dijkstra_min_runs (rescan_task d) = 0"
  by (simp_all add: rescan_task_def empty_task_def GetActiveTaskPoint_def point_def)

lemma flat_front: "scan_min_front E_flat (rescan_task d) = Some (0, rescan_task d)"
  by (simp add: scan_min_front_def vec_front_def rescan_task_def empty_task_def E_flat_def E0_def)

lemma flat_full:
  "ScanDistanceMin E_flat (rescan_task d) loc True =
   Some (0, rescan_task d\<lparr>dijkstra_min_runs := 1, last_min_location := loc\<rparr>)"
  by (simp add: ScanDistanceMin_def scan_min_decide_def RunDijsktraMin_def scan_min_front_def
        vec_front_def Let_def rescan_task_def empty_task_def E_flat_def E0_def)

text \<open>
  The theorem at scenario S5, in the flat world: the last full solve was made 10000 m from
  the active point. At 9900 m the call returns the cached value and changes nothing; at
  8500 m it calls the solver and moves \<open>last_min_location\<close>.
\<close>

theorem ScanDistanceMin_incremental_witness:
  "ScanDistanceMin E_flat (rescan_task 10000) (GeoPoint 9900 0) False
     = Some (0, rescan_task 10000) \<and>
   ScanDistanceMin E_flat (rescan_task 10000) (GeoPoint 8500 0) False
     = Some (0, rescan_task 10000\<lparr>dijkstra_min_runs := 1,
                                   last_min_location := GeoPoint 8500 0\<rparr>)"
proof -
  have sig: "DistanceIsSignificant E_flat (rescan_task 10000) g (last_min_location (rescan_task 10000))"
    if "g = GeoPoint 9900 0 \<or> g = GeoPoint 8500 0" for g
    using that
    by (auto simp add: DistanceIsSignificant_def DistanceIsSignificant_sp_def mk_SearchPoint_def
        flat_square_distance_def rescan_task_facts E_flat_def)
  have l: "to_unsigned (Distance E_flat (last_min_location (rescan_task 10000)) (GeoPoint 0 0))
           = Some 10000"
    by (simp add: to_unsigned_def rescan_task_facts E_flat_def)
  have c1: "to_unsigned (Distance E_flat (GeoPoint 9900 0) (GeoPoint 0 0)) = Some 9900"
    and c2: "to_unsigned (Distance E_flat (GeoPoint 8500 0) (GeoPoint 0 0)) = Some 8500"
    by (simp_all add: to_unsigned_def E_flat_def)
  have "ScanDistanceMin E_flat (rescan_task 10000) (GeoPoint 9900 0) False
        = scan_min_front E_flat (rescan_task 10000)"
    using ScanDistanceMin_incremental [where E = E_flat and t = "rescan_task 10000"
        and loc = "GeoPoint 9900 0" and a = 0 and last_distance = 10000 and cur_distance = 9900
        and p = "point START (Cylinder 500) (GeoPoint 0 0)"]
      sig l c1
    by (simp add: rescan_task_facts)
  moreover have "ScanDistanceMin E_flat (rescan_task 10000) (GeoPoint 8500 0) False
        = ScanDistanceMin E_flat (rescan_task 10000) (GeoPoint 8500 0) True"
    using ScanDistanceMin_incremental [where E = E_flat and t = "rescan_task 10000"
        and loc = "GeoPoint 8500 0" and a = 0 and last_distance = 10000 and cur_distance = 8500
        and p = "point START (Cylinder 500) (GeoPoint 0 0)"]
      sig l c2
    by (simp add: rescan_task_facts)
  ultimately show ?thesis by (simp add: flat_front flat_full)
qed

text \<open>
  The claim as the spec words it lets the solver be skipped only when both distances
  exceed 2000 m. With the last solve 2000 m east of the active point and the aircraft now
  2000 m west of it, the move is significant, neither distance exceeds 2000 m, and the
  call still skips the solver: it returns the task unchanged, where a full scan would
  count a solver call and move \<open>last_min_location\<close>. The code tests
  \<^verbatim>\<open>last_distance < 2000\<close> on the truncated distances.
\<close>

theorem ScanDistanceMin_counterexample:
  "IsValid (GeoPoint (- 2000) 0) \<and> IsValid (last_min_location (rescan_task 2000)) \<and>
   DistanceIsSignificant E_flat (rescan_task 2000) (GeoPoint (- 2000) 0)
     (last_min_location (rescan_task 2000)) \<and>
   GetActiveTaskPoint (rescan_task 2000) = Some 0 \<and>
   Distance E_flat (last_min_location (rescan_task 2000)) (GeoPoint 0 0) = 2000 \<and>
   Distance E_flat (GeoPoint (- 2000) 0) (GeoPoint 0 0) = 2000 \<and>
   ScanDistanceMin E_flat (rescan_task 2000) (GeoPoint (- 2000) 0) False
     = Some (0, rescan_task 2000) \<and>
   ScanDistanceMin E_flat (rescan_task 2000) (GeoPoint (- 2000) 0) True
     = Some (0, rescan_task 2000\<lparr>dijkstra_min_runs := 1,
                                  last_min_location := GeoPoint (- 2000) 0\<rparr>)"
proof -
  have "ScanDistanceMin E_flat (rescan_task 2000) (GeoPoint (- 2000) 0) False
     = Some (0, rescan_task 2000)"
    by (simp add: ScanDistanceMin_def scan_min_decide_def scan_min_front_def
        DistanceIsSignificant_def DistanceIsSignificant_sp_def mk_SearchPoint_def
        flat_square_distance_def GetActiveTaskPoint_def to_unsigned_def
        vec_front_def Let_def rescan_task_def empty_task_def point_def E_flat_def E0_def)
  moreover have "DistanceIsSignificant E_flat (rescan_task 2000) (GeoPoint (- 2000) 0)
     (last_min_location (rescan_task 2000))"
    by (simp add: rescan_task_facts DistanceIsSignificant_def
        DistanceIsSignificant_sp_def mk_SearchPoint_def flat_square_distance_def E_flat_def)
  moreover have "Distance E_flat (last_min_location (rescan_task 2000)) (GeoPoint 0 0) = 2000"
    "Distance E_flat (GeoPoint (- 2000) 0) (GeoPoint 0 0) = 2000"
    by (simp_all add: rescan_task_facts E_flat_def)
  ultimately show ?thesis
    by (simp add: flat_full rescan_task_facts)
qed

section \<open>The transitions\<close>

subsection \<open>What the parts of \<^verbatim>\<open>CheckTransitions\<close> leave alone\<close>

lemma quiet_step_refl: "quiet_step t t"
  by (simp add: quiet_step_def)

lemma quiet_step_trans: "quiet_step t t1 \<Longrightarrow> quiet_step t1 t2 \<Longrightarrow> quiet_step t t2"
  by (auto simp add: quiet_step_def)

lemma same_points_refl: "same_points t t"
  by (simp add: same_points_def)

lemma same_points_trans: "same_points t t1 \<Longrightarrow> same_points t1 t2 \<Longrightarrow> same_points t t2"
  by (simp add: same_points_def)

lemma undisturbed_refl: "undisturbed t t"
  by (simp add: undisturbed_def quiet_step_refl same_points_refl)

lemma undisturbed_trans: "undisturbed t t1 \<Longrightarrow> undisturbed t1 t2 \<Longrightarrow> undisturbed t t2"
  by (auto simp add: undisturbed_def intro: quiet_step_trans same_points_trans)

lemma undisturbed_emit:
  "e \<noteq> TaskStart \<Longrightarrow> e \<noteq> TaskFinish \<Longrightarrow> undisturbed t (emit t e)"
  by (simp add: emit_def undisturbed_def quiet_step_def same_points_def)

lemma undisturbed_heap: "undisturbed t (t\<lparr>heap := h\<rparr>)"
  by (simp add: undisturbed_def quiet_step_def same_points_def)

lemma UpdateStartTransition_frame:
  "UpdateStartTransition E t state a = Some t' \<Longrightarrow> undisturbed t t'"
  by (auto simp add: UpdateStartTransition_def bind_eq_Some_conv undisturbed_heap
      undisturbed_refl split: if_splits)

lemma enter_step_frame:
  "enter_step E t a state state_last nearby = Some (b, t') \<Longrightarrow> undisturbed t t'"
  by (auto simp add: enter_step_def bind_eq_Some_conv case_prod_beta Let_def
      undisturbed_refl undisturbed_heap
      intro!: undisturbed_trans [OF undisturbed_heap undisturbed_emit] split: if_splits)

lemma exit_step_frame:
  "exit_step E t a state state_last pev nearby = Some (b, t') \<Longrightarrow> undisturbed t t'"
  by (auto simp add: exit_step_def bind_eq_Some_conv case_prod_beta Let_def
      undisturbed_refl undisturbed_heap
      intro!: undisturbed_trans [OF undisturbed_heap undisturbed_emit] split: if_splits)

lemma sample_step_frame:
  "sample_step E t a state nearby = Some (b, t') \<Longrightarrow> undisturbed t t'"
  by (auto simp add: sample_step_def bind_eq_Some_conv case_prod_beta Let_def
      undisturbed_heap split: if_splits)

lemma CheckTransitionPoint_frame:
  assumes "CheckTransitionPoint E t a state state_last bb_now bb_last en ex pev is_start
           = Some (r, en', ex', t')"
  shows "undisturbed t t'"
proof -
  from assms have "\<exists>nearby b1 t1 b2 t2 t3.
      enter_step E t a state state_last nearby = Some (b1, t1) \<and>
      exit_step E t1 a state state_last pev nearby = Some (b2, t2) \<and>
      (if is_start then UpdateStartTransition E t2 state a else Some t2) = Some t3 \<and>
      sample_step E t3 a state nearby = Some (r, t')"
    unfolding CheckTransitionPoint_def Let_def
    by (clarsimp simp add: bind_eq_Some_conv split: if_splits; blast)
  then obtain nearby b1 t1 b2 t2 t3 where
    s1: "enter_step E t a state state_last nearby = Some (b1, t1)"
    and s2: "exit_step E t1 a state state_last pev nearby = Some (b2, t2)"
    and s3: "(if is_start then UpdateStartTransition E t2 state a else Some t2) = Some t3"
    and s4: "sample_step E t3 a state nearby = Some (r, t')"
    by (elim exE conjE)
  from s3 have "undisturbed t2 t3"
    by (auto simp add: UpdateStartTransition_frame undisturbed_refl split: if_splits)
  with enter_step_frame [OF s1] exit_step_frame [OF s2] sample_step_frame [OF s4]
  show ?thesis by (blast intro: undisturbed_trans)
qed

lemma undisturbed_fields:
  "undisturbed t t' \<Longrightarrow>
   task_points t' = task_points t \<and> optional_start_points t' = optional_start_points t \<and>
   active_task_point t' = active_task_point t \<and> task_events t' = task_events t"
  by (simp add: undisturbed_def same_points_def quiet_step_def)

lemma SetNeighbours_heap_only: "SetNeighbours t i = Some t' \<Longrightarrow> \<exists>h. t' = t\<lparr>heap := h\<rparr>"
  by (auto simp add: SetNeighbours_def Let_def bind_eq_Some_conv split: if_splits
      intro: exI [of _ "heap t"])

lemma SetNeighbours_frame: "SetNeighbours t i = Some t' \<Longrightarrow> undisturbed t t'"
  by (auto dest!: SetNeighbours_heap_only simp add: undisturbed_heap)

lemma ScanStartFinish_frame: "ScanStartFinish t = Some t' \<Longrightarrow> undisturbed t t'"
  by (auto simp add: ScanStartFinish_def Let_def bind_eq_Some_conv undisturbed_def
      quiet_step_def same_points_def split: if_splits)

lemma UpdateStatsGeometry_frame: "UpdateStatsGeometry E t = Some t' \<Longrightarrow> undisturbed t t'"
proof -
  assume "UpdateStatsGeometry E t = Some t'"
  then obtain t1 st where "ScanStartFinish t = Some t1" and "t' = t1\<lparr>stats := st\<rparr>"
    by (auto simp add: UpdateStatsGeometry_def Let_def bind_eq_Some_conv)
  moreover have "undisturbed t1 (t1\<lparr>stats := st\<rparr>)"
    by (simp add: undisturbed_def quiet_step_def same_points_def)
  ultimately show ?thesis by (blast intro: undisturbed_trans ScanStartFinish_frame)
qed

lemma UpdateGeometry_frame: "UpdateGeometry E t = Some t' \<Longrightarrow> undisturbed t t'"
proof -
  assume a: "UpdateGeometry E t = Some t'"
  then obtain t1 where t1: "UpdateStatsGeometry E t = Some t1"
    by (auto simp add: UpdateGeometry_def bind_eq_Some_conv)
  have "undisturbed t1 t'"
    using a t1
    by (auto simp add: UpdateGeometry_def Let_def bind_eq_Some_conv case_prod_beta
        undisturbed_def quiet_step_def same_points_def split: if_splits)
  with UpdateStatsGeometry_frame [OF t1] show ?thesis by (rule undisturbed_trans)
qed

lemma SelectOptionalStart_frame:
  assumes "SelectOptionalStart E t k = Some t'"
  shows "start_selected t t' k \<and> quiet_step t t' \<and> active_task_point t' = active_task_point t"
proof -
  from assms have k: "k < length (optional_start_points t)"
    by (auto simp add: SelectOptionalStart_def split: if_splits)
  from assms k obtain old_start where f: "vec_front (task_points t) = Some old_start"
    by (auto simp add: SelectOptionalStart_def bind_eq_Some_conv)
  then have ne: "task_points t \<noteq> []" and hd: "hd (task_points t) = old_start"
    by (auto simp add: vec_front_def split: list.splits)
  define t1 where "t1 = t\<lparr>task_points := ((optional_start_points t @ [old_start]) ! k)
                                            # tl (task_points t),
                         optional_start_points := erase (optional_start_points t @ [old_start]) k\<rparr>"
  from assms k f obtain t2 t3 where
    s2: "SetNeighbours t1 0 = Some t2"
    and s3: "(if length (task_points t2) > 1 then SetNeighbours t2 1 else Some t2) = Some t3"
    and s4: "UpdateGeometry E t3 = Some t'"
    unfolding SelectOptionalStart_def Let_def t1_def
    by (auto simp add: bind_eq_Some_conv)
  from s3 have "undisturbed t2 t3"
    by (auto simp add: SetNeighbours_frame undisturbed_refl split: if_splits)
  with SetNeighbours_frame [OF s2] UpdateGeometry_frame [OF s4]
  have u: "undisturbed t1 t'" by (blast intro: undisturbed_trans)
  have sel: "start_selected t t1 k"
    using k ne hd by (simp add: start_selected_def t1_def erase_def nth_append)
  have q: "quiet_step t t1" "active_task_point t1 = active_task_point t"
    by (simp_all add: quiet_step_def t1_def)
  from u sel q show ?thesis
    by (auto simp add: undisturbed_def same_points_def start_selected_def
        intro: quiet_step_trans)
qed

lemma start_selected_cong:
  "start_selected t1 t2 k \<Longrightarrow> same_points t t1 \<Longrightarrow> same_points t2 t' \<Longrightarrow> start_selected t t' k"
  by (simp add: start_selected_def same_points_def)

lemma optional_start_loop_frame:
  "optional_start_loop E state state_last bb_now bb_last pev rest k fu en ex t
     = Some (fu', en', ex', t') \<Longrightarrow>
   quiet_step t t' \<and> active_task_point t' = active_task_point t \<and>
   (same_points t t' \<or> (\<exists>j. start_selected t t' j))"
proof (induction rest arbitrary: k fu en ex t)
  case Nil
  then show ?case by (simp add: quiet_step_refl same_points_refl)
next
  case (Cons a rest)
  from Cons.prems obtain r en1 ex1 t1 where
    c: "CheckTransitionPoint E t a state state_last bb_now bb_last en ex pev True
        = Some (r, en1, ex1, t1)"
    and rest: "(if en1 \<or> ex1
          then SelectOptionalStart E t1 k \<bind> (\<lambda>t2. Some (fu \<or> r, en1, ex1, t2))
          else optional_start_loop E state state_last bb_now bb_last pev rest (Suc k)
                 (fu \<or> r) en1 ex1 t1) = Some (fu', en', ex', t')"
    by (auto simp add: bind_eq_Some_conv)
  from CheckTransitionPoint_frame [OF c] have u: "undisturbed t t1" .
  then have q: "quiet_step t t1" "same_points t t1" "active_task_point t1 = active_task_point t"
    by (simp_all add: undisturbed_def)
  show ?case
  proof (cases "en1 \<or> ex1")
    case True
    with rest have "SelectOptionalStart E t1 k = Some t'"
      by (auto simp add: bind_eq_Some_conv)
    from SelectOptionalStart_frame [OF this] q show ?thesis
      by (auto intro: quiet_step_trans start_selected_cong same_points_refl)
  next
    case False
    with rest have "optional_start_loop E state state_last bb_now bb_last pev rest (Suc k)
                 (fu \<or> r) en1 ex1 t1 = Some (fu', en', ex', t')" by simp
    from Cons.IH [OF this] q show ?thesis
      by (auto intro: quiet_step_trans start_selected_cong same_points_refl same_points_trans)
  qed
qed

lemma examined_without_transition_frame:
  "examined_without_transition E state state_last bb_now bb_last pev as fu t = Some (fu', t')
   \<Longrightarrow> undisturbed t t'"
proof (induction as arbitrary: fu t)
  case Nil
  then show ?case by (simp add: undisturbed_refl)
next
  case (Cons a as)
  from Cons.prems obtain r en1 ex1 t1 where
    c: "CheckTransitionPoint E t a state state_last bb_now bb_last False False pev True
        = Some (r, en1, ex1, t1)"
    and rest: "examined_without_transition E state state_last bb_now bb_last pev as (fu \<or> r) t1
        = Some (fu', t')"
    by (auto split: option.splits if_splits)
  from CheckTransitionPoint_frame [OF c] Cons.IH [OF rest] show ?case
    by (rule undisturbed_trans)
qed

lemma optional_start_loop_first:
  assumes "examined_without_transition E state state_last bb_now bb_last pev pre fu0 t
           = Some (fu, tk)"
    and "CheckTransitionPoint E tk a state state_last bb_now bb_last False False pev True
         = Some (r, en, ex, tk')"
    and "en \<or> ex"
  shows "optional_start_loop E state state_last bb_now bb_last pev (pre @ a # post) k
           fu0 False False t
         = SelectOptionalStart E tk' (k + length pre) \<bind> (\<lambda>t2. Some (fu \<or> r, en, ex, t2))"
  using assms
proof (induction pre arbitrary: fu0 t k)
  case Nil
  then show ?case by auto
next
  case (Cons b pre)
  from Cons.prems(1) obtain r1 en1 ex1 t1 where
    c: "CheckTransitionPoint E t b state state_last bb_now bb_last False False pev True
        = Some (r1, en1, ex1, t1)"
    and no: "\<not> (en1 \<or> ex1)"
    and rest: "examined_without_transition E state state_last bb_now bb_last pev pre
                 (fu0 \<or> r1) t1 = Some (fu, tk)"
    by (auto split: option.splits if_splits)
  from Cons.IH [OF rest Cons.prems(2,3), of "Suc k"] c no show ?case by simp
qed

lemma SetActiveTaskPoint_frame:
  "quiet_step t (SetActiveTaskPoint E t n) \<and> same_points t (SetActiveTaskPoint E t n) \<and>
   active_task_point (SetActiveTaskPoint E t n) =
     (if n < length (task_points t) then n else active_task_point t)"
  by (simp add: SetActiveTaskPoint_def quiet_step_def same_points_def)

lemma advance_block_frame:
  assumes "advance_block E state n_task i en ex fu t = Some (inc, fu', t')"
  shows "quiet_step t t' \<and> same_points t t' \<and>
         (inc \<longrightarrow> i + 1 < n_task \<and>
                 active_task_point t' =
                   (if nat (i + 1) < length (task_points t) then nat (i + 1)
                    else active_task_point t)) \<and>
         (\<not> inc \<longrightarrow> active_task_point t' = active_task_point t)"
proof -
  define adv where "adv = snd (adv_CheckReadyToAdvance E (task_advance t) (heap t)
                                 (task_points t ! nat i) state en ex)"
  define ready where "ready = fst (adv_CheckReadyToAdvance E (task_advance t) (heap t)
                                 (task_points t ! nat i) state en ex)"
  define t1 where "t1 = t\<lparr>task_advance := adv\<rparr>"
  define t2 where "t2 = t1\<lparr>task_advance := adv_SetArmed E (task_advance t1) False\<rparr>"
  define t3 where "t3 = SetActiveTaskPoint E t2 (nat (i + 1))"
  have f1: "quiet_step t t1" "same_points t t1" "active_task_point t1 = active_task_point t"
    "quiet_step t t2" "same_points t t2" "active_task_point t2 = active_task_point t"
    by (simp_all add: t1_def t2_def quiet_step_def same_points_def)
  have f3: "quiet_step t t3" "same_points t t3"
    "active_task_point t3 = (if nat (i + 1) < length (task_points t) then nat (i + 1)
                    else active_task_point t)"
    using SetActiveTaskPoint_frame [of t2 E "nat (i + 1)"] f1
    by (auto simp add: t3_def same_points_def intro: quiet_step_trans)
  from assms have a: "vec_at (task_points t) (nat i) = Some (task_points t ! nat i)"
    by (auto simp add: advance_block_def vec_at_def bind_eq_Some_conv split: if_splits)
  show ?thesis
  proof (cases ready)
    case False
    with assms a have "\<not> inc \<and> (t' = t1 \<or> t' = emit t1 (RequestArm (task_points t ! nat i)))"
      unfolding advance_block_def Let_def
      by (auto simp add: bind_eq_Some_conv case_prod_beta ready_def t1_def adv_def
          split: if_splits)
    with f1 undisturbed_emit [of "RequestArm (task_points t ! nat i)" t1] show ?thesis
      by (auto simp add: undisturbed_def same_points_def intro: quiet_step_trans)
  next
    case True
    show ?thesis
    proof (cases "i + 1 < n_task")
      case False
      with True assms a have "\<not> inc \<and> t' = t2"
        unfolding advance_block_def Let_def
        by (auto simp add: bind_eq_Some_conv case_prod_beta ready_def t1_def t2_def adv_def
            split: if_splits)
      with f1 show ?thesis by simp
    next
      case lt: True
      with True assms a have "inc \<and> (\<exists>h. t' = t3\<lparr>heap := h\<rparr> \<or>
             (\<exists>e. e \<noteq> TaskStart \<and> e \<noteq> TaskFinish \<and> t' = emit (t3\<lparr>heap := h\<rparr>) e))"
        unfolding advance_block_def Let_def
        by (auto simp add: bind_eq_Some_conv case_prod_beta ready_def t1_def t2_def t3_def adv_def
            split: if_splits)
      then obtain h where inc: inc and
        t': "t' = t3\<lparr>heap := h\<rparr> \<or>
             (\<exists>e. e \<noteq> TaskStart \<and> e \<noteq> TaskFinish \<and> t' = emit (t3\<lparr>heap := h\<rparr>) e)"
        by blast
      have "undisturbed t3 t'"
        using t' undisturbed_heap [of t3 h]
        by (auto intro: undisturbed_trans undisturbed_emit)
      with f3 inc lt show ?thesis
        by (auto simp add: undisturbed_def same_points_def intro: quiet_step_trans)
    qed
  qed
qed

lemma start_selected_length:
  "start_selected t t' k \<Longrightarrow>
   length (task_points t') = length (task_points t) \<and>
   length (optional_start_points t') = length (optional_start_points t)"
  by (auto simp add: start_selected_def)

lemma transitions_body_frame:
  assumes "transitions_body E state state_last bb_now bb_last n_task i (fu, t)
           = Some (inc, fu', t')"
    and "n_task = int (length (task_points t))" and "0 \<le> i"
  shows "quiet_step t t' \<and>
         length (task_points t') = length (task_points t) \<and>
         (i \<noteq> 0 \<longrightarrow> same_points t t') \<and>
         (same_points t t' \<or> (\<exists>j. start_selected t t' j)) \<and>
         (inc \<longrightarrow> active_task_point t' = active_task_point t + 1 \<and>
                 active_task_point t' < length (task_points t) \<and>
                 i = int (active_task_point t)) \<and>
         (\<not> inc \<longrightarrow> active_task_point t' = active_task_point t)"
proof -
  from assms(1) obtain r0 en0 ex0 t1 a r1 en1 ex1 t2 where
    s1: "(if i = 0
          then CheckTransitionOptionalStart E t state state_last bb_now bb_last
                 False False (pev_based_advance_ready (stats t))
          else Some (False, False, False, t)) = Some (r0, en0, ex0, t1)"
    and s2: "CheckTransitionPoint E t1 a state state_last bb_now bb_last en0 ex0
              (pev_based_advance_ready (stats t1)) (i = 0) = Some (r1, en1, ex1, t2)"
    and s3: "(if i = int (active_task_point t2)
              then advance_block E state n_task i en1 ex1 (fu \<or> r0 \<or> r1) t2
              else Some (False, fu \<or> r0 \<or> r1, t2)) = Some (inc, fu', t')"
    unfolding transitions_body_def Let_def
    by (auto simp add: bind_eq_Some_conv)
  have p1: "quiet_step t t1 \<and> active_task_point t1 = active_task_point t \<and>
            (same_points t t1 \<or> (\<exists>j. start_selected t t1 j)) \<and>
            (i \<noteq> 0 \<longrightarrow> same_points t t1)"
  proof (cases "i = 0")
    case True
    with s1 optional_start_loop_frame show ?thesis
      unfolding CheckTransitionOptionalStart_def by fastforce
  next
    case False
    with s1 show ?thesis by (auto simp add: quiet_step_refl same_points_refl)
  qed
  from CheckTransitionPoint_frame [OF s2] have p2: "undisturbed t1 t2" .
  have p3: "quiet_step t2 t' \<and> same_points t2 t' \<and>
         (inc \<longrightarrow> i + 1 < n_task \<and> i = int (active_task_point t2) \<and>
                 active_task_point t' =
                   (if nat (i + 1) < length (task_points t2) then nat (i + 1)
                    else active_task_point t2)) \<and>
         (\<not> inc \<longrightarrow> active_task_point t' = active_task_point t2)"
  proof (cases "i = int (active_task_point t2)")
    case True
    with s3 have "advance_block E state n_task i en1 ex1 (fu \<or> r0 \<or> r1) t2
                  = Some (inc, fu', t')" by simp
    from advance_block_frame [OF this] True show ?thesis by simp
  next
    case False
    with s3 show ?thesis by (auto simp add: quiet_step_refl same_points_refl)
  qed
  from p1 p2 have len2: "length (task_points t2) = length (task_points t)"
    and act2: "active_task_point t2 = active_task_point t"
    by (auto simp add: undisturbed_def same_points_def dest: start_selected_length)
  from p1 p2 p3 have q: "quiet_step t t'"
    by (auto simp add: undisturbed_def intro: quiet_step_trans)
  from p2 p3 have sp: "same_points t1 t'"
    by (auto simp add: undisturbed_def intro: same_points_trans)
  with p1 have lists: "(same_points t t' \<or> (\<exists>j. start_selected t t' j)) \<and>
            (i \<noteq> 0 \<longrightarrow> same_points t t')"
    by (auto intro: same_points_trans start_selected_cong same_points_refl)
  from sp p1 have len: "length (task_points t') = length (task_points t)"
    by (auto simp add: same_points_def dest: start_selected_length)
  have inc: "inc \<longrightarrow> active_task_point t' = active_task_point t + 1 \<and>
                 active_task_point t' < length (task_points t) \<and>
                 i = int (active_task_point t)"
  proof
    assume inc
    with p3 have a: "i + 1 < n_task" "i = int (active_task_point t2)"
      "active_task_point t' =
                   (if nat (i + 1) < length (task_points t2) then nat (i + 1)
                    else active_task_point t2)" by simp_all
    from a(1) assms(2,3) len2 have "nat (i + 1) < length (task_points t2)" by simp
    with a act2 len2 show "active_task_point t' = active_task_point t + 1 \<and>
                 active_task_point t' < length (task_points t) \<and>
                 i = int (active_task_point t)" by (simp add: nat_add_distrib)
  qed
  from p3 act2 have ninc: "\<not> inc \<longrightarrow> active_task_point t' = active_task_point t" by simp
  from q len lists inc ninc show ?thesis by blast
qed

lemma transitions_loop_frame:
  "transitions_loop E state state_last bb_now bb_last n_task t_max i acc = Some acc' \<Longrightarrow>
   n_task = int (length (task_points (snd acc))) \<Longrightarrow> 0 \<le> i \<Longrightarrow>
   quiet_step (snd acc) (snd acc') \<and>
   length (task_points (snd acc')) = length (task_points (snd acc)) \<and>
   active_task_point (snd acc) \<le> active_task_point (snd acc') \<and>
   (active_task_point (snd acc) < length (task_points (snd acc)) \<longrightarrow>
      active_task_point (snd acc') < length (task_points (snd acc))) \<and>
   (0 < i \<longrightarrow> same_points (snd acc) (snd acc')) \<and>
   (same_points (snd acc) (snd acc') \<or> (\<exists>j. start_selected (snd acc) (snd acc') j))"
proof (induction E state state_last bb_now bb_last n_task t_max i acc arbitrary: acc'
    rule: transitions_loop.induct)
  case (1 E state state_last bb_now bb_last n_task t_max i acc)
  show ?case
  proof (cases "i \<le> t_max")
    case False
    with "1.prems"(1) have "acc' = acc" by (simp add: transitions_loop.simps)
    then show ?thesis by (simp add: quiet_step_refl same_points_refl)
  next
    case True
    obtain fu t where acc: "acc = (fu, t)" by (cases acc)
    from True "1.prems"(1) obtain inc fu1 t1 where
      b: "transitions_body E state state_last bb_now bb_last n_task i acc = Some (inc, fu1, t1)"
      and l: "transitions_loop E state state_last bb_now bb_last n_task t_max
                ((if inc then i + 1 else i) + 1) (fu1, t1) = Some acc'"
      by (subst (asm) transitions_loop.simps) (auto split: option.splits)
    from "1.prems"(2) acc have n: "n_task = int (length (task_points t))" by simp
    from transitions_body_frame [OF b [unfolded acc] n "1.prems"(3)]
    have f: "quiet_step t t1" "length (task_points t1) = length (task_points t)"
      "i \<noteq> 0 \<longrightarrow> same_points t t1"
      "same_points t t1 \<or> (\<exists>j. start_selected t t1 j)"
      "inc \<longrightarrow> active_task_point t1 = active_task_point t + 1 \<and>
                 active_task_point t1 < length (task_points t)"
      "\<not> inc \<longrightarrow> active_task_point t1 = active_task_point t"
      by auto
    from n f(2) have n1: "n_task = int (length (task_points (snd (fu1, t1))))" by simp
    from "1.prems"(3) have pos: "0 \<le> (if inc then i + 1 else i) + 1" by simp
    from "1.IH" [OF True b refl refl l n1 pos]
    have g: "quiet_step t1 (snd acc')"
      "length (task_points (snd acc')) = length (task_points t1)"
      "active_task_point t1 \<le> active_task_point (snd acc')"
      "active_task_point t1 < length (task_points t1) \<longrightarrow>
         active_task_point (snd acc') < length (task_points t1)"
      "same_points t1 (snd acc')"
      using "1.prems"(3) by simp_all
    from f g show ?thesis
      unfolding acc
      by (auto intro: quiet_step_trans same_points_trans start_selected_cong same_points_refl)
  qed
qed

lemma SetStarted_record:
  "SetStarted s x = \<lparr>advanced_by_pev = False, time_ss = time x, altitude_ss = altitude x,
                     ground_speed_ss = ground_speed x\<rparr>"
  by (simp add: SetStarted_def SetStarted_pev_def)

lemma update_finished_frame:
  "update_finished E t = Some t' \<Longrightarrow>
   same_points t t' \<and> active_task_point t' = active_task_point t \<and>
   task_events t' = task_events t \<and> events t' = events t \<and>
   start (stats t') = start (stats t)"
  by (auto simp add: update_finished_def Let_def bind_eq_Some_conv same_points_def)

lemma fire_start_finish_eq:
  "fire_start_finish lst lf t = t\<lparr>events := events t
     @ (if task_events t \<and> lst < time_ss (start (stats t)) then [TaskStart] else [])
     @ (if task_events t \<and> task_finished (stats t) \<and> \<not> lf then [TaskFinish] else [])\<rparr>"
  by (simp add: fire_start_finish_def emit_def GetStartedTime_def Let_def)

lemma record_start_effect:
  assumes "record_start E t = Some t'"
  shows "same_points t t' \<and> active_task_point t' = active_task_point t \<and>
         task_events t' = task_events t \<and> events t' = events t \<and>
         task_finished (stats t') = task_finished (stats t) \<and>
         (\<exists>started. TaskStarted t' False = Some started \<and>
                    (\<not> started \<longrightarrow> t' = t) \<and> (started \<longrightarrow> start_recorded E t'))"
proof -
  from assms obtain started where st: "TaskStarted t False = Some started"
    by (auto simp add: record_start_def bind_eq_Some_conv)
  show ?thesis
  proof (cases started)
    case False
    with assms st have "t' = t" by (simp add: record_start_def)
    with st False show ?thesis by (auto simp add: same_points_def)
  next
    case True
    with st obtain sa start_tp where
      p: "taskpoint_start t = Some sa" "heap t sa = Some start_tp" "has_exited start_tp"
      by (auto simp add: TaskStarted_def bind_eq_Some_conv split: option.splits)
    define t1 where "t1 = t\<lparr>stats := (stats t)
                                \<lparr>start := SetStarted (start (stats t)) (state_exited start_tp),
                                 pev_based_advance_ready := False\<rparr>\<rparr>"
    from True assms st p have ht: "HasTime (state_exited start_tp)"
      by (auto simp add: record_start_def Let_def split: if_splits)
    show ?thesis
    proof (cases "taskpoint_finish t")
      case None
      with True assms st p ht have "t' = t1"
        by (simp add: record_start_def Let_def t1_def)
      with p ht None show ?thesis
        by (intro conjI exI [of _ True])
           (simp_all add: same_points_def TaskStarted_def t1_def SetStarted_record
              start_recorded_def)
    next
      case (Some fa)
      with True assms st p ht obtain finish_tp where
        f: "heap t fa = Some finish_tp"
        and t'eq: "t' = t1\<lparr>heap := (heap t1)(fa \<mapsto> finish_tp
                              \<lparr>fai_finish_height :=
                                 tp_CalculateFinishHeightFromStart E finish_tp
                                   (altitude_ss (start (stats t1)))\<rparr>)\<rparr>"
        by (auto simp add: record_start_def Let_def t1_def bind_eq_Some_conv)
      have rec: "start_recorded E t'"
      proof (cases "fa = sa")
        case False
        with t'eq p ht Some f show ?thesis
          apply (simp add: start_recorded_def t1_def SetStarted_record)
          apply (rule exI [of _ "fai_finish_height finish_tp"])
          apply simp
          done
      next
        case eq: True
        with f p have same: "finish_tp = start_tp" by simp
        with eq t'eq p ht Some f show ?thesis
          apply (simp add: start_recorded_def t1_def SetStarted_record)
          apply (rule exI [of _ "fai_finish_height start_tp"])
          apply simp
          done
      qed
      from t'eq p f have "TaskStarted t' False = Some True"
        by (auto simp add: TaskStarted_def t1_def)
      with rec t'eq show ?thesis
        by (intro conjI exI [of _ True]) (simp_all add: same_points_def t1_def)
    qed
  qed
qed

lemma TaskStarted_events [simp]:
  "TaskStarted (t\<lparr>events := es\<rparr>) soft = TaskStarted t soft"
  by (simp add: TaskStarted_def split: option.splits)

lemma start_recorded_events [simp]:
  "start_recorded E (t\<lparr>events := es\<rparr>) = start_recorded E t"
  by (simp add: start_recorded_def cong: option.case_cong)

lemma transitions_finish_effect:
  assumes "transitions_finish E lst lf t = Some t'"
  shows "same_points t t' \<and> active_task_point t' = active_task_point t \<and>
         task_events t' = task_events t \<and>
         events t' = events t
           @ (if task_events t \<and> lst < time_ss (start (stats t')) then [TaskStart] else [])
           @ (if task_events t \<and> task_finished (stats t') \<and> \<not> lf then [TaskFinish] else []) \<and>
         (\<exists>started. TaskStarted t' False = Some started \<and>
                    (started \<longrightarrow> start_recorded E t'))"
proof -
  from assms obtain t1 t2 where
    u: "update_finished E t = Some t1" and r: "record_start E t1 = Some t2"
    and t': "t' = fire_start_finish lst lf t2"
    by (auto simp add: transitions_finish_def bind_eq_Some_conv)
  from update_finished_frame [OF u] record_start_effect [OF r] show ?thesis
    unfolding t' fire_start_finish_eq same_points_def by auto
qed

lemma CheckTransitions_no_start:
  "taskpoint_start t = None \<Longrightarrow> CheckTransitions E t state state_last = Some (False, t)"
  by (simp add: CheckTransitions_def)

lemma CheckTransitions_not_flying:
  assumes "\<not> flying state" and "taskpoint_start t = Some sa"
  shows "CheckTransitions E t state state_last =
           (if heap t sa \<noteq> None \<and> active_task_point t < length (task_points t) \<and>
               heap t (task_points t ! active_task_point t) \<noteq> None
            then Some (False, t\<lparr>heap := tp_ScanActive E (heap t) sa
                                          (task_points t ! active_task_point t)\<rparr>)
            else None)"
  using assms by (auto simp add: CheckTransitions_def vec_at_def Let_def)

lemma CheckTransitions_flying:
  assumes "CheckTransitions E t state state_last = Some (r, t')"
    and "flying state" and "taskpoint_start t = Some sa"
  shows "active_task_point t < length (task_points t) \<and>
         (\<exists>t1.
           transitions_loop E state state_last
             \<lparr>bb_center = ProjectInteger E (task_projection t) (location state), bb_radius = 1\<rparr>
             \<lparr>bb_center = ProjectInteger E (task_projection t) (location state_last),
              bb_radius = 1\<rparr>
             (int (length (task_points t)))
             (min (int (length (task_points t)) - 1) (int (active_task_point t)))
             (max 0 (int (active_task_point t) - 1))
             (False, t\<lparr>heap := tp_ScanActive E (heap t) sa
                                 (task_points t ! active_task_point t)\<rparr>)
           = Some (r, t1) \<and>
           transitions_finish E (time_ss (start (stats t))) (task_finished (stats t)) t1
           = Some t')"
  using assms
  by (auto simp add: CheckTransitions_def vec_at_def Let_def bind_eq_Some_conv
      GetStartedTime_def split: if_splits)


section \<open>The active index\<close>

lemma Append_active:
  assumes "Append E t p = Some (b, t')"
  shows "active_task_point t' = active_task_point t \<and>
         length (task_points t) \<le> length (task_points t')"
proof (cases b)
  case False
  with assms have "t' = t"
    by (auto simp add: Append_def bind_eq_Some_conv Let_def alloc_def split: if_splits)
  then show ?thesis by simp
next
  case True
  define t2 where "t2 = t\<lparr>heap := (heap t)(next_addr t \<mapsto> tp_Clone E (ordered_settings t) p),
                          next_addr := Suc (next_addr t),
                          task_points := task_points t @ [next_addr t]\<rparr>"
  from True assms obtain t3 where
    s3: "(if length (task_points t) > 0 then SetNeighbours t2 (length (task_points t) - 1)
          else Some (t2\<lparr>last_min_location := tp_location p\<rparr>)) = Some t3"
    and s4: "SetNeighbours t3 (length (task_points t)) = Some t'"
    by (auto simp add: Append_def bind_eq_Some_conv Let_def alloc_def t2_def split: if_splits)
  from s3 have "task_points t3 = task_points t2 \<and> active_task_point t3 = active_task_point t2"
    by (auto dest!: SetNeighbours_frame undisturbed_fields split: if_splits)
  moreover from s4 have "task_points t' = task_points t3 \<and>
      active_task_point t' = active_task_point t3"
    by (auto dest!: SetNeighbours_frame undisturbed_fields)
  ultimately show ?thesis by (simp add: t2_def)
qed

lemma Insert_active:
  assumes "Insert E t p pos = Some (b, t')"
    and "active_task_point t < length (task_points t)"
  shows "active_task_point t' < length (task_points t')"
proof (cases "pos \<ge> length (task_points t)")
  case True
  with assms(1) have "Append E t p = Some (b, t')" by (simp add: Insert_def)
  from Append_active [OF this] assms(2) show ?thesis by simp
next
  case False
  show ?thesis
  proof (cases b)
    case b: False
    with False assms(1) have "t' = t"
      by (auto simp add: Insert_def bind_eq_Some_conv Let_def alloc_def split: if_splits)
    with assms(2) show ?thesis by simp
  next
    case b: True
    define t1 where "t1 = (if active_task_point t \<ge> pos
                           then t\<lparr>active_task_point := active_task_point t + 1\<rparr> else t)"
    define t3 where "t3 = t1\<lparr>heap := (heap t1)(next_addr t1 \<mapsto> tp_Clone E (ordered_settings t1) p),
                            next_addr := Suc (next_addr t1),
                            task_points := take pos (task_points t1) @ next_addr t1
                                             # drop pos (task_points t1)\<rparr>"
    from False b assms(1) have
      "\<exists>t4 t5. (if pos \<noteq> 0 then SetNeighbours t3 (pos - 1) else Some t3) = Some t4 \<and>
         SetNeighbours t4 pos = Some t5 \<and> SetNeighbours t5 (pos + 1) = Some t'"
      unfolding Insert_def Let_def alloc_def prod.case t1_def [symmetric]
      by (auto simp add: bind_eq_Some_conv t3_def split: if_splits)
    then obtain t4 t5 where
      s4: "(if pos \<noteq> 0 then SetNeighbours t3 (pos - 1) else Some t3) = Some t4"
      and s5: "SetNeighbours t4 pos = Some t5"
      and s6: "SetNeighbours t5 (pos + 1) = Some t'"
      by (elim exE conjE)
    from s4 have "task_points t4 = task_points t3 \<and> active_task_point t4 = active_task_point t3"
      by (auto dest!: SetNeighbours_frame undisturbed_fields split: if_splits)
    moreover from s5 have "task_points t5 = task_points t4 \<and>
        active_task_point t5 = active_task_point t4"
      by (auto dest!: SetNeighbours_frame undisturbed_fields)
    moreover from s6 have "task_points t' = task_points t5 \<and>
        active_task_point t' = active_task_point t5"
      by (auto dest!: SetNeighbours_frame undisturbed_fields)
    ultimately show ?thesis using assms(2) False by (simp add: t3_def t1_def)
  qed
qed

lemma Remove_active:
  assumes "Remove t pos = Some (b, t')"
    and "active_task_point t < length (task_points t)"
  shows "(task_points t' \<noteq> [] \<longrightarrow> active_task_point t' < length (task_points t')) \<and>
         (task_points t' = [] \<longrightarrow>
            b \<and> pos = 0 \<and> length (task_points t) = 1 \<and> active_task_point t' = 0)"
proof (cases "pos \<ge> length (task_points t)")
  case True
  with assms show ?thesis by (auto simp add: Remove_def)
next
  case False
  define t1 where "t1 = (if active_task_point t > pos \<or>
                           (active_task_point t > 0 \<and>
                            active_task_point t = length (task_points t) - 1)
                         then t\<lparr>active_task_point := active_task_point t - 1\<rparr> else t)"
  from False assms(1) have
    "\<exists>t2 t3. b \<and> ErasePoint t1 pos = Some t2 \<and>
       (if pos < length (task_points t2) then SetNeighbours t2 pos else Some t2) = Some t3 \<and>
       (if pos \<noteq> 0 then SetNeighbours t3 (pos - 1) else Some t3) = Some t'"
    unfolding Remove_def Let_def t1_def [symmetric]
    by (auto simp add: bind_eq_Some_conv split: if_splits)
  then obtain t2 t3 where
    b: "b"
    and s2: "ErasePoint t1 pos = Some t2"
    and s3: "(if pos < length (task_points t2) then SetNeighbours t2 pos else Some t2) = Some t3"
    and s4: "(if pos \<noteq> 0 then SetNeighbours t3 (pos - 1) else Some t3) = Some t'"
    by (elim exE conjE)
  have tp1: "task_points t1 = task_points t" by (simp add: t1_def)
  from s2 have e: "task_points t2 = erase (task_points t) pos \<and>
      active_task_point t2 = active_task_point t1"
    by (auto simp add: ErasePoint_def tp1 split: if_splits)
  from s3 have "task_points t3 = task_points t2 \<and> active_task_point t3 = active_task_point t2"
    by (auto dest!: SetNeighbours_frame undisturbed_fields split: if_splits)
  moreover from s4 have "task_points t' = task_points t3 \<and>
      active_task_point t' = active_task_point t3"
    by (auto dest!: SetNeighbours_frame undisturbed_fields split: if_splits)
  ultimately have r: "task_points t' = erase (task_points t) pos"
    "active_task_point t' = active_task_point t1"
    using e by simp_all
  from False have len: "length (task_points t') = length (task_points t) - 1"
    by (simp add: r length_erase)
  from assms(2) False have a: "length (task_points t) > 1 \<longrightarrow>
      active_task_point t1 < length (task_points t) - 1"
    by (auto simp add: t1_def)
  from assms(2) have z: "length (task_points t) = 1 \<longrightarrow> active_task_point t1 = 0"
    by (auto simp add: t1_def)
  from False have "length (task_points t) \<ge> 1" by simp
  with len a z b r False show ?thesis
    by (cases "length (task_points t) = 1") auto
qed

lemma SetActiveTaskPoint_active:
  "active_task_point t < length (task_points t) \<Longrightarrow>
   active_task_point (SetActiveTaskPoint E t i) < length (task_points (SetActiveTaskPoint E t i))"
  by (simp add: SetActiveTaskPoint_def)

lemma CheckTransitions_active:
  assumes "CheckTransitions E t state state_last = Some (r, t')"
  shows "length (task_points t') = length (task_points t) \<and>
         active_task_point t \<le> active_task_point t' \<and>
         (active_task_point t < length (task_points t) \<longrightarrow>
            active_task_point t' < length (task_points t'))"
proof (cases "taskpoint_start t")
  case None
  with assms show ?thesis by (simp add: CheckTransitions_def)
next
  case (Some sa)
  show ?thesis
  proof (cases "flying state")
    case False
    with assms Some show ?thesis
      by (auto simp add: CheckTransitions_not_flying split: if_splits)
  next
    case True
    define t0 where "t0 = t\<lparr>heap := tp_ScanActive E (heap t) sa
                                       (task_points t ! active_task_point t)\<rparr>"
    from CheckTransitions_flying [OF assms True Some] obtain t1 where
      l: "transitions_loop E state state_last
             \<lparr>bb_center = ProjectInteger E (task_projection t) (location state), bb_radius = 1\<rparr>
             \<lparr>bb_center = ProjectInteger E (task_projection t) (location state_last),
              bb_radius = 1\<rparr>
             (int (length (task_points t)))
             (min (int (length (task_points t)) - 1) (int (active_task_point t)))
             (max 0 (int (active_task_point t) - 1))
             (False, t0) = Some (r, t1)"
      and f: "transitions_finish E (time_ss (start (stats t))) (task_finished (stats t)) t1
                = Some t'"
      unfolding t0_def by blast
    have n: "int (length (task_points t)) = int (length (task_points (snd (False, t0))))"
      by (simp add: t0_def)
    from transitions_loop_frame [OF l n] have
      "length (task_points t1) = length (task_points t0)"
      "active_task_point t0 \<le> active_task_point t1"
      "active_task_point t0 < length (task_points t0) \<longrightarrow>
         active_task_point t1 < length (task_points t0)"
      by simp_all
    moreover from transitions_finish_effect [OF f] have
      "task_points t' = task_points t1" "active_task_point t' = active_task_point t1"
      by (simp_all add: same_points_def)
    ultimately show ?thesis by (simp add: t0_def)
  qed
qed

text \<open>
  The definitions that a run of \<^verbatim>\<open>CheckTransitions\<close> on a concrete task unfolds.
\<close>

lemmas ct_defs = CheckTransitions_def vec_at_def Let_def E0_def
      E_exit_def record_exit_def SetActiveTaskPoint_def SetStarted_def SetStarted_pev_def
      HasTime_def IsDefined_def
      transitions_loop.simps transitions_body_def CheckTransitionOptionalStart_def
      CheckTransitionPoint_def enter_step_def exit_step_def sample_step_def
      UpdateStartTransition_def advance_block_def transitions_finish_def update_finished_def
      record_start_def fire_start_finish_def TaskStarted_def GetStartedTime_def Undefined_def
      point_def emit_def

text \<open>
  Claim C9, as amended. In a task whose active index is below the number of points (a
  task that is not empty): after \<^verbatim>\<open>Remove\<close> the index is below the number of points
  again unless the task has become empty, which happens only when its one point was removed
  and leaves the index at 0; after \<^verbatim>\<open>Insert\<close> and after \<^verbatim>\<open>SetActiveTaskPoint\<close> the
  index is below the number of points; \<^verbatim>\<open>CheckTransitions\<close> keeps the number of points,
  never decreases the index and leaves it below the number of points; without a start
  point \<^verbatim>\<open>CheckTransitions\<close> returns \<^verbatim>\<open>false\<close> and leaves the task as it was; and for
  a state that is not flying it returns \<^verbatim>\<open>false\<close> and leaves the task as it was but
  for what \<^verbatim>\<open>ScanActive\<close> writes into the points, so that the index and the events are
  those of before.
\<close>

theorem active_index_preserved:
  assumes "active_task_point t < length (task_points t)"
  shows "(\<forall>b t'. Remove t pos = Some (b, t') \<longrightarrow>
            (task_points t' \<noteq> [] \<longrightarrow> active_task_point t' < length (task_points t')) \<and>
            (task_points t' = [] \<longrightarrow>
               b \<and> pos = 0 \<and> length (task_points t) = 1 \<and> active_task_point t' = 0)) \<and>
         (\<forall>b t'. Insert E t p pos = Some (b, t') \<longrightarrow>
            active_task_point t' < length (task_points t')) \<and>
         active_task_point (SetActiveTaskPoint E t i)
           < length (task_points (SetActiveTaskPoint E t i)) \<and>
         (\<forall>r t'. CheckTransitions E t state state_last = Some (r, t') \<longrightarrow>
            length (task_points t') = length (task_points t) \<and>
            active_task_point t \<le> active_task_point t' \<and>
            active_task_point t' < length (task_points t')) \<and>
         (taskpoint_start t = None \<longrightarrow>
            CheckTransitions E t state state_last = Some (False, t)) \<and>
         (\<forall>sa. \<not> flying state \<and> taskpoint_start t = Some sa \<and> heap t sa \<noteq> None \<and>
               heap t (task_points t ! active_task_point t) \<noteq> None \<longrightarrow>
            CheckTransitions E t state state_last =
              Some (False, t\<lparr>heap := tp_ScanActive E (heap t) sa
                                       (task_points t ! active_task_point t)\<rparr>))"
proof (intro conjI allI impI)
  fix b t' assume "Remove t pos = Some (b, t')"
  from Remove_active [OF this assms]
  show "task_points t' \<noteq> [] \<Longrightarrow> active_task_point t' < length (task_points t')"
    and "task_points t' = [] \<Longrightarrow> b" and "task_points t' = [] \<Longrightarrow> pos = 0"
    and "task_points t' = [] \<Longrightarrow> length (task_points t) = 1"
    and "task_points t' = [] \<Longrightarrow> active_task_point t' = 0"
    by simp_all
next
  fix b t' assume "Insert E t p pos = Some (b, t')"
  from Insert_active [OF this assms]
  show "active_task_point t' < length (task_points t')" .
next
  from assms show "active_task_point (SetActiveTaskPoint E t i)
      < length (task_points (SetActiveTaskPoint E t i))"
    by (rule SetActiveTaskPoint_active)
next
  fix r t' assume "CheckTransitions E t state state_last = Some (r, t')"
  from CheckTransitions_active [OF this] assms
  show "length (task_points t') = length (task_points t)"
    and "active_task_point t \<le> active_task_point t'"
    and "active_task_point t' < length (task_points t')"
    by simp_all
next
  assume "taskpoint_start t = None"
  then show "CheckTransitions E t state state_last = Some (False, t)"
    by (rule CheckTransitions_no_start)
next
  fix sa
  assume "\<not> flying state \<and> taskpoint_start t = Some sa \<and> heap t sa \<noteq> None \<and>
          heap t (task_points t ! active_task_point t) \<noteq> None"
  with assms show "CheckTransitions E t state state_last =
      Some (False, t\<lparr>heap := tp_ScanActive E (heap t) sa
                               (task_points t ! active_task_point t)\<rparr>)"
    by (simp add: CheckTransitions_not_flying)
qed

text \<open>
  The theorem at the task of two cylinders: slot 0 removed, a point inserted at slot 1,
  point 1 made active, the start left in flight, a call without a start point, and a call
  for an aircraft that does not fly.
\<close>

theorem active_index_preserved_witness:
  "(\<exists>t'. Remove (cylinder_task 1000 1000) 0 = Some (True, t') \<and>
         length (task_points t') = 1 \<and> active_task_point t' < length (task_points t')) \<and>
   (\<exists>t'. Insert E0 (cylinder_task 1000 1000) (point AST (Cylinder 500) (GeoPoint 1 1)) 1
           = Some (True, t') \<and>
         length (task_points t') = 3 \<and> active_task_point t' < length (task_points t')) \<and>
   active_task_point (SetActiveTaskPoint E0 (cylinder_task 1000 1000) 1)
     < length (task_points (SetActiveTaskPoint E0 (cylinder_task 1000 1000) 1)) \<and>
   (\<exists>t'. CheckTransitions (E_exit 0) (cylinder_task 1000 1000) state_100 state_100
           = Some (True, t') \<and>
         length (task_points t') = 2 \<and>
         active_task_point (cylinder_task 1000 1000) \<le> active_task_point t' \<and>
         active_task_point t' < length (task_points t')) \<and>
   CheckTransitions E0 ((cylinder_task 1000 1000)\<lparr>taskpoint_start := None\<rparr>) state_100 state_100
     = Some (False, (cylinder_task 1000 1000)\<lparr>taskpoint_start := None\<rparr>) \<and>
   CheckTransitions E0 (cylinder_task 1000 1000) no_state no_state
     = Some (False, cylinder_task 1000 1000)"
proof -
  let ?t = "cylinder_task 1000 1000"
  let ?p = "point AST (Cylinder 500) (GeoPoint 1 1)"
  have a: "active_task_point ?t < length (task_points ?t)"
    by (simp add: cylinder_task_def empty_task_def)
  have a': "active_task_point (?t\<lparr>taskpoint_start := None\<rparr>)
      < length (task_points (?t\<lparr>taskpoint_start := None\<rparr>))"
    by (simp add: cylinder_task_def empty_task_def)
  have len: "length (task_points ?t) = 2" by (simp add: cylinder_task_def empty_task_def)
  have "\<exists>t'. Remove ?t 0 = Some (True, t') \<and> length (task_points t') = 1"
    by (simp add: Remove_def ErasePoint_def erase_def SetNeighbours_def tp_SetNeighbours_def
        Let_def cylinder_task_def empty_task_def point_def)
  then obtain t1 where r: "Remove ?t 0 = Some (True, t1)" and l1: "length (task_points t1) = 1"
    by blast
  have "\<exists>t'. Insert E0 ?t ?p 1 = Some (True, t') \<and> length (task_points t') = 3"
    by (simp add: Insert_def Insert_refused_def alloc_def vec_at_def SetNeighbours_def
        tp_SetNeighbours_def Let_def cylinder_task_def empty_task_def point_def E0_def)
  then obtain t2 where i: "Insert E0 ?t ?p 1 = Some (True, t2)"
    and l2: "length (task_points t2) = 3"
    by blast
  have "\<exists>t'. CheckTransitions (E_exit 0) ?t state_100 state_100 = Some (True, t')"
    by (simp add: ct_defs cylinder_task_def empty_task_def state_100_def)
  then obtain t3 where c: "CheckTransitions (E_exit 0) ?t state_100 state_100 = Some (True, t3)"
    by blast
  have nf: "\<not> flying no_state \<and> taskpoint_start ?t = Some 0 \<and> heap ?t 0 \<noteq> None \<and>
      heap ?t (task_points ?t ! active_task_point ?t) \<noteq> None"
    by (simp add: no_state_def cylinder_task_def empty_task_def)
  have same: "?t\<lparr>heap := tp_ScanActive E0 (heap ?t) 0 (task_points ?t ! active_task_point ?t)\<rparr>
      = ?t"
    by (simp add: E0_def)
  have ns: "taskpoint_start (?t\<lparr>taskpoint_start := None\<rparr>) = None" by simp
  note T1 = active_index_preserved [OF a, where pos = 0 and E = E0 and p = ?p and i = 1
      and state = no_state and state_last = no_state]
  note T2 = active_index_preserved [OF a, where pos = 1 and E = E0 and p = ?p and i = 1
      and state = no_state and state_last = no_state]
  note T3 = active_index_preserved [OF a, where pos = 0 and E = "E_exit 0" and p = ?p and i = 1
      and state = state_100 and state_last = state_100]
  note T4 = active_index_preserved [OF a', where pos = 0 and E = E0 and p = ?p and i = 1
      and state = state_100 and state_last = state_100]
  from T1 r l1 have g1: "active_task_point t1 < length (task_points t1)" by auto
  from T2 i have g2: "active_task_point t2 < length (task_points t2)" by blast
  from T1 have g3: "active_task_point (SetActiveTaskPoint E0 ?t 1)
      < length (task_points (SetActiveTaskPoint E0 ?t 1))" by blast
  from T3 c have g4: "length (task_points t3) = length (task_points ?t) \<and>
      active_task_point ?t \<le> active_task_point t3 \<and>
      active_task_point t3 < length (task_points t3)" by blast
  from T4 ns have g5: "CheckTransitions E0 (?t\<lparr>taskpoint_start := None\<rparr>) state_100 state_100
      = Some (False, ?t\<lparr>taskpoint_start := None\<rparr>)" by blast
  from T1 nf have "CheckTransitions E0 ?t no_state no_state =
      Some (False, ?t\<lparr>heap := tp_ScanActive E0 (heap ?t) 0
                                (task_points ?t ! active_task_point ?t)\<rparr>)"
    by blast
  then have g6: "CheckTransitions E0 ?t no_state no_state = Some (False, ?t)"
    by (simp only: same)
  from r l1 g1 i l2 g2 g3 c g4 len g5 g6 show ?thesis by auto
qed

text \<open>
  The claim as the spec words it has the index below the number of points after every
  \<^verbatim>\<open>Remove\<close> on a task that is not empty. \<^verbatim>\<open>Remove(0)\<close> on a task of one point
  returns \<^verbatim>\<open>true\<close> and leaves no point and the index 0, which is not below the number
  of points.
\<close>

theorem Remove_only_point_counterexample:
  "active_task_point single_point_task < length (task_points single_point_task) \<and>
   (\<exists>t'. Remove single_point_task 0 = Some (True, t') \<and>
         task_points t' = [] \<and> active_task_point t' = 0 \<and>
         \<not> active_task_point t' < length (task_points t'))"
  by (simp add: Remove_def ErasePoint_def erase_def SetNeighbours_def tp_SetNeighbours_def
      Let_def single_point_task_def empty_task_def point_def)

section \<open>The record of the start\<close>

lemma count_list_quiet: "x \<notin> set xs \<Longrightarrow> count_list xs x = 0"
  by (induction xs) auto

text \<open>
  Claim C2, as amended. A call of \<^verbatim>\<open>CheckTransitions\<close> for a flying aircraft on a task
  with a start point, when it returns, leaves \<^verbatim>\<open>TaskStarted()\<close> defined, and if it is
  true then, whether or not it was true before the call, \<open>stats.start\<close> holds the time,
  the altitude and the ground speed of the exited state of the start point,
  \<open>pev_based_advance_ready\<close> is cleared and the finish point carries the height computed
  from the start altitude. The event sink stays the one it was, and among the events of
  the call \<^verbatim>\<open>TaskStart\<close> occurs once if there is a sink and the started time after the
  call is later than the one before it, and does not occur otherwise.
\<close>

theorem CheckTransitions_records_start:
  assumes "CheckTransitions E t state state_last = Some (r, t')"
    and "flying state" and "taskpoint_start t = Some sa"
  shows "\<exists>started es.
           TaskStarted t' False = Some started \<and>
           (started \<longrightarrow> start_recorded E t') \<and>
           task_events t' = task_events t \<and>
           events t' = events t @ es \<and>
           count_list es TaskStart =
             (if task_events t \<and> time_ss (start (stats t)) < time_ss (start (stats t'))
              then 1 else 0)"
proof -
  define t0 where "t0 = t\<lparr>heap := tp_ScanActive E (heap t) sa
                                     (task_points t ! active_task_point t)\<rparr>"
  from CheckTransitions_flying [OF assms] obtain t1 where
    l: "transitions_loop E state state_last
           \<lparr>bb_center = ProjectInteger E (task_projection t) (location state), bb_radius = 1\<rparr>
           \<lparr>bb_center = ProjectInteger E (task_projection t) (location state_last),
            bb_radius = 1\<rparr>
           (int (length (task_points t)))
           (min (int (length (task_points t)) - 1) (int (active_task_point t)))
           (max 0 (int (active_task_point t) - 1))
           (False, t0) = Some (r, t1)"
    and f: "transitions_finish E (time_ss (start (stats t))) (task_finished (stats t)) t1
              = Some t'"
    unfolding t0_def by blast
  have n: "int (length (task_points t)) = int (length (task_points (snd (False, t0))))"
    by (simp add: t0_def)
  from transitions_loop_frame [OF l n] have "quiet_step t0 t1" by simp
  then obtain es1 where
    q: "task_events t1 = task_events t" "events t1 = events t @ es1" "TaskStart \<notin> set es1"
    by (auto simp add: quiet_step_def t0_def)
  from transitions_finish_effect [OF f] obtain started where
    s: "TaskStarted t' False = Some started" "started \<longrightarrow> start_recorded E t'"
    and te: "task_events t' = task_events t1"
    and ev: "events t' = events t1
           @ (if task_events t1 \<and> time_ss (start (stats t)) < time_ss (start (stats t'))
              then [TaskStart] else [])
           @ (if task_events t1 \<and> task_finished (stats t') \<and> \<not> task_finished (stats t)
              then [TaskFinish] else [])"
    by blast
  define es where "es = es1
           @ (if task_events t \<and> time_ss (start (stats t)) < time_ss (start (stats t'))
              then [TaskStart] else [])
           @ (if task_events t \<and> task_finished (stats t') \<and> \<not> task_finished (stats t)
              then [TaskFinish] else [])"
  from ev q have e: "events t' = events t @ es" by (simp add: es_def)
  from q(3) have c: "count_list es TaskStart =
             (if task_events t \<and> time_ss (start (stats t)) < time_ss (start (stats t'))
              then 1 else 0)"
    by (simp add: es_def count_list_quiet)
  from s te q(1) e c show ?thesis by (intro exI [of _ started] exI [of _ es]) simp
qed

text \<open>
  The theorem at scenario S1: the aircraft leaves the start cylinder at \<open>t = 100 s\<close>, at
  1000 m and 30 m/s.
\<close>

theorem CheckTransitions_records_start_witness:
  "\<exists>t'. CheckTransitions (E_exit 0) (cylinder_task 1000 1000) state_100 state_100
          = Some (True, t') \<and>
        TaskStarted t' False = Some True \<and>
        start (stats t') = \<lparr>advanced_by_pev = False, time_ss = 100, altitude_ss = 1000,
                            ground_speed_ss = 30\<rparr> \<and>
        \<not> pev_based_advance_ready (stats t') \<and>
        count_list (events t') TaskStart = 1"
proof -
  let ?t = "cylinder_task 1000 1000"
  have "\<exists>t'. CheckTransitions (E_exit 0) ?t state_100 state_100 = Some (True, t') \<and>
      TaskStarted t' False = Some True \<and> taskpoint_start t' = Some 0 \<and>
      map_option state_exited (heap t' 0) = Some state_100"
    by (simp add: ct_defs cylinder_task_def empty_task_def state_100_def)
  then obtain t' where c: "CheckTransitions (E_exit 0) ?t state_100 state_100 = Some (True, t')"
    and st: "TaskStarted t' False = Some True"
    and sa: "taskpoint_start t' = Some 0"
    and ex: "map_option state_exited (heap t' 0) = Some state_100"
    by blast
  have f: "flying state_100" by (simp add: state_100_def)
  have s0: "taskpoint_start ?t = Some 0" by (simp add: cylinder_task_def)
  have e0: "events ?t = [] \<and> task_events ?t \<and> time_ss (start (stats ?t)) = - 1"
    by (simp add: cylinder_task_def empty_task_def Undefined_def)
  from CheckTransitions_records_start [OF c f s0] st obtain es where
    rec: "start_recorded (E_exit 0) t'"
    and ev: "events t' = events ?t @ es"
    and cnt: "count_list es TaskStart =
             (if task_events ?t \<and> time_ss (start (stats ?t)) < time_ss (start (stats t'))
              then 1 else 0)"
    by auto
  from rec sa ex have stats:
    "start (stats t') = \<lparr>advanced_by_pev = False, time_ss = 100, altitude_ss = 1000,
                         ground_speed_ss = 30\<rparr>"
    "\<not> pev_based_advance_ready (stats t')"
    by (auto simp add: start_recorded_def state_100_def split: option.splits)
  from ev cnt e0 stats(1) have "count_list (events t') TaskStart = 1" by simp
  with c st stats show ?thesis by blast
qed

text \<open>
  The claim as the spec words it has the statistics written, the flag cleared and the
  finish height computed only at the call at which \<^verbatim>\<open>TaskStarted()\<close> becomes true. In
  the task that was started at \<open>t = 100 s\<close>, with the flag set since and a finish height
  of 500 m, a call at \<open>t = 200 s\<close> in which no transition happens and no event fires
  clears the flag and sets the finish height anew, though \<^verbatim>\<open>TaskStarted()\<close> was true
  before it.
\<close>

theorem CheckTransitions_again_counterexample:
  "TaskStarted started_task False = Some True \<and>
   pev_based_advance_ready (stats started_task) \<and>
   map_option fai_finish_height (heap started_task 1) = Some 500 \<and>
   (\<exists>t'. CheckTransitions E0 started_task state_200 state_200 = Some (False, t') \<and>
         TaskStarted t' False = Some True \<and>
         events t' = [] \<and>
         start (stats t') = start (stats started_task) \<and>
         \<not> pev_based_advance_ready (stats t') \<and>
         map_option fai_finish_height (heap t' 1) = Some 0)"
  by (simp add: ct_defs started_task_def empty_task_def state_200_def state_100_def)

section \<open>The selection of an optional start\<close>

lemma transitions_body_selected:
  assumes b: "transitions_body E state state_last bb_now bb_last n_task 0 (fu0, t)
           = Some (inc, fu', t')"
    and k: "k < length (optional_start_points t)"
    and ex: "examined_without_transition E state state_last bb_now bb_last
               (pev_based_advance_ready (stats t)) (take k (optional_start_points t)) False t
             = Some (fu, tk)"
    and c: "CheckTransitionPoint E tk (optional_start_points t ! k) state state_last bb_now
              bb_last False False (pev_based_advance_ready (stats t)) True
            = Some (r, en, ex', tk')"
    and fires: "en \<or> ex'"
  shows "start_selected t t' k \<and>
         CheckTransitionOptionalStart E t state state_last bb_now bb_last False False
             (pev_based_advance_ready (stats t))
           = SelectOptionalStart E tk' k \<bind> (\<lambda>t2. Some (fu \<or> r, en, ex', t2))"
proof -
  from b obtain r0 en0 ex0 t1 a r1 en1 ex1 t2 where
    s1: "CheckTransitionOptionalStart E t state state_last bb_now bb_last
                 False False (pev_based_advance_ready (stats t)) = Some (r0, en0, ex0, t1)"
    and s2: "CheckTransitionPoint E t1 a state state_last bb_now bb_last en0 ex0
              (pev_based_advance_ready (stats t1)) True = Some (r1, en1, ex1, t2)"
    and s3: "(if 0 = int (active_task_point t2)
              then advance_block E state n_task 0 en1 ex1 (fu0 \<or> r0 \<or> r1) t2
              else Some (False, fu0 \<or> r0 \<or> r1, t2)) = Some (inc, fu', t')"
    unfolding transitions_body_def Let_def
    by (auto simp add: bind_eq_Some_conv)
  from k have split: "optional_start_points t =
      take k (optional_start_points t) @ optional_start_points t ! k
        # drop (Suc k) (optional_start_points t)"
    by (simp add: id_take_nth_drop)
  from k have lk: "length (take k (optional_start_points t)) = k" by simp
  from optional_start_loop_first [OF ex c fires,
      of "drop (Suc k) (optional_start_points t)" 0]
  have eq: "CheckTransitionOptionalStart E t state state_last bb_now bb_last False False
             (pev_based_advance_ready (stats t))
           = SelectOptionalStart E tk' k \<bind> (\<lambda>t2. Some (fu \<or> r, en, ex', t2))"
    unfolding CheckTransitionOptionalStart_def split [symmetric] lk by simp
  with s1 have sel: "SelectOptionalStart E tk' k = Some t1"
    by (auto simp add: bind_eq_Some_conv)
  from SelectOptionalStart_frame [OF sel] have ss: "start_selected tk' t1 k" by simp
  from examined_without_transition_frame [OF ex] CheckTransitionPoint_frame [OF c]
  have u1: "same_points t tk'"
    by (auto simp add: undisturbed_def intro: same_points_trans)
  from CheckTransitionPoint_frame [OF s2] have u2: "same_points t1 t2"
    by (simp add: undisturbed_def)
  have u3: "same_points t2 t'"
  proof (cases "0 = int (active_task_point t2)")
    case True
    with s3 have "advance_block E state n_task 0 en1 ex1 (fu0 \<or> r0 \<or> r1) t2
                  = Some (inc, fu', t')" by simp
    from advance_block_frame [OF this] show ?thesis by simp
  next
    case False
    with s3 show ?thesis by (auto simp add: same_points_refl)
  qed
  from u2 u3 have "same_points t1 t'" by (rule same_points_trans)
  with ss u1 have "start_selected t t' k" by (rule start_selected_cong)
  with eq show ?thesis by simp
qed

text \<open>
  Claim C4. A call of \<^verbatim>\<open>CheckTransitions\<close> for a flying aircraft has position 0 in its
  scan window when the active index is at most 1. If in such a call the optional starts
  before slot \<open>k\<close> are examined without a transition and the one in slot \<open>k\<close> reports
  an enter or an exit transition, then after the call the first task point is the former
  optional start \<open>k\<close>, the former first task point stands at the end of the optional
  starts, whose other slots keep their order, and the list has the size it had. The loop over
  the optional starts ends with the selection made on the task as the examination of slot
  \<open>k\<close> left it: the optional starts behind slot \<open>k\<close> are not examined. With two
  optional starts and \<open>k = 1\<close>, the first task point is the former \<open>optional[1]\<close> and
  \<open>optional[1]\<close> is the former first task point.
\<close>

theorem CheckTransitions_selects_optional_start:
  assumes "CheckTransitions E t state state_last = Some (res, t')"
    and "flying state" and "taskpoint_start t = Some sa"
    and "active_task_point t \<le> 1"
    and "k < length (optional_start_points t)"
    and "t0 = t\<lparr>heap := tp_ScanActive E (heap t) sa (task_points t ! active_task_point t)\<rparr>"
    and "bb_now = \<lparr>bb_center = ProjectInteger E (task_projection t) (location state),
                    bb_radius = 1\<rparr>"
    and "bb_last = \<lparr>bb_center = ProjectInteger E (task_projection t) (location state_last),
                     bb_radius = 1\<rparr>"
    and "examined_without_transition E state state_last bb_now bb_last
           (pev_based_advance_ready (stats t)) (take k (optional_start_points t)) False t0
         = Some (fu, tk)"
    and "CheckTransitionPoint E tk (optional_start_points t ! k) state state_last bb_now
           bb_last False False (pev_based_advance_ready (stats t)) True
         = Some (r, en, ex, tk')"
    and "en \<or> ex"
  shows "task_points t' = optional_start_points t ! k # tl (task_points t) \<and>
         optional_start_points t' =
           take k (optional_start_points t) @ drop (Suc k) (optional_start_points t)
             @ [hd (task_points t)] \<and>
         length (optional_start_points t') = length (optional_start_points t) \<and>
         CheckTransitionOptionalStart E t0 state state_last bb_now bb_last False False
             (pev_based_advance_ready (stats t))
           = SelectOptionalStart E tk' k \<bind> (\<lambda>t2. Some (fu \<or> r, en, ex, t2)) \<and>
         (length (optional_start_points t) = 2 \<and> k = 1 \<longrightarrow>
            task_points t' ! 0 = optional_start_points t ! 1 \<and>
            optional_start_points t' ! 1 = task_points t ! 0)"
proof -
  have t0: "t0 = t\<lparr>heap := tp_ScanActive E (heap t) sa
                               (task_points t ! active_task_point t)\<rparr>" by fact
  from CheckTransitions_flying [OF assms(1-3)] obtain t1 where
    act: "active_task_point t < length (task_points t)"
    and l: "transitions_loop E state state_last bb_now bb_last
           (int (length (task_points t)))
           (min (int (length (task_points t)) - 1) (int (active_task_point t)))
           (max 0 (int (active_task_point t) - 1))
           (False, t0) = Some (res, t1)"
    and f: "transitions_finish E (time_ss (start (stats t))) (task_finished (stats t)) t1
              = Some t'"
    unfolding t0 assms(7,8) by blast
  from assms(4) have i0: "max 0 (int (active_task_point t) - 1) = 0" by simp
  from act have le: "0 \<le> min (int (length (task_points t)) - 1) (int (active_task_point t))"
    by simp
  from l le obtain inc fu1 tb where
    b: "transitions_body E state state_last bb_now bb_last (int (length (task_points t))) 0
          (False, t0) = Some (inc, fu1, tb)"
    and l': "transitions_loop E state state_last bb_now bb_last
           (int (length (task_points t)))
           (min (int (length (task_points t)) - 1) (int (active_task_point t)))
           ((if inc then 0 + 1 else 0) + 1) (fu1, tb) = Some (res, t1)"
    unfolding i0
    by (subst (asm) transitions_loop.simps) (auto split: option.splits)
  have k0: "k < length (optional_start_points t0)" using assms(5) by (simp add: t0)
  have ex0: "examined_without_transition E state state_last bb_now bb_last
               (pev_based_advance_ready (stats t0)) (take k (optional_start_points t0)) False t0
             = Some (fu, tk)"
    using assms(9) by (simp add: t0)
  have c0: "CheckTransitionPoint E tk (optional_start_points t0 ! k) state state_last bb_now
              bb_last False False (pev_based_advance_ready (stats t0)) True
            = Some (r, en, ex, tk')"
    using assms(10) by (simp add: t0)
  from transitions_body_selected [OF b k0 ex0 c0 assms(11)]
  have sel: "start_selected t0 tb k"
    and eq: "CheckTransitionOptionalStart E t0 state state_last bb_now bb_last False False
             (pev_based_advance_ready (stats t))
           = SelectOptionalStart E tk' k \<bind> (\<lambda>t2. Some (fu \<or> r, en, ex, t2))"
    by (simp_all add: t0)
  from start_selected_length [OF sel]
  have n: "int (length (task_points t)) = int (length (task_points (snd (fu1, tb))))"
    by (simp add: t0)
  have pos: "0 \<le> (if inc then 0 + 1 else 0) + (1::int)" by simp
  have pos': "0 < (if inc then 0 + 1 else 0) + (1::int)" by simp
  from transitions_loop_frame [OF l' n pos] pos' have sp1: "same_points tb t1" by simp
  from transitions_finish_effect [OF f] have sp2: "same_points t1 t'" by simp
  from sp1 sp2 have "same_points tb t'" by (rule same_points_trans)
  with sel have "start_selected t0 t' k" by (rule start_selected_cong [OF _ same_points_refl])
  then have s: "task_points t' = optional_start_points t ! k # tl (task_points t)"
    "optional_start_points t' =
           take k (optional_start_points t) @ drop (Suc k) (optional_start_points t)
             @ [hd (task_points t)]"
    "task_points t \<noteq> []"
    by (simp_all add: start_selected_def t0)
  from s(2) assms(5) have len: "length (optional_start_points t') = length (optional_start_points t)"
    by simp
  from s have two: "length (optional_start_points t) = 2 \<and> k = 1 \<longrightarrow>
            task_points t' ! 0 = optional_start_points t ! 1 \<and>
            optional_start_points t' ! 1 = task_points t ! 0"
    by (auto simp add: nth_append hd_conv_nth)
  from s(1,2) len eq two show ?thesis by blast
qed


text \<open>The definitions that a selection on a concrete task unfolds.\<close>

lemmas geometry_defs = SelectOptionalStart_def UpdateGeometry_def UpdateStatsGeometry_def
  ScanStartFinish_def HasTargets_def vec_front_def vec_back_def erase_def SetNeighbours_def
  tp_SetNeighbours_def

text \<open>
  The theorem at scenario S3: the points at the addresses 2 and 3 are the optional starts,
  and the aircraft leaves the one at address 3.
\<close>

theorem CheckTransitions_selects_optional_start_witness:
  "\<exists>t'. CheckTransitions (E_exit 3) optional_start_task state_100 state_100 = Some (True, t') \<and>
        task_points t' = [3, 1] \<and> optional_start_points t' = [2, 0] \<and>
        length (optional_start_points t') = 2 \<and>
        task_points t' ! 0 = optional_start_points optional_start_task ! 1 \<and>
        optional_start_points t' ! 1 = task_points optional_start_task ! 0"
proof -
  let ?t = "optional_start_task"
  let ?E = "E_exit 3"
  let ?bb = "\<lparr>bb_center = ProjectInteger ?E (task_projection ?t) (location state_100),
              bb_radius = 1\<rparr>"
  let ?s = "?t\<lparr>heap := tp_ScanActive ?E (heap ?t) 0 (task_points ?t ! active_task_point ?t)\<rparr>"
  have "\<exists>t'. CheckTransitions ?E ?t state_100 state_100 = Some (True, t')"
    by (simp add: ct_defs geometry_defs optional_start_task_def empty_task_def state_100_def)
  then obtain t' where c: "CheckTransitions ?E ?t state_100 state_100 = Some (True, t')"
    by blast
  have f: "flying state_100" by (simp add: state_100_def)
  have s0: "taskpoint_start ?t = Some 0" by (simp add: optional_start_task_def)
  have a: "active_task_point ?t \<le> 1" by (simp add: optional_start_task_def empty_task_def)
  have k: "1 < length (optional_start_points ?t)" by (simp add: optional_start_task_def)
  have opts: "optional_start_points ?t = [2, 3]" and tps: "task_points ?t = [0, 1]"
    by (simp_all add: optional_start_task_def)
  have "\<exists>fu tk r en ex tk'.
      examined_without_transition ?E state_100 state_100 ?bb ?bb
        (pev_based_advance_ready (stats ?t)) (take 1 (optional_start_points ?t)) False ?s
        = Some (fu, tk) \<and>
      CheckTransitionPoint ?E tk (optional_start_points ?t ! 1) state_100 state_100 ?bb ?bb
        False False (pev_based_advance_ready (stats ?t)) True = Some (r, en, ex, tk') \<and>
      (en \<or> ex)"
    by (simp add: ct_defs optional_start_task_def empty_task_def state_100_def) blast
  then obtain fu tk r en ex tk' where
    e: "examined_without_transition ?E state_100 state_100 ?bb ?bb
        (pev_based_advance_ready (stats ?t)) (take 1 (optional_start_points ?t)) False ?s
        = Some (fu, tk)"
    and p: "CheckTransitionPoint ?E tk (optional_start_points ?t ! 1) state_100 state_100 ?bb ?bb
        False False (pev_based_advance_ready (stats ?t)) True = Some (r, en, ex, tk')"
    and fires: "en \<or> ex"
    by blast
  from CheckTransitions_selects_optional_start [OF c f s0 a k refl refl refl e p fires]
  have "task_points t' = optional_start_points ?t ! 1 # tl (task_points ?t)"
    "optional_start_points t' =
       take 1 (optional_start_points ?t) @ drop (Suc 1) (optional_start_points ?t)
         @ [hd (task_points ?t)]"
    "length (optional_start_points t') = length (optional_start_points ?t)"
    "length (optional_start_points ?t) = 2 \<and> (1::nat) = 1 \<longrightarrow>
       task_points t' ! 0 = optional_start_points ?t ! 1 \<and>
       optional_start_points t' ! 1 = task_points ?t ! 0"
    by blast+
  with c show ?thesis by (simp add: opts tps)
qed

end
